(* ===== verification/Sim_Prelude.thy ===== *)
theory Sim_Prelude
  imports Main "HOL-Library.Word" "HOL-Library.Multiset"
begin

text \<open>
  Shared vocabulary of the development: the result types that stand for Rust's panics and
  for \<open>std::io::Result\<close>, the identifiers that every component uses, the operations of
  \<open>Vec\<close> the simulator relies on (\<open>swap_remove\<close>, and the backward scan that removes
  matching entries with it), and the collections of simplification rules.
\<close>

section \<open>Outcomes\<close>

text \<open>
  A Rust function either returns or panics. \<open>Ret x\<close> is a normal return, \<open>Panic p\<close> a panic;
  the reason tells the panics of the source apart: a failed \<open>expect\<close>/\<open>unwrap\<close>, an index
  into a map with no such key, a failed assertion, an arithmetic or time overflow, a slice out of
  range, \<open>todo!()\<close>, and the executor's own aborts.
\<close>

datatype panic =
    NodeNotFound | KeyMissing | UnwrapNone | AssertFailed | Overflow | OutOfRange | Todo
  | IpConflict | NodeIpUnset | UnsupportedSocketType | ClockSpin | NonDeterminism
  | NoEvents | Deadlocked | TimeLimitExceeded | TaskPanic | NotConnectedPanic | WrongPayload
  | Poisoned | ContextMissing | CloseFailed

datatype 'a run = Ret 'a | Panic panic

datatype io_kind =
    AddrNotAvailable | AddrInUse | ConnectionRefused | ConnectionReset | NotConnected
  | BrokenPipe | WouldBlock | InvalidInput | NotFound | PermissionDenied | TimedOut
  | ConnectionAborted | Uncategorized

datatype 'a io_result = Ok 'a | Err io_kind

named_theorems run_simps \<open>rules for sequencing computations that may panic\<close>

primrec bind_run :: "'a run \<Rightarrow> ('a \<Rightarrow> 'b run) \<Rightarrow> 'b run" where
  "bind_run (Ret x) f = f x"
| "bind_run (Panic p) f = Panic p"

definition assert_run :: "bool \<Rightarrow> panic \<Rightarrow> unit run" where
  "assert_run b p = (if b then Ret () else Panic p)"

definition expect :: "panic \<Rightarrow> 'a option \<Rightarrow> 'a run" where
  "expect p x = (case x of None \<Rightarrow> Panic p | Some y \<Rightarrow> Ret y)"

lemma bind_run_eq_Ret [simp]: "bind_run m f = Ret y \<longleftrightarrow> (\<exists>x. m = Ret x \<and> f x = Ret y)"
  by (cases m) auto

lemma bind_run_eq_Panic [simp]:
  "bind_run m f = Panic p \<longleftrightarrow> m = Panic p \<or> (\<exists>x. m = Ret x \<and> f x = Panic p)"
  by (cases m) auto

lemma bind_run_Ret: "bind_run m Ret = m"
  by (cases m) simp_all

lemma bind_run_assoc: "bind_run (bind_run m f) g = bind_run m (\<lambda>x. bind_run (f x) g)"
  by (cases m) simp_all

lemma assert_run_simps [simp]:
  "assert_run True p = Ret ()"
  "assert_run False p = Panic p"
  "assert_run b p = Ret u \<longleftrightarrow> b"
  "assert_run b p = Panic q \<longleftrightarrow> \<not> b \<and> q = p"
  by (auto simp: assert_run_def)

lemma expect_simps [simp]:
  "expect p (Some x) = Ret x"
  "expect p None = Panic p"
  by (simp_all add: expect_def)

lemma expect_eq_Ret [simp]: "expect p x = Ret y \<longleftrightarrow> x = Some y"
  by (cases x) auto

lemma expect_eq_Panic [simp]: "expect p x = Panic q \<longleftrightarrow> x = None \<and> q = p"
  by (cases x) auto

lemma not_panic_iff: "(\<nexists>p. m = Panic p) \<longleftrightarrow> (\<exists>x. m = Ret x)"
  by (cases m) auto

text \<open>
  \<open>run_simps\<close>: what it takes for a branching computation to return normally, one disjunct per
  branch, so that a fact about a whole operation falls apart into its steps.
\<close>

lemma case_io_Ret [run_simps]:
  "(case r of Ok x \<Rightarrow> f x | Err e \<Rightarrow> g e) = Ret y \<longleftrightarrow>
     (\<exists>x. r = Ok x \<and> f x = Ret y) \<or> (\<exists>e. r = Err e \<and> g e = Ret y)"
  by (cases r) auto

lemma case_option_Ret [run_simps]:
  "(case r of None \<Rightarrow> m | Some x \<Rightarrow> f x) = Ret y \<longleftrightarrow>
     r = None \<and> m = Ret y \<or> (\<exists>x. r = Some x \<and> f x = Ret y)"
  by (cases r) auto

lemma case_sum_Ret [run_simps]:
  "(case r of Inl x \<Rightarrow> f x | Inr z \<Rightarrow> g z) = Ret y \<longleftrightarrow>
     (\<exists>x. r = Inl x \<and> f x = Ret y) \<or> (\<exists>z. r = Inr z \<and> g z = Ret y)"
  by (cases r) auto

lemma case_prod_Ret [run_simps]:
  "(case p of (a, b) \<Rightarrow> f a b) = Ret y \<longleftrightarrow> (\<exists>a b. p = (a, b) \<and> f a b = Ret y)"
  by (cases p) auto

lemma if_Ret [run_simps]:
  "(if b then m else n) = Ret y \<longleftrightarrow> b \<and> m = Ret y \<or> \<not> b \<and> n = Ret y"
  by auto

lemma let_Ret [run_simps]: "(let x = a in f x) = Ret y \<longleftrightarrow> f a = Ret y"
  by (simp add: Let_def)

section \<open>Identifiers\<close>

type_synonym u8 = "8 word"
type_synonym u16 = "16 word"
type_synonym u32 = "32 word"
type_synonym u64 = "64 word"

text \<open>\<open>NodeId(pub u64)\<close>; \<open>NodeId::zero()\<close> is the supervisor's node.\<close>

type_synonym node_id = u64

abbreviation node_zero :: node_id where
  "node_zero \<equiv> 0"

section \<open>Vectors\<close>

text \<open>
  \<open>Vec::swap_remove(i)\<close> takes the last element, and puts it in place of element \<open>i\<close>;
  the model returns the remaining vector (the removed element is \<open>xs ! i\<close>).
\<close>

definition swap_remove :: "nat \<Rightarrow> 'a list \<Rightarrow> 'a list" where
  "swap_remove i xs = (butlast xs)[i := last xs]"

lemma length_swap_remove [simp]: "length (swap_remove i xs) = length xs - 1"
  by (simp add: swap_remove_def)

lemma swap_remove_snoc [simp]:
  "swap_remove i (xs @ [y]) = xs[i := y]"
  by (simp add: swap_remove_def)

lemma mset_swap_remove:
  assumes "i < length xs"
  shows "add_mset (xs ! i) (mset (swap_remove i xs)) = mset xs"
proof -
  obtain ys y where xs: "xs = ys @ [y]"
    using assms by (cases xs rule: rev_cases) auto
  show ?thesis
  proof (cases "i < length ys")
    case True
    then have "add_mset (ys ! i) (mset (ys[i := y])) = add_mset y (mset ys)"
      by (simp add: mset_update)
    with True show ?thesis by (simp add: xs nth_append)
  next
    case False
    with assms have "i = length ys" by (simp add: xs)
    then show ?thesis by (simp add: xs list_update_beyond)
  qed
qed

lemma count_swap_remove:
  assumes "i < length xs"
  shows "count (mset xs) x = (if x = xs ! i then 1 else 0) + count (mset (swap_remove i xs)) x"
  by (subst mset_swap_remove [OF assms, symmetric]) simp

lemma nth_swap_remove:
  assumes "j < length xs - 1"
  shows "swap_remove i xs ! j = (if j = i then last xs else xs ! j)"
  using assms by (cases xs rule: rev_cases) (auto simp: nth_append nth_list_update)

lemma set_swap_remove: "i < length xs \<Longrightarrow> set (swap_remove i xs) \<subseteq> set xs"
  using mset_swap_remove [of i xs] by (metis set_mset_add_mset_insert set_mset_mset subset_insertI)

text \<open>
  The scan \<open>for i in (0..len).rev() { if P(v[i]) { let x = v.swap_remove(i); ... } }\<close>, from
  position \<open>i\<close> down: the removed elements in the order of their removal, and what is left.
\<close>

fun drain_rev :: "('a \<Rightarrow> bool) \<Rightarrow> nat \<Rightarrow> 'a list \<Rightarrow> 'a list \<times> 'a list" where
  "drain_rev P 0 ws = ([], ws)"
| "drain_rev P (Suc i) ws =
     (if P (ws ! i)
      then (case drain_rev P i (swap_remove i ws) of (out, rest) \<Rightarrow> (ws ! i # out, rest))
      else drain_rev P i ws)"

lemma drain_rev_split:
  assumes "i \<le> length ws" and "\<forall>j. i \<le> j \<longrightarrow> j < length ws \<longrightarrow> \<not> P (ws ! j)"
    and "drain_rev P i ws = (out, rest)"
  shows "mset out + mset rest = mset ws \<and> (\<forall>x \<in> set out. P x) \<and> (\<forall>x \<in> set rest. \<not> P x)"
  using assms
proof (induction P i ws arbitrary: out rest rule: drain_rev.induct)
  case (1 P ws)
  then show ?case by (auto simp: in_set_conv_nth)
next
  case (2 P i ws)
  show ?case
  proof (cases "P (ws ! i)")
    case False
    with 2 show ?thesis
      by (metis Suc_leD Suc_leI drain_rev.simps(2) le_neq_implies_less)
  next
    case True
    obtain out' where out: "out = ws ! i # out'"
      and rec: "drain_rev P i (swap_remove i ws) = (out', rest)"
      using "2.prems"(3) True by (auto split: prod.splits)
    have "\<not> P (swap_remove i ws ! j)" if "i \<le> j" "j < length (swap_remove i ws)" for j
    proof -
      have "i < length ws" and "ws \<noteq> []"
        using "2.prems"(1) by auto
      then have "last ws = ws ! (length ws - 1)"
        by (simp add: last_conv_nth)
      then show ?thesis
        using that \<open>i < length ws\<close> "2.prems"(2) by (cases "j = i") (auto simp: nth_swap_remove)
    qed
    with "2.IH"(1) [OF True _ _ rec] "2.prems"(1)
    have "mset out' + mset rest = mset (swap_remove i ws) \<and> (\<forall>x \<in> set out'. P x) \<and>
      (\<forall>x \<in> set rest. \<not> P x)" by simp
    then show ?thesis
      using True out mset_swap_remove [of i ws] "2.prems"(1) by auto
  qed
qed

text \<open>Run over the whole vector, the scan removes exactly the matching elements.\<close>

lemma drain_rev_all:
  assumes "drain_rev P (length ws) ws = (out, rest)"
  shows "mset out = filter_mset P (mset ws) \<and> mset rest = filter_mset (\<lambda>x. \<not> P x) (mset ws)"
proof -
  have sp: "mset out + mset rest = mset ws" "\<forall>x \<in> set out. P x" "\<forall>x \<in> set rest. \<not> P x"
    using drain_rev_split [OF _ _ assms] by auto
  have "filter_mset P (mset ws) = mset out" "filter_mset (\<lambda>x. \<not> P x) (mset ws) = mset rest"
    unfolding sp(1) [symmetric] using sp(2,3)
    by (simp_all flip: mset_filter)
  then show ?thesis by simp
qed

lemma mset_map_filter:
  "mset (List.map_filter f xs) = image_mset (\<lambda>x. the (f x)) (filter_mset (\<lambda>x. f x \<noteq> None) (mset xs))"
  by (induction xs) (auto simp: map_filter_simps split: option.splits)

section \<open>Maps\<close>

text \<open>
  Restricting a map to the keys that satisfy a predicate, used where the source collects keys
  and removes them one by one.
\<close>

definition drop_keys :: "('k \<Rightarrow> bool) \<Rightarrow> ('k \<rightharpoonup> 'v) \<Rightarrow> ('k \<rightharpoonup> 'v)" where
  "drop_keys P m = (\<lambda>k. if P k then None else m k)"

lemma drop_keys_apply [simp]: "drop_keys P m k = (if P k then None else m k)"
  by (simp add: drop_keys_def)

lemma dom_drop_keys [simp]: "dom (drop_keys P m) = {k \<in> dom m. \<not> P k}"
  by (auto simp: dom_def)

end
