(* ===== verification/Binary_Heap.thy ===== *)
theory Binary_Heap
  imports Sim_Prelude
begin

text \<open>
  \<open>std::collections::BinaryHeap\<close>, which holds the pending timer events: a vector in which
  every element is at most its parent, with \<open>push\<close> (append and sift up) and \<open>pop\<close> (take the
  last element, swap it with the root, sift the root to the bottom and then up). The order is a
  parameter \<open>le\<close>, the element type's \<open>Ord\<close>.

  The locale \<open>priority_queue\<close> is the interface the timer relies on. Its client lemmas say that
  repeated popping yields the elements in order; the heap operations interpret it for every
  total preorder.
\<close>

section \<open>The interface of a priority queue\<close>

locale priority_queue =
  fixes le :: "'a \<Rightarrow> 'a \<Rightarrow> bool"
    and wf :: "'q \<Rightarrow> bool"
    and items :: "'q \<Rightarrow> 'a multiset"
    and push :: "'a \<Rightarrow> 'q \<Rightarrow> 'q"
    and peek :: "'q \<Rightarrow> 'a option"
    and pop :: "'q \<Rightarrow> ('a \<times> 'q) option"
  assumes le_refl: "le x x"
    and le_trans: "le x y \<Longrightarrow> le y z \<Longrightarrow> le x z"
    and wf_push: "wf q \<Longrightarrow> wf (push x q)"
    and items_push: "wf q \<Longrightarrow> items (push x q) = add_mset x (items q)"
    and peek_None: "wf q \<Longrightarrow> peek q = None \<longleftrightarrow> items q = {#}"
    and peek_Some: "wf q \<Longrightarrow> peek q = Some x \<Longrightarrow> x \<in># items q \<and> (\<forall>y \<in># items q. le y x)"
    and pop_peek: "map_option fst (pop q) = peek q"
    and pop_Some: "wf q \<Longrightarrow> pop q = Some (x, q') \<Longrightarrow> wf q' \<and> items q = add_mset x (items q')"
begin

lemma pop_top:
  assumes "wf q" "pop q = Some (x, q')"
  shows "x \<in># items q" "\<And>y. y \<in># items q' \<Longrightarrow> le y x"
proof -
  have "peek q = Some x" using assms(2) pop_peek [of q] by simp
  then have "x \<in># items q \<and> (\<forall>y \<in># items q. le y x)" by (rule peek_Some [OF assms(1)])
  then show "x \<in># items q" "\<And>y. y \<in># items q' \<Longrightarrow> le y x"
    using pop_Some [OF assms] by auto
qed

lemma pop_None: "wf q \<Longrightarrow> pop q = None \<longleftrightarrow> items q = {#}"
  using pop_peek [of q] peek_None [of q] by (cases "pop q") auto

lemma pop_size: "wf q \<Longrightarrow> pop q = Some (x, q') \<Longrightarrow> size (items q') < size (items q)"
  using pop_Some by simp

lemma peek_push: "wf q \<Longrightarrow> peek (push x q) \<noteq> None"
  using peek_None [of "push x q"] wf_push items_push by simp

text \<open>Popping twice gives the elements in descending order.\<close>

lemma pop_pop_le:
  "wf q \<Longrightarrow> pop q = Some (x, q') \<Longrightarrow> pop q' = Some (y, q'') \<Longrightarrow> le y x"
  using pop_top(1) pop_top(2) pop_Some by blast

end

section \<open>The heap operations\<close>

definition parent :: "nat \<Rightarrow> nat" where
  "parent i = (i - 1) div 2"

lemma parent_less [simp]: "0 < i \<Longrightarrow> parent i < i"
  by (simp add: parent_def)

lemma parent_le [simp]: "parent i \<le> i"
  by (simp add: parent_def)

lemma parent_iff: "0 < i \<Longrightarrow> parent i = p \<longleftrightarrow> i = 2 * p + 1 \<or> i = 2 * p + 2"
  unfolding parent_def by (cases i) auto

text \<open>
  \<open>sift_up\<close> with a hole at \<open>pos\<close> that is to receive \<open>x\<close>: while \<open>x\<close> is above the parent, the
  parent moves into the hole.
\<close>

fun sift_up :: "('a \<Rightarrow> 'a \<Rightarrow> bool) \<Rightarrow> 'a list \<Rightarrow> nat \<Rightarrow> 'a \<Rightarrow> 'a list" where
  "sift_up le xs pos x =
     (if 0 < pos \<and> \<not> le x (xs ! parent pos)
      then sift_up le (xs[pos := xs ! parent pos]) (parent pos) x
      else xs[pos := x])"

declare sift_up.simps [simp del]

text \<open>
  The descent of \<open>sift_down_to_bottom\<close>: the hole at \<open>pos\<close> moves to the greater child until it
  has none; the result is the vector and the final position of the hole.
\<close>

function descend :: "('a \<Rightarrow> 'a \<Rightarrow> bool) \<Rightarrow> 'a list \<Rightarrow> nat \<Rightarrow> 'a list \<times> nat" where
  "descend le xs pos =
     (let child = 2 * pos + 1 in
      if child + 1 < length xs
      then (let c = (if le (xs ! child) (xs ! (child + 1)) then child + 1 else child)
            in descend le (xs[pos := xs ! c]) c)
      else if child + 1 = length xs then (xs[pos := xs ! child], child)
      else (xs, pos))"
  by pat_completeness auto
termination
  by (relation "measure (\<lambda>(le, xs, pos). length xs - pos)") (auto simp: Let_def)

declare descend.simps [simp del]

lemma descend_two:
  "2 * pos + 2 < length xs \<Longrightarrow>
   c = (if le (xs ! (2 * pos + 1)) (xs ! (2 * pos + 2)) then 2 * pos + 2 else 2 * pos + 1) \<Longrightarrow>
   descend le xs pos = descend le (xs[pos := xs ! c]) c"
  by (subst descend.simps) (simp add: Let_def)

lemma descend_one:
  "2 * pos + 2 = length xs \<Longrightarrow> descend le xs pos = (xs[pos := xs ! (2 * pos + 1)], 2 * pos + 1)"
  by (subst descend.simps) (simp add: Let_def)

lemma descend_leaf: "length xs \<le> 2 * pos + 1 \<Longrightarrow> descend le xs pos = (xs, pos)"
  by (subst descend.simps) (simp add: Let_def)

definition heap_push :: "('a \<Rightarrow> 'a \<Rightarrow> bool) \<Rightarrow> 'a \<Rightarrow> 'a list \<Rightarrow> 'a list" where
  "heap_push le x xs = sift_up le (xs @ [x]) (length xs) x"

definition heap_peek :: "'a list \<Rightarrow> 'a option" where
  "heap_peek xs = (case xs of [] \<Rightarrow> None | x # _ \<Rightarrow> Some x)"

definition heap_pop :: "('a \<Rightarrow> 'a \<Rightarrow> bool) \<Rightarrow> 'a list \<Rightarrow> ('a \<times> 'a list) option" where
  "heap_pop le xs =
     (case xs of
        [] \<Rightarrow> None
      | _ \<Rightarrow> (let x = last xs; ys = butlast xs in
               case ys of
                 [] \<Rightarrow> Some (x, [])
               | root # _ \<Rightarrow> (case descend le ys 0 of (zs, pos) \<Rightarrow> Some (root, sift_up le zs pos x))))"

definition is_heap :: "('a \<Rightarrow> 'a \<Rightarrow> bool) \<Rightarrow> 'a list \<Rightarrow> bool" where
  "is_heap le xs \<longleftrightarrow> (\<forall>i. 0 < i \<longrightarrow> i < length xs \<longrightarrow> le (xs ! i) (xs ! parent i))"

text \<open>
  The state of a vector with a hole at \<open>pos\<close>: the order holds everywhere away from the hole, and
  the hole's children are below the hole's parent.
\<close>

definition heap_hole :: "('a \<Rightarrow> 'a \<Rightarrow> bool) \<Rightarrow> 'a list \<Rightarrow> nat \<Rightarrow> bool" where
  "heap_hole le xs pos \<longleftrightarrow>
     pos < length xs \<and>
     (\<forall>i. 0 < i \<longrightarrow> i < length xs \<longrightarrow> i \<noteq> pos \<longrightarrow>
        (if parent i \<noteq> pos then le (xs ! i) (xs ! parent i)
         else 0 < pos \<longrightarrow> le (xs ! i) (xs ! parent pos)))"

section \<open>Correctness of the heap\<close>

lemma length_descend: "length (fst (descend le xs pos)) = length xs"
  by (induction le xs pos rule: descend.induct) (simp add: descend.simps Let_def)

lemma heap_pop_snoc:
  "heap_pop le (ys @ [x]) =
     (case ys of
        [] \<Rightarrow> Some (x, [])
      | root # _ \<Rightarrow> (case descend le ys 0 of (zs, pos) \<Rightarrow> Some (root, sift_up le zs pos x)))"
  by (cases ys) (simp_all add: heap_pop_def)

lemma length_sift_up [simp]: "length (sift_up le xs pos x) = length xs"
  by (induction le xs pos x rule: sift_up.induct) (simp add: sift_up.simps)

lemma length_heap_pop: "heap_pop le xs = Some (x, ys) \<Longrightarrow> length xs = Suc (length ys)"
  using length_descend [of le "butlast xs" 0]
  by (cases xs rule: rev_cases)
    (auto simp: heap_pop_snoc heap_pop_def [of le "[]"] split: list.splits prod.splits)

lemma mset_move:
  assumes "i < length xs" "j < length xs" "i \<noteq> j"
  shows "mset (xs[i := xs ! j, j := x]) = mset (xs[i := x])"
proof -
  let ?ys = "xs[i := x]"
  have "mset (?ys[i := ?ys ! j, j := ?ys ! i]) = mset ?ys"
    using assms by (intro mset_swap) auto
  then show ?thesis using assms by simp
qed

lemma mset_sift_up:
  "pos < length xs \<Longrightarrow> mset (sift_up le xs pos x) = mset (xs[pos := x])"
proof (induction le xs pos x rule: sift_up.induct)
  case (1 le xs pos x)
  show ?case
  proof (cases "0 < pos \<and> \<not> le x (xs ! parent pos)")
    case True
    then have p: "parent pos < pos" by simp
    with True 1 have "mset (sift_up le xs pos x) =
        mset (xs[pos := xs ! parent pos, parent pos := x])"
      by (simp add: sift_up.simps [of le xs pos x])
    also have "\<dots> = mset (xs[pos := x])"
      using p 1(2) by (intro mset_move) auto
    finally show ?thesis .
  next
    case False
    then have "sift_up le xs pos x = xs[pos := x]"
      by (subst sift_up.simps) (rule if_not_P)
    then show ?thesis by simp
  qed
qed


text \<open>The total preorders are what the heap needs of \<open>Ord\<close>.\<close>

locale heap_order =
  fixes le :: "'a \<Rightarrow> 'a \<Rightarrow> bool"
  assumes refl: "le x x"
    and trans: "le x y \<Longrightarrow> le y z \<Longrightarrow> le x z"
    and total: "\<not> le x y \<Longrightarrow> le y x"
begin

lemma is_heap_root:
  assumes "is_heap le xs" "i < length xs"
  shows "le (xs ! i) (xs ! 0)"
  using assms(2)
proof (induction i rule: less_induct)
  case (less i)
  show ?case
  proof (cases "i = 0")
    case True
    then show ?thesis by (simp add: refl)
  next
    case False
    then have "le (xs ! parent i) (xs ! 0)" using less by simp
    moreover have "le (xs ! i) (xs ! parent i)"
      using assms(1) False less.prems by (simp add: is_heap_def)
    ultimately show ?thesis using trans by blast
  qed
qed

lemma heap_holeD:
  assumes "heap_hole le xs pos" "0 < i" "i < length xs" "i \<noteq> pos"
  shows "parent i \<noteq> pos \<Longrightarrow> le (xs ! i) (xs ! parent i)"
    and "parent i = pos \<Longrightarrow> 0 < pos \<Longrightarrow> le (xs ! i) (xs ! parent pos)"
  using assms unfolding heap_hole_def by presburger+

lemma heap_hole_down:
  assumes hole: "heap_hole le xs pos" and c: "c = 2 * pos + 1 \<or> c = 2 * pos + 2"
    and len: "c < length xs"
    and sib: "\<And>d. d < length xs \<Longrightarrow> d = 2 * pos + 1 \<or> d = 2 * pos + 2 \<Longrightarrow> le (xs ! d) (xs ! c)"
  shows "heap_hole le (xs[pos := xs ! c]) c"
proof -
  have pc: "0 < c" "parent c = pos" "pos < c" using c by (auto simp: parent_iff)
  let ?ys = "xs[pos := xs ! c]"
  have up: "le (xs ! c) (xs ! parent pos)" if "0 < pos"
    using heap_holeD(2) [OF hole pc(1) len] pc that by simp
  have "if parent i \<noteq> c then le (?ys ! i) (?ys ! parent i) else le (?ys ! i) (?ys ! parent c)"
    if i: "0 < i" "i < length xs" "i \<noteq> c" for i
  proof (cases "i = pos")
    case True
    moreover from this have "parent pos < pos" using i(1) by simp
    then have "parent pos \<noteq> pos" "parent pos \<noteq> c" using pc by simp_all
    ultimately show ?thesis using up i pc by simp
  next
    case False
    show ?thesis
    proof (cases "parent i = pos")
      case True
      then have "le (xs ! i) (xs ! c)" using sib parent_iff [OF i(1)] i(2) by blast
      with True False pc i len show ?thesis by auto
    next
      case nroot: False
      then have "le (xs ! i) (xs ! parent i)" using heap_holeD(1) [OF hole i(1,2) False] by simp
      with nroot False pc i len show ?thesis by auto
    qed
  qed
  with len show ?thesis unfolding heap_hole_def by simp
qed

lemma descend_props:
  assumes "heap_hole le xs pos" "descend le xs pos = (ys, q)"
  shows "heap_hole le ys q \<and> length ys = length xs \<and> length ys \<le> 2 * q + 1 \<and>
    mset (ys[q := x]) = mset (xs[pos := x])"
  using assms
proof (induction "length xs - pos" arbitrary: xs pos rule: less_induct)
  case less
  let ?ch = "2 * pos + 1"
  have pos: "pos < length xs" using less.prems(1) by (simp add: heap_hole_def)
  have step: "heap_hole le ys q \<and> length ys = length xs \<and> length ys \<le> 2 * q + 1 \<and>
      mset (ys[q := x]) = mset (xs[pos := x])"
    if "heap_hole le zs c" "descend le zs c = (ys, q)" "zs = xs[pos := xs ! c]"
      "pos < c" "c < length xs" for zs c
  proof -
    have "length zs - c < length xs - pos" "mset (zs[c := x]) = mset (xs[pos := x])"
      using that by (auto intro: mset_move)
    moreover have "length zs = length xs" using that(3) by simp
    ultimately show ?thesis using less.hyps [of zs c] that(1,2) by simp
  qed
  consider (two) "?ch + 1 < length xs" | (one) "?ch + 1 = length xs" | (leaf) "length xs \<le> ?ch"
    by linarith
  then show ?case
  proof cases
    case two
    define c where "c = (if le (xs ! ?ch) (xs ! (?ch + 1)) then ?ch + 1 else ?ch)"
    have "le (xs ! ?ch) (xs ! c) \<and> le (xs ! (?ch + 1)) (xs ! c)"
      unfolding c_def using refl total by auto
    then have "heap_hole le (xs[pos := xs ! c]) c"
      using two by (intro heap_hole_down [OF less.prems(1)]) (auto simp: c_def)
    moreover have "descend le (xs[pos := xs ! c]) c = (ys, q)"
      using two less.prems(2) descend_two [of pos xs c le] by (auto simp: c_def split: if_splits)
    moreover have "pos < c" "c < length xs" using two by (auto simp: c_def)
    ultimately show ?thesis by (rule step [OF _ _ HOL.refl])
  next
    case one
    then have eq: "ys = xs[pos := xs ! ?ch]" "q = ?ch"
      using less.prems(2) descend_one [of pos xs le] by auto
    have "heap_hole le ys q"
      unfolding eq using one by (intro heap_hole_down [OF less.prems(1)]) (auto simp: refl)
    moreover have "mset (ys[q := x]) = mset (xs[pos := x])"
      unfolding eq using one by (intro mset_move) auto
    ultimately show ?thesis using one eq by simp
  next
    case leaf
    then have "ys = xs" "q = pos"
      using less.prems(2) descend_leaf [of xs pos le] by auto
    with leaf less.prems(1) show ?thesis by simp
  qed
qed

lemma sift_up_heap:
  assumes "heap_hole le xs pos"
    and "\<And>i. 0 < i \<Longrightarrow> i < length xs \<Longrightarrow> parent i = pos \<Longrightarrow> le (xs ! i) x"
  shows "is_heap le (sift_up le xs pos x)"
  using assms
proof (induction pos arbitrary: xs rule: less_induct)
  case (less pos)
  note hole = less.prems(1)
  have pos: "pos < length xs" using hole by (simp add: heap_hole_def)
  show ?case
  proof (cases "0 < pos \<and> \<not> le x (xs ! parent pos)")
    case True
    let ?p = "parent pos" and ?ys = "xs[pos := xs ! parent pos]"
    have p: "?p < pos" "le (xs ! ?p) x" using True total by auto
    have ord: "le (xs ! i) (xs ! ?p)" if "0 < i" "i < length xs" "i \<noteq> pos" "parent i = ?p" for i
      using heap_holeD(1) [OF hole that(1-3)] that(4) p(1) by simp
    have up: "le (xs ! ?p) (xs ! parent ?p)" if "0 < ?p"
      using heap_holeD(1) [OF hole that] p(1) pos parent_less [OF that] by simp
    have "heap_hole le ?ys ?p"
      unfolding heap_hole_def
    proof (intro conjI allI impI)
      show "?p < length ?ys" using p(1) pos by simp
      fix i assume i: "0 < i" "i < length ?ys" "i \<noteq> ?p"
      show "if parent i \<noteq> ?p then le (?ys ! i) (?ys ! parent i)
            else 0 < ?p \<longrightarrow> le (?ys ! i) (?ys ! parent ?p)"
      proof (cases "i = pos")
        case True
        moreover from p(1) have "parent ?p \<noteq> pos" using parent_le [of ?p] by linarith
        ultimately show ?thesis using up p(1) pos by auto
      next
        case False
        have "le (xs ! i) (xs ! parent ?p)" if "parent i = ?p" "0 < ?p"
          using ord [OF i(1) _ False that(1)] up [OF that(2)] i(2) trans by simp
        moreover have "le (xs ! i) (?ys ! parent i)" if "parent i \<noteq> ?p"
          using heap_holeD [OF hole i(1) _ False] i(2) True pos that
          by (cases "parent i = pos") auto
        moreover from p(1) have "parent ?p \<noteq> pos" using parent_le [of ?p] by linarith
        ultimately show ?thesis using False p(1) by auto
      qed
    qed
    moreover have "le (?ys ! i) x" if "0 < i" "i < length ?ys" "parent i = ?p" for i
      using ord [of i] that p pos trans by (cases "i = pos") auto
    ultimately have "is_heap le (sift_up le ?ys ?p x)"
      using less.IH [OF p(1)] by blast
    then show ?thesis using True by (subst sift_up.simps) simp
  next
    case False
    have "le (xs[pos := x] ! i) (xs[pos := x] ! parent i)"
      if i: "0 < i" "i < length xs" for i
    proof (cases "i = pos")
      case True
      then show ?thesis using False i parent_less [OF i(1)] by auto
    next
      case ne: False
      then show ?thesis
        using heap_holeD(1) [OF hole i ne] less.prems(2) [OF i] pos by (cases "parent i = pos") auto
    qed
    then have "is_heap le (xs[pos := x])" by (simp add: is_heap_def)
    moreover have "sift_up le xs pos x = xs[pos := x]"
      using False by (subst sift_up.simps) (rule if_not_P)
    ultimately show ?thesis by simp
  qed
qed

lemma is_heap_push: "is_heap le xs \<Longrightarrow> is_heap le (heap_push le x xs)"
  unfolding heap_push_def
proof (rule sift_up_heap)
  assume heap: "is_heap le xs"
  have "parent i < length xs" "parent i \<noteq> length xs" "le (xs ! i) (xs ! parent i)"
    if "0 < i" "i < length xs" for i
    using less_trans [OF parent_less [OF that(1)] that(2)] that heap by (auto simp: is_heap_def)
  then show "heap_hole le (xs @ [x]) (length xs)"
    by (auto simp: heap_hole_def nth_append less_Suc_eq)
  show "le ((xs @ [x]) ! i) x" if "0 < i" "i < length (xs @ [x])" "parent i = length xs" for i
    using that parent_less [OF that(1)] by simp
qed

lemma mset_heap_push: "mset (heap_push le x xs) = add_mset x (mset xs)"
  by (simp add: heap_push_def mset_sift_up)

lemma heap_pop_props:
  assumes heap: "is_heap le xs" and pop: "heap_pop le xs = Some (t, ys)"
  shows "is_heap le ys \<and> mset xs = add_mset t (mset ys)"
proof -
  obtain zs x where xs: "xs = zs @ [x]"
    using pop by (cases xs rule: rev_cases) (auto simp: heap_pop_def)
  show ?thesis
  proof (cases zs)
    case Nil
    with pop xs show ?thesis by (auto simp: heap_pop_def is_heap_def)
  next
    case (Cons r rs)
    obtain ws q where ws: "descend le zs 0 = (ws, q)" by (cases "descend le zs 0")
    have "le (zs ! i) (zs ! parent i)" if "0 < i" "i < length zs" for i
    proof -
      have "parent i < length zs" using parent_less [OF that(1)] that(2) by linarith
      then show ?thesis using heap that by (auto simp: is_heap_def xs nth_append dest!: spec [of _ i])
    qed
    then have "heap_hole le zs 0" unfolding heap_hole_def by (simp add: Cons del: nth_Cons_pos)
    note dp = descend_props [OF this ws]
    have eq: "t = r" "ys = sift_up le ws q x"
      using pop ws heap_pop_snoc [of le zs x] by (auto simp: xs Cons)
    have "is_heap le ys"
      unfolding eq using dp [of x] by (intro sift_up_heap) (auto simp: parent_iff)
    moreover have "mset ys = add_mset x (mset rs)"
    proof -
      have "q < length ws" using dp [of x] by (auto simp: heap_hole_def)
      then have "mset ys = mset (zs[0 := x])" using dp [of x] eq(2) by (simp add: mset_sift_up)
      then show ?thesis by (simp add: Cons)
    qed
    ultimately show ?thesis using eq(1) by (simp add: xs Cons)
  qed
qed

lemma heap_peek_pop: "map_option fst (heap_pop le xs) = heap_peek xs"
  by (cases xs rule: rev_cases)
    (auto simp: heap_pop_snoc heap_pop_def [of le "[]"] heap_peek_def split: list.splits prod.splits)

lemma heap_peek_greatest:
  assumes "is_heap le xs" "heap_peek xs = Some x"
  shows "x \<in># mset xs \<and> (\<forall>y \<in># mset xs. le y x)"
proof -
  obtain ys where xs: "xs = x # ys" using assms(2) by (auto simp: heap_peek_def split: list.splits)
  have "le y x" if "y \<in> set xs" for y
    using that is_heap_root [OF assms(1)] by (metis in_set_conv_nth nth_Cons_0 xs)
  then show ?thesis by (simp add: xs)
qed

end

text \<open>A heap over a total preorder is a priority queue.\<close>

sublocale heap_order \<subseteq> heap: priority_queue le "is_heap le" mset "heap_push le" heap_peek "heap_pop le"
proof unfold_locales
  show "heap_peek q = None \<longleftrightarrow> mset q = {#}" for q :: "'a list"
    by (auto simp: heap_peek_def split: list.splits)
qed (rule refl mset_heap_push heap_peek_pop | erule is_heap_push | erule (1) trans heap_peek_greatest heap_pop_props)+

lemma is_heap_Nil [simp]: "is_heap le []"
  by (simp add: is_heap_def)

end
