(* ===== verification/Timer.thy ===== *)
theory Timer
  imports Binary_Heap
begin

text \<open>
  \<open>msim/src/sim/time/timer.rs\<close>: the timer queue. An \<open>event\<close> is a deadline, the node that owns
  it and a callback that a cancellation takes out of its \<open>Cell\<close>; the queue is a binary heap whose
  order reverses the deadlines. The theory shows which callbacks \<open>expire\<close> fires and in which
  order, and that nothing fires for a node between its disabling and its next enabling.

  Times are durations in nanoseconds since the clock's base instant. A callback is a value of
  the type parameter; firing it is returning the event it came with.
\<close>

section \<open>State and operations\<close>

type_synonym duration = nat

record 'cb event =
  ev_deadline :: duration
  ev_node :: node_id
  ev_callback :: "'cb option"

text \<open>\<open>impl Ord for Event\<close>: the comparison is reversed, so that the heap's top is the earliest.\<close>

definition ev_le :: "'cb event \<Rightarrow> 'cb event \<Rightarrow> bool" where
  "ev_le a b \<longleftrightarrow> ev_deadline b \<le> ev_deadline a"

record 'cb timer =
  disabled_node_ids :: "node_id set"
  events :: "'cb event list"

definition timer_default :: "'cb timer" where
  "timer_default = \<lparr>disabled_node_ids = {}, events = []\<rparr>"

definition timer_add :: "node_id \<Rightarrow> duration \<Rightarrow> 'cb \<Rightarrow> 'cb timer \<Rightarrow> 'cb timer" where
  "timer_add n d cb t =
     (if n \<in> disabled_node_ids t then t
      else t\<lparr>events := heap_push ev_le
               \<lparr>ev_deadline = d, ev_node = n, ev_callback = Some cb\<rparr> (events t)\<rparr>)"

text \<open>
  The loop of \<open>expire\<close>: the events it fires, in order, and the heap it leaves. A popped event
  whose callback was taken by a cancellation fires nothing.
\<close>

function expire_events :: "duration \<Rightarrow> 'cb event list \<Rightarrow> 'cb event list \<times> 'cb event list" where
  "expire_events now h =
     (case heap_peek h of
        None \<Rightarrow> ([], h)
      | Some t \<Rightarrow>
          if now < ev_deadline t then ([], h)
          else (case heap_pop ev_le h of
                  None \<Rightarrow> ([], h)
                | Some (e, h') \<Rightarrow>
                    (case expire_events now h' of
                       (fs, rest) \<Rightarrow> (case ev_callback e of None \<Rightarrow> fs | Some cb \<Rightarrow> e # fs, rest))))"
  by pat_completeness auto
termination
  by (relation "measure (\<lambda>(now, h). length h)") (auto dest!: length_heap_pop)

declare expire_events.simps [simp del]

definition timer_expire :: "duration \<Rightarrow> 'cb timer \<Rightarrow> 'cb event list \<times> 'cb timer" where
  "timer_expire now t =
     (case expire_events now (events t) of (fs, h) \<Rightarrow> (fs, t\<lparr>events := h\<rparr>))"

text \<open>
  \<open>disable_node_and_remove_events\<close>: the callbacks it returns are those of the node's pending
  events in the heap's internal order; the events stay in the heap without their callback.
\<close>

definition timer_disable :: "node_id \<Rightarrow> 'cb timer \<Rightarrow> 'cb list \<times> 'cb timer" where
  "timer_disable n t =
     (if n \<in> disabled_node_ids t then ([], t)
      else (List.map_filter (\<lambda>e. if ev_node e = n then ev_callback e else None) (events t),
            t\<lparr>disabled_node_ids := insert n (disabled_node_ids t),
              events := map (\<lambda>e. if ev_node e = n then e\<lparr>ev_callback := None\<rparr> else e)
                          (events t)\<rparr>))"

definition timer_enable :: "node_id \<Rightarrow> 'cb timer \<Rightarrow> 'cb timer run" where
  "timer_enable n t =
     (if n \<in> disabled_node_ids t
      then Ret (t\<lparr>disabled_node_ids := disabled_node_ids t - {n}\<rparr>)
      else Panic AssertFailed)"

definition timer_next :: "'cb timer \<Rightarrow> duration option" where
  "timer_next t = map_option ev_deadline (heap_peek (events t))"

section \<open>The event heap is a priority queue\<close>

interpretation evo: heap_order ev_le
  by unfold_locales (auto simp: ev_le_def)

lemma is_heap_map:
  "(\<And>e. ev_deadline (f e) = ev_deadline e) \<Longrightarrow> is_heap ev_le h \<Longrightarrow> is_heap ev_le (map f h)"
  using parent_le le_less_trans unfolding is_heap_def ev_le_def by (metis length_map nth_map)

lemma expire_events_spec:
  assumes "is_heap ev_le h" "expire_events now h = (fs, rest)"
  shows "is_heap ev_le rest \<and>
    mset fs = {#e \<in># mset h. ev_deadline e \<le> now \<and> ev_callback e \<noteq> None#} \<and>
    mset rest = {#e \<in># mset h. now < ev_deadline e#} \<and>
    sorted (map ev_deadline fs)"
  using assms
proof (induction now h arbitrary: fs rest rule: expire_events.induct)
  case (1 now h)
  note unf = "1.prems"(2) [unfolded expire_events.simps [of now h]]
  show ?case
  proof (cases "heap_peek h")
    case None
    then have "h = []" using evo.heap.peek_None [OF "1.prems"(1)] by simp
    with None unf show ?thesis by simp
  next
    case (Some t)
    note top = evo.heap.peek_Some [OF "1.prems"(1) Some]
    show ?thesis
    proof (cases "now < ev_deadline t")
      case True
      then have "now < ev_deadline e" if "e \<in> set h" for e
        using top that by (fastforce simp: ev_le_def)
      then have "filter_mset (\<lambda>e. now < ev_deadline e) (mset h) = mset h"
        "filter_mset (\<lambda>e. ev_deadline e \<le> now \<and> ev_callback e \<noteq> None) (mset h) = {#}"
        by (fastforce simp: filter_mset_eq_conv)+
      with Some True unf "1.prems"(1) show ?thesis by auto
    next
      case due: False
      obtain h' where pop: "heap_pop ev_le h = Some (t, h')"
        using evo.heap.pop_peek [of h] Some by (cases "heap_pop ev_le h") auto
      obtain fs' where fs': "expire_events now h' = (fs', rest)"
        and fs: "fs = (case ev_callback t of None \<Rightarrow> fs' | Some cb \<Rightarrow> t # fs')"
        using unf Some due pop by (auto split: prod.splits)
      note h' = evo.heap.pop_Some [OF "1.prems"(1) pop]
      have IH: "is_heap ev_le rest \<and>
          mset fs' = {#e \<in># mset h'. ev_deadline e \<le> now \<and> ev_callback e \<noteq> None#} \<and>
          mset rest = {#e \<in># mset h'. now < ev_deadline e#} \<and> sorted (map ev_deadline fs')"
        using "1.IH" [OF Some due pop _ _ fs'] h' by simp
      have "ev_deadline t \<le> ev_deadline e" if "e \<in> set fs'" for e
      proof -
        have "e \<in># mset fs'" using that by simp
        then have "e \<in># mset h'" using IH by simp
        then show ?thesis using evo.heap.pop_top(2) [OF "1.prems"(1) pop] by (simp add: ev_le_def)
      qed
      with IH h' due show ?thesis by (auto simp: fs split: option.splits)
    qed
  qed
qed


section \<open>Runs of the queue\<close>

text \<open>
  The calls the rest of the simulator makes on the queue, one step each. A step gives the events
  it fired and the callbacks it dropped without calling them: those of a refused \<open>add\<close> and
  those a cancellation returned.
\<close>

datatype 'cb timer_op =
    TAdd node_id duration 'cb | TExpire duration | TDisable node_id | TEnable node_id

fun timer_step :: "'cb timer_op \<Rightarrow> 'cb timer \<Rightarrow> ('cb event list \<times> 'cb list \<times> 'cb timer) run" where
  "timer_step (TAdd n d cb) t =
     Ret ([], if n \<in> disabled_node_ids t then [cb] else [], timer_add n d cb t)"
| "timer_step (TExpire now) t = (case timer_expire now t of (fs, t') \<Rightarrow> Ret (fs, [], t'))"
| "timer_step (TDisable n) t = (case timer_disable n t of (cbs, t') \<Rightarrow> Ret ([], cbs, t'))"
| "timer_step (TEnable n) t = bind_run (timer_enable n t) (\<lambda>t'. Ret ([], [], t'))"

fun timer_run :: "'cb timer_op list \<Rightarrow> 'cb timer \<Rightarrow> ('cb event list \<times> 'cb list \<times> 'cb timer) run" where
  "timer_run [] t = Ret ([], [], t)"
| "timer_run (op # ops) t =
     bind_run (timer_step op t) (\<lambda>(fs, ds, t').
       bind_run (timer_run ops t') (\<lambda>(fs', ds', t''). Ret (fs @ fs', ds @ ds', t'')))"

text \<open>
  The invariant: the vector is a heap, and no event of a disabled node has a callback.
\<close>

definition timer_wf :: "'cb timer \<Rightarrow> bool" where
  "timer_wf t \<longleftrightarrow> is_heap ev_le (events t) \<and>
     (\<forall>e \<in> set (events t). ev_node e \<in> disabled_node_ids t \<longrightarrow> ev_callback e = None)"

definition silent_for :: "node_id \<Rightarrow> 'cb timer \<Rightarrow> bool" where
  "silent_for n t \<longleftrightarrow> (\<forall>e \<in> set (events t). ev_node e = n \<longrightarrow> ev_callback e = None)"

definition live_callbacks :: "'cb timer \<Rightarrow> 'cb multiset" where
  "live_callbacks t = mset (List.map_filter ev_callback (events t))"

definition added_callbacks :: "'cb timer_op list \<Rightarrow> 'cb multiset" where
  "added_callbacks ops =
     mset (List.map_filter (\<lambda>op. case op of TAdd n d cb \<Rightarrow> Some cb | _ \<Rightarrow> None) ops)"

named_theorems timer_defs \<open>the operations of the timer queue\<close>

lemmas timer_op_defs [timer_defs] =
  timer_add_def timer_expire_def timer_disable_def timer_enable_def timer_next_def

lemma set_heap_push [simp]: "set (heap_push ev_le x xs) = insert x (set xs)"
  by (metis evo.mset_heap_push set_mset_add_mset_insert set_mset_mset)

lemma set_expire_events:
  assumes "is_heap ev_le h" "expire_events now h = (fs, rest)"
  shows "set fs = {e \<in> set h. ev_deadline e \<le> now \<and> ev_callback e \<noteq> None}"
    and "set rest = {e \<in> set h. now < ev_deadline e}"
proof -
  note sp = expire_events_spec [OF assms]
  have "set_mset (mset fs) = {e \<in> set h. ev_deadline e \<le> now \<and> ev_callback e \<noteq> None}"
    and "set_mset (mset rest) = {e \<in> set h. now < ev_deadline e}"
    using sp by (simp_all only: set_mset_filter set_mset_mset)
  then show "set fs = {e \<in> set h. ev_deadline e \<le> now \<and> ev_callback e \<noteq> None}"
    and "set rest = {e \<in> set h. now < ev_deadline e}" by simp_all
qed

lemma timer_step_wf:
  assumes "timer_wf t" "timer_step op t = Ret (fs, ds, t')"
  shows "timer_wf t'"
proof (cases op)
  case (TAdd n d cb)
  with assms show ?thesis
    by (cases "n \<in> disabled_node_ids t") (auto simp: timer_wf_def timer_add_def evo.is_heap_push)
next
  case (TExpire now)
  obtain rest where "expire_events now (events t) = (fs, rest)" "t' = t\<lparr>events := rest\<rparr>"
    using assms(2) TExpire by (auto simp: timer_expire_def split: prod.splits)
  then show ?thesis
    using assms(1) expire_events_spec [of "events t" now] set_expire_events [of "events t" now]
    by (auto simp: timer_wf_def)
next
  case (TDisable n)
  with assms show ?thesis by (auto simp: timer_wf_def timer_disable_def is_heap_map split: if_splits)
next
  case (TEnable n)
  with assms show ?thesis by (auto simp: timer_wf_def timer_enable_def split: if_splits)
qed

lemma timer_run_wf: "timer_wf t \<Longrightarrow> timer_run ops t = Ret (fs, ds, t') \<Longrightarrow> timer_wf t'"
proof (induction ops arbitrary: t fs ds)
  case (Cons op ops)
  then show ?case by (auto split: prod.splits dest: timer_step_wf)
qed simp

lemma timer_wf_default [simp]: "timer_wf timer_default"
  by (simp add: timer_wf_def timer_default_def)

lemma timer_step_silent:
  assumes "timer_wf t" "silent_for n t" "timer_step op t = Ret (fs, ds, t')"
    and "n \<in> disabled_node_ids t \<or> (\<nexists>d cb. op = TAdd n d cb)"
  shows "silent_for n t' \<and> (\<forall>e \<in> set fs. ev_node e \<noteq> n) \<and>
    (n \<in> disabled_node_ids t \<longrightarrow> op = TEnable n \<or> n \<in> disabled_node_ids t')"
proof (cases op)
  case (TAdd m d cb)
  with assms show ?thesis
    by (cases "m \<in> disabled_node_ids t") (auto simp: silent_for_def timer_add_def)
next
  case (TExpire now)
  obtain rest where "expire_events now (events t) = (fs, rest)" "t' = t\<lparr>events := rest\<rparr>"
    using assms(3) TExpire by (auto simp: timer_expire_def split: prod.splits)
  then show ?thesis
    using assms(1,2) set_expire_events [of "events t" now] by (auto simp: timer_wf_def silent_for_def)
next
  case (TDisable m)
  with assms show ?thesis by (auto simp: silent_for_def timer_disable_def split: if_splits)
next
  case (TEnable m)
  with assms show ?thesis by (auto simp: silent_for_def timer_enable_def split: if_splits)
qed

lemma timer_run_silent_disabled:
  "timer_wf t \<Longrightarrow> silent_for n t \<Longrightarrow> n \<in> disabled_node_ids t \<Longrightarrow> TEnable n \<notin> set ops \<Longrightarrow>
   timer_run ops t = Ret (fs, ds, t') \<Longrightarrow>
   silent_for n t' \<and> n \<in> disabled_node_ids t' \<and> (\<forall>e \<in> set fs. ev_node e \<noteq> n)"
proof (induction ops arbitrary: t fs ds)
  case (Cons op ops)
  from Cons.prems(5) obtain fs1 ds1 t1 fs2 ds2 where
    step: "timer_step op t = Ret (fs1, ds1, t1)" and run: "timer_run ops t1 = Ret (fs2, ds2, t')"
    and fs: "fs = fs1 @ fs2" by (auto split: prod.splits)
  show ?case
    using timer_step_silent [OF Cons.prems(1,2) step] Cons.prems(3,4)
      Cons.IH [OF timer_step_wf [OF Cons.prems(1) step] _ _ _ run] by (auto simp: fs)
qed simp

lemma timer_run_silent_fresh:
  "timer_wf t \<Longrightarrow> silent_for n t \<Longrightarrow> \<forall>d cb. TAdd n d cb \<notin> set ops \<Longrightarrow>
   timer_run ops t = Ret (fs, ds, t') \<Longrightarrow> silent_for n t' \<and> (\<forall>e \<in> set fs. ev_node e \<noteq> n)"
proof (induction ops arbitrary: t fs ds)
  case (Cons op ops)
  from Cons.prems(4) obtain fs1 ds1 t1 fs2 ds2 where
    step: "timer_step op t = Ret (fs1, ds1, t1)" and run: "timer_run ops t1 = Ret (fs2, ds2, t')"
    and fs: "fs = fs1 @ fs2" by (auto split: prod.splits)
  have op: "\<nexists>d cb. op = TAdd n d cb" and rest: "\<forall>d cb. TAdd n d cb \<notin> set ops"
    using Cons.prems(3) by auto
  show ?case
    using timer_step_silent [OF Cons.prems(1,2) step] op
      Cons.IH [OF timer_step_wf [OF Cons.prems(1) step] _ rest run] by (auto simp: fs)
qed simp

lemma timer_run_append:
  "timer_run (xs @ ys) t = bind_run (timer_run xs t) (\<lambda>(fs, ds, t').
     bind_run (timer_run ys t') (\<lambda>(fs', ds', t''). Ret (fs @ fs', ds @ ds', t'')))"
proof (induction xs arbitrary: t)
  case Nil
  show ?case by (simp add: split_def bind_run_Ret)
next
  case (Cons x xs)
  show ?case by (simp add: Cons.IH bind_run_assoc split_def)
qed

lemma silent_disable:
  assumes "timer_wf t" "timer_disable n t = (cbs, t')"
  shows "silent_for n t'" and "n \<in> disabled_node_ids t'"
proof -
  show "n \<in> disabled_node_ids t'"
    using assms(2) by (auto simp: timer_disable_def split: if_splits)
  show "silent_for n t'"
  proof (cases "n \<in> disabled_node_ids t")
    case True
    then have "t' = t" using assms(2) by (simp add: timer_disable_def)
    with True assms(1) show ?thesis unfolding silent_for_def timer_wf_def by blast
  next
    case False
    then have "set (events t') =
        (\<lambda>e. if ev_node e = n then e\<lparr>ev_callback := None\<rparr> else e) ` set (events t)"
      using assms(2) by (auto simp: timer_disable_def)
    then show ?thesis
      unfolding silent_for_def by (simp only: ball_simps if_split split: if_split) simp
  qed
qed

lemma live_expire:
  assumes "is_heap ev_le (events t)" "timer_expire now t = (fs, t')"
  shows "image_mset (\<lambda>e. the (ev_callback e)) (mset fs) + live_callbacks t' = live_callbacks t"
proof -
  obtain rest where ex: "expire_events now (events t) = (fs, rest)" and t': "t' = t\<lparr>events := rest\<rparr>"
    using assms(2) by (auto simp: timer_expire_def split: prod.splits)
  note sp = expire_events_spec [OF assms(1) ex]
  have "filter_mset (\<lambda>e. ev_callback e \<noteq> None) (mset (events t)) =
      filter_mset (\<lambda>e. ev_callback e \<noteq> None) (mset rest) + mset fs"
    using sp by (simp add: multiset_eq_iff)
  then show ?thesis by (simp add: live_callbacks_def mset_map_filter t' add.commute)
qed

lemma live_disable:
  assumes "timer_disable n t = (cbs, t')"
  shows "mset cbs + live_callbacks t' = live_callbacks t"
proof -
  have "mset (List.map_filter (\<lambda>e. if ev_node e = n then ev_callback e else None) es) +
      mset (List.map_filter ev_callback
        (map (\<lambda>e. if ev_node e = n then e\<lparr>ev_callback := None\<rparr> else e) es)) =
      mset (List.map_filter ev_callback es)" for es :: "'a event list"
    by (induction es) (auto simp: map_filter_simps split: option.splits)
  then show ?thesis using assms by (auto simp: timer_disable_def live_callbacks_def split: if_splits)
qed

lemma live_step:
  assumes "timer_wf t" "timer_step op t = Ret (fs, ds, t')"
  shows "image_mset (\<lambda>e. the (ev_callback e)) (mset fs) + mset ds + live_callbacks t' =
    live_callbacks t + added_callbacks [op]"
proof (cases op)
  case (TAdd n d cb)
  with assms show ?thesis
    by (auto simp: live_callbacks_def timer_add_def added_callbacks_def mset_map_filter
        evo.mset_heap_push map_filter_simps)
next
  case (TExpire now)
  with assms live_expire [of t now fs t'] show ?thesis
    by (auto simp: timer_wf_def added_callbacks_def map_filter_simps split: prod.splits)
next
  case (TDisable n)
  with assms live_disable [of n t ds t'] show ?thesis
    by (auto simp: added_callbacks_def map_filter_simps split: prod.splits)
next
  case (TEnable n)
  with assms show ?thesis
    by (auto simp: timer_enable_def live_callbacks_def added_callbacks_def map_filter_simps split: if_splits)
qed

lemma live_run:
  "timer_wf t \<Longrightarrow> timer_run ops t = Ret (fs, ds, t') \<Longrightarrow>
   image_mset (\<lambda>e. the (ev_callback e)) (mset fs) + mset ds + live_callbacks t' =
     live_callbacks t + added_callbacks ops"
proof (induction ops arbitrary: t fs ds)
  case Nil
  then show ?case by (simp add: added_callbacks_def map_filter_simps)
next
  case (Cons op ops)
  from Cons.prems(2) obtain fs1 ds1 t1 fs2 ds2 where
    step: "timer_step op t = Ret (fs1, ds1, t1)" and run: "timer_run ops t1 = Ret (fs2, ds2, t')"
    and eqs: "fs = fs1 @ fs2" "ds = ds1 @ ds2" by (auto split: prod.splits)
  have "added_callbacks (op # ops) = added_callbacks [op] + added_callbacks ops"
    by (auto simp: added_callbacks_def map_filter_simps split: option.splits)
  with live_step [OF Cons.prems(1) step] Cons.IH [OF timer_step_wf [OF Cons.prems(1) step] run]
  show ?case by (simp add: eqs ac_simps) (metis (no_types, lifting) add.assoc add.commute)
qed

section \<open>Properties\<close>

text \<open>C4: \<open>expire(now)\<close> fires exactly the pending events that are due and not cancelled, earliest
  deadline first, and leaves exactly those whose deadline is later than \<open>now\<close>.\<close>

theorem timer_expire_exact:
  assumes "timer_wf t" "timer_expire now t = (fs, t')"
  shows "mset fs = {#e \<in># mset (events t). ev_deadline e \<le> now \<and> ev_callback e \<noteq> None#} \<and>
    sorted (map ev_deadline fs) \<and>
    mset (events t') = {#e \<in># mset (events t). now < ev_deadline e#} \<and>
    disabled_node_ids t' = disabled_node_ids t \<and> timer_wf t'"
proof -
  obtain rest where ex: "expire_events now (events t) = (fs, rest)" and t': "t' = t\<lparr>events := rest\<rparr>"
    using assms(2) by (auto simp: timer_expire_def split: prod.splits)
  have "timer_step (TExpire now) t = Ret (fs, [], t')" using assms(2) by simp
  from timer_step_wf [OF assms(1) this] show ?thesis
    using expire_events_spec [OF _ ex] assms(1) by (simp add: timer_wf_def t')
qed

definition demo_timer :: "nat timer" where
  "demo_timer = timer_add 2 5 20 (timer_add 1 9 10 (timer_add 2 7 30 timer_default))"

lemma demo_timer_eq:
  "demo_timer = \<lparr>disabled_node_ids = {}, events =
     [\<lparr>ev_deadline = 5, ev_node = 2, ev_callback = Some 20\<rparr>,
      \<lparr>ev_deadline = 9, ev_node = 1, ev_callback = Some 10\<rparr>,
      \<lparr>ev_deadline = 7, ev_node = 2, ev_callback = Some 30\<rparr>]\<rparr>"
  by (simp add: demo_timer_def timer_add_def timer_default_def heap_push_def sift_up.simps
      parent_def ev_le_def)

lemma demo_timer_wf: "timer_wf demo_timer"
  by (auto simp: demo_timer_eq timer_wf_def is_heap_def parent_def ev_le_def nth_Cons' less_Suc_eq)

theorem timer_expire_exact_witness:
  "mset (fst (timer_expire 8 demo_timer)) =
     {#e \<in># mset (events demo_timer). ev_deadline e \<le> 8 \<and> ev_callback e \<noteq> None#} \<and>
   size (mset (fst (timer_expire 8 demo_timer))) = 2"
  using timer_expire_exact [OF demo_timer_wf, of 8 "fst (timer_expire 8 demo_timer)"
      "snd (timer_expire 8 demo_timer)"]
  by (simp add: demo_timer_eq)

text \<open>C8: once a node is disabled, no callback it owned ever fires, whatever the queue does
  afterwards: until the node is enabled again nothing of the node fires at all, and after that only
  events added after the enabling can.\<close>

theorem disabled_node_never_fires:
  assumes "timer_wf t" "TEnable n \<notin> set ops" "\<forall>d cb. TAdd n d cb \<notin> set ops'"
    and "timer_run (TDisable n # ops @ TEnable n # ops') t = Ret (fs, ds, t')"
  shows "n \<notin> ev_node ` set fs"
proof -
  obtain cbs t1 where dis: "timer_disable n t = (cbs, t1)" by (cases "timer_disable n t")
  from assms(4) dis obtain fs1 ds1 t2 fs2 ds2 t3 where
    run1: "timer_run ops t1 = Ret (fs1, ds1, t2)"
    and en: "timer_step (TEnable n) t2 = Ret ([], [], t3)"
    and run2: "timer_run ops' t3 = Ret (fs2, ds2, t')" and fs: "fs = fs1 @ fs2"
    by (auto simp: timer_run_append split: prod.splits)
  have wf1: "timer_wf t1" using timer_step_wf [OF assms(1), of "TDisable n"] dis by simp
  note sil1 = timer_run_silent_disabled [OF wf1 silent_disable [OF assms(1) dis] assms(2) run1]
  note wf2 = timer_run_wf [OF wf1 run1]
  have sil3: "silent_for n t3" using timer_step_silent [OF wf2 _ en] sil1 by simp
  show ?thesis
    using sil1 timer_run_silent_fresh [OF timer_step_wf [OF wf2 en] sil3 assms(3) run2]
    by (auto simp: fs)
qed

lemma timer_run_demo:
  "\<exists>fs ds t'. timer_run [TDisable 2, TAdd 2 1 40, TExpire 8, TEnable 2, TExpire 9] demo_timer =
     Ret (fs, ds, t')"
  by (simp add: demo_timer_eq timer_defs split_def)

theorem disabled_node_never_fires_witness:
  "\<exists>fs ds t'. timer_run [TDisable 2, TAdd 2 1 40, TExpire 8, TEnable 2, TExpire 9] demo_timer =
     Ret (fs, ds, t') \<and> 2 \<notin> ev_node ` set fs"
  using timer_run_demo
    disabled_node_never_fires [OF demo_timer_wf, of 2 "[TAdd 2 1 40, TExpire 8]" "[TExpire 9]"]
  by fastforce

text \<open>C36: no callback is lost or called twice: over any run from the empty queue, the callbacks
  that fired, those dropped uncalled and those still pending are together exactly the callbacks
  that were added; and the run keeps the queue's invariant.\<close>

theorem timer_conserves_callbacks:
  assumes "timer_run ops timer_default = Ret (fs, ds, t')"
  shows "image_mset (\<lambda>e. the (ev_callback e)) (mset fs) + mset ds + live_callbacks t' =
    added_callbacks ops \<and> timer_wf t'"
  using live_run [OF timer_wf_default assms] timer_run_wf [OF timer_wf_default assms]
  by (simp add: live_callbacks_def timer_default_def map_filter_simps)

theorem timer_conserves_callbacks_witness:
  "\<exists>fs ds t'. timer_run [TAdd 1 4 (7::nat), TDisable 1] timer_default = Ret (fs, ds, t') \<and>
     image_mset (\<lambda>e. the (ev_callback e)) (mset fs) + mset ds + live_callbacks t' = {#7#}"
  using timer_conserves_callbacks [of "[TAdd 1 4 (7::nat), TDisable 1]"]
  by (fastforce simp: split_def added_callbacks_def map_filter_simps)

text \<open>\<open>next\<close> is the earliest deadline among the pending events, \<open>None\<close> only when there
  are none.\<close>

theorem timer_next_earliest:
  assumes "timer_wf t"
  shows "(timer_next t = None \<longleftrightarrow> events t = []) \<and>
    (\<forall>d. timer_next t = Some d \<longrightarrow> d \<in> ev_deadline ` set (events t) \<and>
       (\<forall>e \<in> set (events t). d \<le> ev_deadline e))"
proof -
  have heap: "is_heap ev_le (events t)" using assms by (simp add: timer_wf_def)
  show ?thesis
    using evo.heap.peek_None [OF heap] evo.heap.peek_Some [OF heap]
    by (auto simp: timer_next_def ev_le_def)
qed

theorem timer_next_earliest_witness:
  "timer_next demo_timer = Some 5 \<and> 5 \<in> ev_deadline ` set (events demo_timer)"
  using timer_next_earliest [OF demo_timer_wf]
  by (simp add: timer_next_def demo_timer_eq heap_peek_def)

end
