(* ===== verification/Virtual_Time.thy ===== *)
theory Virtual_Time
  imports Timer
begin

text \<open>
  \<open>msim/src/sim/time/mod.rs\<close>, \<open>instant.rs\<close>, \<open>sleep.rs\<close>, \<open>error.rs\<close>: the virtual clock, the
  jump to the next timer event, \<open>Sleep\<close> and \<open>Timeout\<close>, and the intercepted libc clocks.

  A \<open>Duration\<close> is a number of nanoseconds up to \<open>dur_max\<close> (\<open>u64\<close> seconds and less than a
  second); an \<open>Instant\<close> or \<open>SystemTime\<close> is a signed number of nanoseconds whose seconds fit an
  \<open>i64\<close>, as on Linux. Additions that leave these ranges panic, as in the standard library;
  the difference of two instants saturates at zero. Integer arithmetic is that of a debug
  build: an overflow panics.
\<close>

section \<open>Durations and instants\<close>

abbreviation "nanos_per_sec \<equiv> 1000000000 :: nat"

definition dur_max :: duration where
  "dur_max = 2 ^ 64 * nanos_per_sec - 1"

definition dur_add :: "duration \<Rightarrow> duration \<Rightarrow> duration run" where
  "dur_add a b = (if a + b \<le> dur_max then Ret (a + b) else Panic Overflow)"

definition dur_sub :: "duration \<Rightarrow> duration \<Rightarrow> duration run" where
  "dur_sub a b = (if b \<le> a then Ret (a - b) else Panic Overflow)"

abbreviation dur_secs :: "nat \<Rightarrow> duration" where
  "dur_secs s \<equiv> s * nanos_per_sec"

type_synonym instant = int
type_synonym system_time = int

definition instant_ok :: "int \<Rightarrow> bool" where
  "instant_ok i \<longleftrightarrow> - (2 ^ 63) * 1000000000 \<le> i \<and> i < 2 ^ 63 * 1000000000"

definition instant_checked_add :: "instant \<Rightarrow> duration \<Rightarrow> instant option" where
  "instant_checked_add i d = (if instant_ok (i + int d) then Some (i + int d) else None)"

definition instant_checked_sub :: "instant \<Rightarrow> duration \<Rightarrow> instant option" where
  "instant_checked_sub i d = (if instant_ok (i - int d) then Some (i - int d) else None)"

definition instant_add :: "instant \<Rightarrow> duration \<Rightarrow> instant run" where
  "instant_add i d = expect Overflow (instant_checked_add i d)"

definition instant_sub :: "instant \<Rightarrow> duration \<Rightarrow> instant run" where
  "instant_sub i d = expect Overflow (instant_checked_sub i d)"

definition instant_checked_duration_since :: "instant \<Rightarrow> instant \<Rightarrow> duration option" where
  "instant_checked_duration_since a earlier =
     (if earlier \<le> a then Some (nat (a - earlier)) else None)"

definition instant_saturating_duration_since :: "instant \<Rightarrow> instant \<Rightarrow> duration" where
  "instant_saturating_duration_since a earlier =
     (case instant_checked_duration_since a earlier of Some d \<Rightarrow> d | None \<Rightarrow> 0)"

text \<open>\<open>std::time::Instant::duration_since\<close> saturates too, and so does the subtraction.\<close>

definition instant_duration_since :: "instant \<Rightarrow> instant \<Rightarrow> duration" where
  "instant_duration_since a earlier = instant_saturating_duration_since a earlier"

definition instant_diff :: "instant \<Rightarrow> instant \<Rightarrow> duration" where
  "instant_diff a b = instant_duration_since a b"

named_theorems instant_simps \<open>arithmetic of instants\<close>

lemmas instant_defs [instant_simps] =
  instant_checked_add_def instant_checked_sub_def instant_add_def instant_sub_def
  instant_checked_duration_since_def instant_saturating_duration_since_def
  instant_duration_since_def instant_diff_def

lemma instant_diff_nat: "instant_diff a b = nat (a - b)"
  by (simp add: instant_simps)

section \<open>The clock\<close>

record clock =
  base_time :: system_time
  base_instant :: instant
  elapsed_time :: duration
  abort_counter :: u32

definition ABORT_COUNTER_START :: u32 where
  "ABORT_COUNTER_START = 100000000"

definition CLOCK_BASE :: duration where
  "CLOCK_BASE = dur_secs 86400"

definition clock_new :: "system_time \<Rightarrow> clock" where
  "clock_new bt =
     \<lparr>base_time = bt, base_instant = 0, elapsed_time = CLOCK_BASE,
      abort_counter = ABORT_COUNTER_START\<rparr>"

definition check_abort :: "clock \<Rightarrow> clock run" where
  "check_abort c =
     (if abort_counter c = 0 then Panic Overflow
      else if abort_counter c - 1 = 0 then Panic ClockSpin
      else Ret (c\<lparr>abort_counter := abort_counter c - 1\<rparr>))"

definition reset_abort_counter :: "clock \<Rightarrow> clock" where
  "reset_abort_counter c = c\<lparr>abort_counter := ABORT_COUNTER_START\<rparr>"

definition clock_set_elapsed :: "duration \<Rightarrow> clock \<Rightarrow> clock" where
  "clock_set_elapsed d c = reset_abort_counter (c\<lparr>elapsed_time := max (elapsed_time c) d\<rparr>)"

definition clock_elapsed :: "clock \<Rightarrow> (duration \<times> clock) run" where
  "clock_elapsed c = bind_run (check_abort c) (\<lambda>c. Ret (elapsed_time c, c))"

definition clock_time_since_base :: "clock \<Rightarrow> (duration \<times> clock) run" where
  "clock_time_since_base c =
     bind_run (clock_elapsed c) (\<lambda>(d, c). bind_run (dur_sub d CLOCK_BASE) (\<lambda>r. Ret (r, c)))"

definition clock_advance :: "duration \<Rightarrow> clock \<Rightarrow> clock run" where
  "clock_advance d c =
     (let c = reset_abort_counter c
      in bind_run (dur_add (elapsed_time c) d) (\<lambda>e. Ret (c\<lparr>elapsed_time := e\<rparr>)))"

definition clock_now_instant :: "clock \<Rightarrow> (instant \<times> clock) run" where
  "clock_now_instant c =
     bind_run (check_abort c) (\<lambda>c.
     bind_run (instant_add (base_instant c) (elapsed_time c)) (\<lambda>i. Ret (i, c)))"

definition clock_now_time :: "clock \<Rightarrow> (system_time \<times> clock) run" where
  "clock_now_time c =
     bind_run (check_abort c) (\<lambda>c.
     bind_run (instant_add (base_time c) (elapsed_time c)) (\<lambda>t. Ret (t, c)))"

section \<open>The time runtime\<close>

text \<open>\<open>TimeHandle\<close>: the shared timer queue and clock.\<close>

record 'cb time_state =
  th_timer :: "'cb timer"
  th_clock :: clock

text \<open>\<open>str::parse::<u64>\<close>: an optional plus sign, then one or more digits, within range.\<close>

definition digit_val :: "char \<Rightarrow> nat option" where
  "digit_val c = (let n = of_char c :: nat in if 48 \<le> n \<and> n \<le> 57 then Some (n - 48) else None)"

fun parse_digits :: "nat \<Rightarrow> string \<Rightarrow> nat option" where
  "parse_digits acc [] = Some acc"
| "parse_digits acc (c # cs) =
     (case digit_val c of
        None \<Rightarrow> None
      | Some d \<Rightarrow> if acc * 10 + d < 2 ^ 64 then parse_digits (acc * 10 + d) cs else None)"

definition parse_u64 :: "string \<Rightarrow> nat option" where
  "parse_u64 s =
     (let t = (case s of CHR ''+'' # r \<Rightarrow> r | _ \<Rightarrow> s)
      in if t = [] then None else parse_digits 0 t)"

text \<open>
  \<open>TimeRuntime::new\<close>: the wall clock starts at \<open>MSIM_BASE_TIME\<close> seconds, or at a random
  moment of the year that follows 52 years of 365 days; \<open>draw\<close> is what the generator gave for
  \<open>gen_range(0 .. 60 * 60 * 24 * 365)\<close>.
\<close>

definition time_runtime_new :: "string option \<Rightarrow> nat \<Rightarrow> 'cb time_state run" where
  "time_runtime_new env draw =
     bind_run
       (case env of
          Some s \<Rightarrow> expect UnwrapNone (parse_u64 s)
        | None \<Rightarrow> Ret (60 * 60 * 24 * 365 * (2022 - 1970) + draw))
       (\<lambda>secs. bind_run (instant_add 0 (dur_secs secs)) (\<lambda>bt.
         Ret \<lparr>th_timer = timer_default, th_clock = clock_new bt\<rparr>))"

text \<open>
  \<open>advance_to_next_event\<close>: whether there was an event, the events that fired, the new state.
  The timer fires before the clock moves.
\<close>

definition advance_to_next_event ::
    "'cb time_state \<Rightarrow> (bool \<times> 'cb event list \<times> 'cb time_state) run" where
  "advance_to_next_event s =
     (case timer_next (th_timer s) of
        None \<Rightarrow> Ret (False, [], s)
      | Some t \<Rightarrow> bind_run (dur_add t 50) (\<lambda>t.
          case timer_expire t (th_timer s) of (fs, tm) \<Rightarrow>
            Ret (True, fs, s\<lparr>th_timer := tm, th_clock := clock_set_elapsed t (th_clock s)\<rparr>)))"

definition time_advance :: "duration \<Rightarrow> 'cb time_state \<Rightarrow> 'cb time_state run" where
  "time_advance d s =
     bind_run (clock_advance d (th_clock s)) (\<lambda>c. Ret (s\<lparr>th_clock := c\<rparr>))"

definition disable_node_and_cancel_timers :: "node_id \<Rightarrow> 'cb time_state \<Rightarrow> 'cb time_state" where
  "disable_node_and_cancel_timers n s = s\<lparr>th_timer := snd (timer_disable n (th_timer s))\<rparr>"

definition time_enable_node :: "node_id \<Rightarrow> 'cb time_state \<Rightarrow> 'cb time_state run" where
  "time_enable_node n s =
     bind_run (timer_enable n (th_timer s)) (\<lambda>t. Ret (s\<lparr>th_timer := t\<rparr>))"

definition now_instant :: "'cb time_state \<Rightarrow> (instant \<times> 'cb time_state) run" where
  "now_instant s =
     bind_run (clock_now_instant (th_clock s)) (\<lambda>(i, c). Ret (i, s\<lparr>th_clock := c\<rparr>))"

definition now_time :: "'cb time_state \<Rightarrow> (system_time \<times> 'cb time_state) run" where
  "now_time s =
     bind_run (clock_now_time (th_clock s)) (\<lambda>(t, c). Ret (t, s\<lparr>th_clock := c\<rparr>))"

definition time_elapsed :: "'cb time_state \<Rightarrow> (duration \<times> 'cb time_state) run" where
  "time_elapsed s =
     bind_run (clock_elapsed (th_clock s)) (\<lambda>(d, c). Ret (d, s\<lparr>th_clock := c\<rparr>))"

definition time_since_clock_base :: "'cb time_state \<Rightarrow> (duration \<times> 'cb time_state) run" where
  "time_since_clock_base s =
     bind_run (clock_time_since_base (th_clock s)) (\<lambda>(d, c). Ret (d, s\<lparr>th_clock := c\<rparr>))"

definition instant_elapsed :: "instant \<Rightarrow> 'cb time_state \<Rightarrow> (duration \<times> 'cb time_state) run" where
  "instant_elapsed i s = bind_run (now_instant s) (\<lambda>(n, s). Ret (instant_diff n i, s))"

definition add_timer_for_node ::
    "node_id \<Rightarrow> instant \<Rightarrow> 'cb \<Rightarrow> 'cb time_state \<Rightarrow> 'cb time_state" where
  "add_timer_for_node n deadline cb s =
     s\<lparr>th_timer := timer_add n (instant_diff deadline (base_instant (th_clock s))) cb (th_timer s)\<rparr>"

text \<open>\<open>add_timer\<close> is for the node of the running task, \<open>cur\<close>, which there may be none of.\<close>

definition add_timer :: "node_id run \<Rightarrow> instant \<Rightarrow> 'cb \<Rightarrow> 'cb time_state \<Rightarrow> 'cb time_state run" where
  "add_timer cur deadline cb s = bind_run cur (\<lambda>n. Ret (add_timer_for_node n deadline cb s))"

definition wake_at :: "('w \<Rightarrow> 'cb) \<Rightarrow> node_id run \<Rightarrow> instant \<Rightarrow> 'w \<Rightarrow> 'cb time_state \<Rightarrow> 'cb time_state run" where
  "wake_at wake cur deadline w = add_timer cur deadline (wake w)"

section \<open>Sleep and Timeout\<close>

datatype 'a poll = Ready 'a | Pending

text \<open>\<open>Sleep\<close> is its deadline; the handle it holds is the state passed along.\<close>

record sleep =
  deadline :: instant

definition sleep_until :: "instant \<Rightarrow> sleep" where
  "sleep_until d = \<lparr>deadline = d\<rparr>"

definition time_sleep :: "duration \<Rightarrow> 'cb time_state \<Rightarrow> (sleep \<times> 'cb time_state) run" where
  "time_sleep d s =
     bind_run (now_instant s) (\<lambda>(n, s). bind_run (instant_add n d) (\<lambda>dl. Ret (sleep_until dl, s)))"

definition sleep_is_elapsed :: "sleep \<Rightarrow> 'cb time_state \<Rightarrow> (bool \<times> 'cb time_state) run" where
  "sleep_is_elapsed sl s = bind_run (now_instant s) (\<lambda>(n, s). Ret (deadline sl \<le> n, s))"

definition sleep_reset :: "instant \<Rightarrow> sleep \<Rightarrow> sleep" where
  "sleep_reset d sl = sl\<lparr>deadline := d\<rparr>"

definition sleep_poll ::
    "node_id \<Rightarrow> 'cb \<Rightarrow> sleep \<Rightarrow> 'cb time_state \<Rightarrow> (unit poll \<times> 'cb time_state) run" where
  "sleep_poll n wake sl s =
     bind_run (sleep_is_elapsed sl s) (\<lambda>(b, s).
       if b then Ret (Ready (), s)
       else Ret (Pending, add_timer_for_node n (deadline sl) wake s))"

text \<open>
  \<open>Timeout\<close>: the inner future is a function that polls it; \<open>Inl Elapsed\<close> is the error, which
  converts to the I/O error \<open>TimedOut\<close>.
\<close>

type_synonym ('s, 'r) future = "'s \<Rightarrow> ('r poll \<times> 's) run"

datatype elapsed_error = Elapsed

definition elapsed_to_io :: "elapsed_error \<Rightarrow> io_kind" where
  "elapsed_to_io e = TimedOut"

definition timeout_new :: "duration \<Rightarrow> 'cb time_state \<Rightarrow> (sleep \<times> 'cb time_state) run" where
  "timeout_new d s = time_sleep d s"

definition timeout_at :: "instant \<Rightarrow> 'cb time_state \<Rightarrow> (sleep \<times> 'cb time_state) run" where
  "timeout_at dl s =
     bind_run (now_instant s) (\<lambda>(n, s). timeout_new (instant_saturating_duration_since dl n) s)"

definition timeout_poll ::
    "node_id \<Rightarrow> 'cb \<Rightarrow> ('cb time_state, 'r) future \<Rightarrow> sleep \<Rightarrow>
     ('cb time_state, elapsed_error + 'r) future" where
  "timeout_poll n wake value_poll sl s =
     bind_run (value_poll s) (\<lambda>(p, s).
       case p of
         Ready v \<Rightarrow> Ret (Ready (Inr v), s)
       | Pending \<Rightarrow> bind_run (sleep_poll n wake sl s) (\<lambda>(q, s).
           Ret (case q of Ready _ \<Rightarrow> Ready (Inl Elapsed) | Pending \<Rightarrow> Pending, s)))"

section \<open>The intercepted libc clocks\<close>

text \<open>
  What an intercepted call does: call the real function (\<open>Bypass\<close>), or write a time of seconds
  and nanoseconds (microseconds for \<open>gettimeofday\<close>) and return 0. The state is \<open>None\<close> on a
  thread with no runtime; \<open>wall\<close> is the setting \<open>MSIM_USE_REAL_WALLCLOCK\<close>.
\<close>

datatype 'a sys_call = Bypass | Wrote 'a

datatype clock_id =
    CLOCK_REALTIME | CLOCK_REALTIME_COARSE | CLOCK_BOOTTIME | CLOCK_MONOTONIC | CLOCK_MONOTONIC_RAW
  | CLOCK_MONOTONIC_COARSE | CLOCK_UPTIME_RAW | CLOCK_PROCESS_CPUTIME_ID | CLOCK_THREAD_CPUTIME_ID
  | CLOCK_OTHER int

definition timespec_of :: "int \<Rightarrow> int \<times> int" where
  "timespec_of t = (t div 1000000000, t mod 1000000000)"

definition system_since_epoch :: "system_time \<Rightarrow> duration run" where
  "system_since_epoch t = (if 0 \<le> t then Ret (nat t) else Panic UnwrapNone)"

definition clock_gettime_linux ::
    "bool \<Rightarrow> clock_id \<Rightarrow> 'cb time_state option \<Rightarrow>
     ((int \<times> int) sys_call \<times> 'cb time_state option) run" where
  "clock_gettime_linux wall cid st =
     (case st of
        None \<Rightarrow> Ret (Bypass, None)
      | Some s \<Rightarrow>
          if cid \<in> {CLOCK_REALTIME, CLOCK_REALTIME_COARSE, CLOCK_BOOTTIME} then
            if wall then Ret (Bypass, Some s)
            else bind_run (now_time s) (\<lambda>(t, s). bind_run (system_since_epoch t) (\<lambda>d.
                   Ret (Wrote (timespec_of (int d)), Some s)))
          else if cid \<in> {CLOCK_MONOTONIC, CLOCK_MONOTONIC_RAW, CLOCK_MONOTONIC_COARSE} then
            bind_run (now_instant s) (\<lambda>(i, s). Ret (Wrote (timespec_of i), Some s))
          else if cid \<in> {CLOCK_PROCESS_CPUTIME_ID, CLOCK_THREAD_CPUTIME_ID} then Ret (Bypass, Some s)
          else Panic Todo)"

definition clock_gettime_macos ::
    "bool \<Rightarrow> clock_id \<Rightarrow> 'cb time_state option \<Rightarrow>
     ((int \<times> int) sys_call \<times> 'cb time_state option) run" where
  "clock_gettime_macos wall cid st =
     (case st of
        None \<Rightarrow> Ret (Bypass, None)
      | Some s \<Rightarrow>
          if cid = CLOCK_REALTIME then
            if wall then Ret (Bypass, Some s)
            else bind_run (now_time s) (\<lambda>(t, s). bind_run (system_since_epoch t) (\<lambda>d.
                   Ret (Wrote (timespec_of (int d)), Some s)))
          else if cid \<in> {CLOCK_MONOTONIC, CLOCK_UPTIME_RAW, CLOCK_MONOTONIC_RAW} then
            bind_run (time_elapsed s) (\<lambda>(d, s). Ret (Wrote (timespec_of (int d)), Some s))
          else if cid \<in> {CLOCK_PROCESS_CPUTIME_ID, CLOCK_THREAD_CPUTIME_ID} then Ret (Bypass, Some s)
          else Panic Todo)"

text \<open>\<open>gettimeofday\<close> writes nothing through a null pointer, and still returns 0.\<close>

definition gettimeofday_macos ::
    "bool \<Rightarrow> bool \<Rightarrow> 'cb time_state option \<Rightarrow>
     ((int \<times> int) option sys_call \<times> 'cb time_state option) run" where
  "gettimeofday_macos wall tp_is_null st =
     (if wall then Ret (Bypass, st)
      else if tp_is_null then Ret (Wrote None, st)
      else (case st of
              None \<Rightarrow> Ret (Bypass, None)
            | Some s \<Rightarrow> bind_run (now_time s) (\<lambda>(t, s). bind_run (system_since_epoch t) (\<lambda>d.
                Ret (Wrote (Some (int d div 1000000000, int d mod 1000000000 div 1000)), Some s)))))"

definition mul_u64 :: "u64 \<Rightarrow> u64 \<Rightarrow> u64 run" where
  "mul_u64 a b = (if unat a * unat b < 2 ^ 64 then Ret (a * b) else Panic Overflow)"

definition add_u64 :: "u64 \<Rightarrow> u64 \<Rightarrow> u64 run" where
  "add_u64 a b = (if unat a + unat b < 2 ^ 64 then Ret (a + b) else Panic Overflow)"

text \<open>The divisor is asserted non-zero where the time base is read.\<close>

definition mul_div_u64 :: "u64 \<Rightarrow> u64 \<Rightarrow> u64 \<Rightarrow> u64 run" where
  "mul_div_u64 value numer denom =
     (if denom = 0 then Panic Overflow
      else bind_run (mul_u64 (value div denom) numer) (\<lambda>a.
           bind_run (mul_u64 (value mod denom) numer) (\<lambda>b. add_u64 a (b div denom))))"

definition mach_absolute_time ::
    "u32 \<Rightarrow> u32 \<Rightarrow> 'cb time_state option \<Rightarrow> (u64 sys_call \<times> 'cb time_state option) run" where
  "mach_absolute_time base_numer base_denom st =
     (case st of
        None \<Rightarrow> Ret (Bypass, None)
      | Some s \<Rightarrow>
          bind_run (time_elapsed s) (\<lambda>(d, s).
          bind_run (assert_run (d < 2 ^ 64) UnwrapNone) (\<lambda>_.
          bind_run (mul_div_u64 (of_nat d) (ucast base_denom) (ucast base_numer)) (\<lambda>r.
            Ret (Wrote r, Some s)))))"

section \<open>Lemmas\<close>

named_theorems clock_simps \<open>operations of the clock and of the time handle\<close>

lemmas clock_op_defs [clock_simps] =
  clock_set_elapsed_def reset_abort_counter_def clock_elapsed_def clock_advance_def
  clock_now_instant_def clock_now_time_def now_instant_def now_time_def time_elapsed_def
  sleep_is_elapsed_def Let_def

lemma check_abort_Ret:
  "check_abort c = Ret c' \<longleftrightarrow> 1 < abort_counter c \<and> c' = c\<lparr>abort_counter := abort_counter c - 1\<rparr>"
proof -
  have "1 < abort_counter c \<longleftrightarrow> abort_counter c \<noteq> 0 \<and> abort_counter c \<noteq> 1"
    by unat_arith
  then show ?thesis by (auto simp: check_abort_def)
qed

lemma now_instant_Ret:
  "now_instant s = Ret (i, s') \<longleftrightarrow>
     1 < abort_counter (th_clock s) \<and> i = base_instant (th_clock s) + int (elapsed_time (th_clock s)) \<and>
     instant_ok i \<and>
     s' = s\<lparr>th_clock := (th_clock s)\<lparr>abort_counter := abort_counter (th_clock s) - 1\<rparr>\<rparr>"
  by (auto simp: clock_simps check_abort_Ret instant_simps split: if_splits)

lemma ABORT_COUNTER_START_gt: "1 < ABORT_COUNTER_START"
  by (simp add: ABORT_COUNTER_START_def)

datatype clock_op = ReadInstant | ReadTime | ReadElapsed | SetElapsed duration | Advance duration

fun clock_step :: "clock_op \<Rightarrow> clock \<Rightarrow> clock run" where
  "clock_step ReadInstant c = bind_run (clock_now_instant c) (\<lambda>(_, c). Ret c)"
| "clock_step ReadTime c = bind_run (clock_now_time c) (\<lambda>(_, c). Ret c)"
| "clock_step ReadElapsed c = bind_run (clock_elapsed c) (\<lambda>(_, c). Ret c)"
| "clock_step (SetElapsed d) c = Ret (clock_set_elapsed d c)"
| "clock_step (Advance d) c = clock_advance d c"

fun clock_run :: "clock_op list \<Rightarrow> clock \<Rightarrow> clock run" where
  "clock_run [] c = Ret c"
| "clock_run (op # ops) c = bind_run (clock_step op c) (clock_run ops)"

lemma clock_step_mono:
  assumes "clock_step op c = Ret c'" "0 < abort_counter c" "abort_counter c \<le> ABORT_COUNTER_START"
  shows "elapsed_time c \<le> elapsed_time c' \<and> base_instant c' = base_instant c \<and>
    base_time c' = base_time c \<and> 0 < abort_counter c' \<and> abort_counter c' \<le> ABORT_COUNTER_START"
proof -
  have dec: "0 < x - 1 \<and> x - 1 \<le> ABORT_COUNTER_START" if "1 < x" "x \<le> ABORT_COUNTER_START" for x :: u32
    using that by unat_arith
  show ?thesis
    using assms dec [of "abort_counter c"] ABORT_COUNTER_START_gt
    by (cases op) (auto simp: clock_simps check_abort_Ret dur_add_def split: if_splits)
qed

lemma clock_run_mono:
  "clock_run ops c = Ret c' \<Longrightarrow> 0 < abort_counter c \<Longrightarrow> abort_counter c \<le> ABORT_COUNTER_START \<Longrightarrow>
   elapsed_time c \<le> elapsed_time c' \<and> base_instant c' = base_instant c \<and>
   base_time c' = base_time c \<and> 0 < abort_counter c' \<and> abort_counter c' \<le> ABORT_COUNTER_START"
proof (induction ops arbitrary: c)
  case (Cons op ops)
  then obtain c1 where "clock_step op c = Ret c1" "clock_run ops c1 = Ret c'" by auto
  with clock_step_mono [of op c c1] Cons show ?case by fastforce
qed simp

primrec clock_reads :: "nat \<Rightarrow> clock \<Rightarrow> clock run" where
  "clock_reads 0 c = Ret c"
| "clock_reads (Suc k) c = bind_run (check_abort c) (clock_reads k)"

lemma clock_reads_eq:
  "0 < abort_counter c \<Longrightarrow> clock_reads k c =
     (if k < unat (abort_counter c) then Ret (c\<lparr>abort_counter := abort_counter c - of_nat k\<rparr>)
      else Panic ClockSpin)"
proof (induction k arbitrary: c)
  case 0
  then show ?case by (simp add: word_less_nat_alt)
next
  case (Suc k)
  show ?case
  proof (cases "abort_counter c = 1")
    case True
    then show ?thesis by (simp add: check_abort_def)
  next
    case False
    with Suc.prems have gt: "1 < abort_counter c" by unat_arith
    then have dec: "unat (abort_counter c - 1) = unat (abort_counter c) - 1" by unat_arith
    have "check_abort c = Ret (c\<lparr>abort_counter := abort_counter c - 1\<rparr>)"
      using gt by (simp add: check_abort_Ret)
    moreover have "0 < abort_counter c - 1" using gt by unat_arith
    ultimately show ?thesis
      using Suc.IH [of "c\<lparr>abort_counter := abort_counter c - 1\<rparr>"] gt
      by (auto simp: dec word_less_nat_alt less_diff_conv algebra_simps)
  qed
qed

lemma mul_div_nat:
  fixes v n d :: nat
  shows "0 < d \<Longrightarrow> v div d * n + v mod d * n div d = v * n div d"
proof -
  assume d: "0 < d"
  define q r where "q = v div d" and "r = v mod d"
  have "v = q * d + r" by (simp add: q_def r_def)
  then have "v * n = r * n + q * n * d" by (simp add: algebra_simps)
  then show ?thesis using d by (simp add: q_def r_def)
qed

section \<open>Properties\<close>

text \<open>C37: jumping to the next event fires, in one step, exactly the uncancelled events due within
  50 ns of the earliest deadline, moves the clock to at least that point and never back, and
  shrinks the queue; it reports false, and changes nothing, only when no event is pending.\<close>

theorem advance_to_next_event_spec:
  assumes "timer_wf (th_timer s)" "advance_to_next_event s = Ret (b, fs, s')"
  shows "if events (th_timer s) = [] then \<not> b \<and> fs = [] \<and> s' = s
    else b \<and> length (events (th_timer s')) < length (events (th_timer s)) \<and>
      timer_wf (th_timer s') \<and>
      (\<exists>t. t = Min (ev_deadline ` set (events (th_timer s))) + 50 \<and>
         mset fs = {#e \<in># mset (events (th_timer s)). ev_deadline e \<le> t \<and> ev_callback e \<noteq> None#} \<and>
         mset (events (th_timer s')) = {#e \<in># mset (events (th_timer s)). t < ev_deadline e#} \<and>
         th_clock s' = (th_clock s)\<lparr>elapsed_time := max (elapsed_time (th_clock s)) t,
           abort_counter := ABORT_COUNTER_START\<rparr>)"
proof -
  have heap: "is_heap ev_le (events (th_timer s))" using assms(1) by (simp add: timer_wf_def)
  show ?thesis
  proof (cases "timer_next (th_timer s)")
    case None
    then have "events (th_timer s) = []" using evo.heap.peek_None [OF heap] by (simp add: timer_next_def)
    with None assms(2) show ?thesis by (simp add: advance_to_next_event_def)
  next
    case (Some d)
    then obtain e where peek: "heap_peek (events (th_timer s)) = Some e" and d: "d = ev_deadline e"
      by (auto simp: timer_next_def)
    note top = evo.heap.peek_Some [OF heap peek]
    have Min: "Min (ev_deadline ` set (events (th_timer s))) = d"
      unfolding d using top by (intro Min_eqI) (auto simp: ev_le_def)
    obtain fs' tm where ex': "timer_expire (d + 50) (th_timer s) = (fs', tm)" by fastforce
    have fs: "fs' = fs" and b: b
      and s': "s' = s\<lparr>th_timer := tm, th_clock := clock_set_elapsed (d + 50) (th_clock s)\<rparr>"
      using assms(2) by (auto simp: advance_to_next_event_def Some dur_add_def ex' split: if_splits)
    note ex = ex' [unfolded fs]
    obtain rest where rest: "expire_events (d + 50) (events (th_timer s)) = (fs, rest)"
      "tm = (th_timer s)\<lparr>events := rest\<rparr>"
      using ex by (auto simp: timer_expire_def split: prod.splits)
    note sp = expire_events_spec [OF heap rest(1)]
    have "length rest < length (events (th_timer s))"
    proof -
      have "e \<in># mset (events (th_timer s)) \<and> e \<notin># mset rest" using sp top by (auto simp: d)
      moreover have "mset rest \<subseteq># mset (events (th_timer s))" using sp by simp
      ultimately have "mset rest \<subset># mset (events (th_timer s))" by (metis subset_mset.le_neq_trans)
      from mset_subset_size [OF this] show ?thesis by simp
    qed
    moreover have "timer_wf tm"
      using timer_step_wf [OF assms(1), of "TExpire (d + 50)"] ex by simp
    moreover have "events (th_timer s) \<noteq> []" using top by auto
    ultimately show ?thesis
      using b sp by (simp add: Min s' rest(2) clock_set_elapsed_def reset_abort_counter_def)
  qed
qed

definition demo_time :: "nat time_state" where
  "demo_time = \<lparr>th_timer = demo_timer, th_clock = (clock_new 0)\<lparr>elapsed_time := 3\<rparr>\<rparr>"

theorem advance_to_next_event_spec_witness:
  "\<exists>fs s'. advance_to_next_event demo_time = Ret (True, fs, s') \<and>
     length (events (th_timer s')) < 3 \<and> elapsed_time (th_clock s') = 55"
proof -
  obtain fs s' where adv: "advance_to_next_event demo_time = Ret (True, fs, s')"
    by (simp add: advance_to_next_event_def demo_time_def timer_next_def demo_timer_eq heap_peek_def
        dur_add_def dur_max_def split_def)
  then show ?thesis
    using advance_to_next_event_spec [OF _ adv] demo_timer_wf
    by (simp add: demo_time_def demo_timer_eq)
qed

text \<open>Polling a \<open>Sleep\<close> is \<open>Ready\<close> exactly when the virtual clock has reached the deadline,
  never earlier; otherwise it leaves one wake-up in the queue at that deadline for the polling
  task's node (none if the node is disabled), and changes no other event.\<close>

theorem sleep_poll_spec:
  assumes "sleep_poll n wake sl s = Ret (p, s')"
  shows "p = (if deadline sl \<le> base_instant (th_clock s) + int (elapsed_time (th_clock s))
              then Ready () else Pending) \<and>
    mset (events (th_timer s')) = mset (events (th_timer s)) +
      (if p = Pending \<and> n \<notin> disabled_node_ids (th_timer s)
       then {#\<lparr>ev_deadline = nat (deadline sl - base_instant (th_clock s)), ev_node = n,
               ev_callback = Some wake\<rparr>#}
       else {#}) \<and>
    elapsed_time (th_clock s') = elapsed_time (th_clock s)"
proof -
  from assms obtain s1 where now: "now_instant s = Ret (base_instant (th_clock s) +
      int (elapsed_time (th_clock s)), s1)"
    and th: "s1 = s\<lparr>th_clock := (th_clock s)\<lparr>abort_counter := abort_counter (th_clock s) - 1\<rparr>\<rparr>"
    and res: "(if deadline sl \<le> base_instant (th_clock s) + int (elapsed_time (th_clock s))
      then Ret (Ready (), s1) else Ret (Pending, add_timer_for_node n (deadline sl) wake s1)) = Ret (p, s')"
    by (auto simp: sleep_poll_def sleep_is_elapsed_def now_instant_Ret)
  then show ?thesis
    by (auto simp: th add_timer_for_node_def timer_add_def instant_diff_nat evo.mset_heap_push
        split: if_splits)
qed

theorem sleep_poll_spec_witness:
  "\<exists>s'. sleep_poll 2 99 (sleep_until 40) demo_time = Ret (Pending, s') \<and>
     size (mset (events (th_timer s'))) = 4"
proof -
  obtain p s' where poll: "sleep_poll 2 99 (sleep_until 40) demo_time = Ret (p, s')"
    by (simp add: sleep_poll_def sleep_is_elapsed_def now_instant_def clock_now_instant_def
        check_abort_def demo_time_def clock_new_def ABORT_COUNTER_START_def instant_simps
        instant_ok_def sleep_until_def)
  note spec = sleep_poll_spec [OF poll]
  have "p = Pending" using spec by (simp add: sleep_until_def demo_time_def clock_new_def)
  moreover from this have "size (mset (events (th_timer s'))) = 4"
    by (subst conjunct1 [OF conjunct2 [OF spec]]) (simp add: demo_time_def demo_timer_eq)
  ultimately show ?thesis using poll by blast
qed

text \<open>No sleeper is woken to find its deadline still ahead: when the jump to the next event
  fires the wake-up a \<open>Sleep\<close> registered, polling that \<open>Sleep\<close> again is \<open>Ready\<close>. (The clock has
  passed every fired deadline, and its spin counter was reset.)\<close>

theorem woken_sleep_is_ready:
  assumes "timer_wf (th_timer s)" "advance_to_next_event s = Ret (b, fs, s')"
    and "ev \<in> set fs" "ev_deadline ev = instant_diff (deadline sl) (base_instant (th_clock s))"
    and "instant_ok (base_instant (th_clock s') + int (elapsed_time (th_clock s')))"
  shows "\<exists>s''. sleep_poll n wake sl s' = Ret (Ready (), s'')"
proof -
  have heap: "is_heap ev_le (events (th_timer s))" using assms(1) by (simp add: timer_wf_def)
  from assms(2,3) obtain d where nx: "timer_next (th_timer s) = Some d"
    by (cases "timer_next (th_timer s)") (auto simp: advance_to_next_event_def)
  obtain fs' tm where ex: "timer_expire (d + 50) (th_timer s) = (fs', tm)" by fastforce
  have fs: "fs' = fs" and s': "th_clock s' = clock_set_elapsed (d + 50) (th_clock s)"
    using assms(2) by (auto simp: advance_to_next_event_def nx dur_add_def ex split: if_splits)
  obtain rest where "expire_events (d + 50) (events (th_timer s)) = (fs, rest)"
    using ex fs by (auto simp: timer_expire_def split: prod.splits)
  from set_expire_events(1) [OF heap this] assms(3) have "ev_deadline ev \<le> d + 50" by auto
  then have "deadline sl \<le> base_instant (th_clock s') + int (elapsed_time (th_clock s'))"
    using assms(4) by (simp add: s' clock_simps instant_diff_nat nat_le_iff)
  moreover have "1 < abort_counter (th_clock s')"
    by (simp add: s' clock_simps ABORT_COUNTER_START_def)
  ultimately show ?thesis
    using assms(5) by (auto simp: sleep_poll_def sleep_is_elapsed_def now_instant_Ret)
qed

theorem woken_sleep_is_ready_witness:
  "\<exists>fs s' s''. advance_to_next_event demo_time = Ret (True, fs, s') \<and>
     sleep_poll 2 (20::nat) (sleep_until 5) s' = Ret (Ready (), s'')"
proof -
  obtain fs s' where adv: "advance_to_next_event demo_time = Ret (True, fs, s')"
    by (simp add: advance_to_next_event_def demo_time_def timer_next_def demo_timer_eq heap_peek_def
        dur_add_def dur_max_def split_def)
  have wf: "timer_wf (th_timer demo_time)" by (simp add: demo_time_def demo_timer_wf)
  have clk: "th_clock s' = (th_clock demo_time)\<lparr>elapsed_time := 55, abort_counter := ABORT_COUNTER_START\<rparr>"
    using adv by (auto simp: advance_to_next_event_def demo_time_def timer_next_def demo_timer_eq
        heap_peek_def dur_add_def dur_max_def clock_set_elapsed_def reset_abort_counter_def
        split: prod.splits)
  obtain rest where "expire_events 55 (events demo_timer) = (fs, rest)"
    using adv by (auto simp: advance_to_next_event_def demo_time_def timer_next_def demo_timer_eq
        heap_peek_def dur_add_def dur_max_def timer_expire_def split: prod.splits)
  from set_expire_events(1) [OF _ this]
  have "\<lparr>ev_deadline = 5, ev_node = 2, ev_callback = Some 20\<rparr> \<in> set fs"
    using demo_timer_wf by (simp add: timer_wf_def demo_timer_eq)
  from woken_sleep_is_ready [OF wf adv this, of "sleep_until 5" 2 20] adv
  show ?thesis
    by (simp add: clk demo_time_def clock_new_def sleep_until_def instant_simps instant_ok_def)
qed

text \<open>Virtual time never goes backwards: whatever sequence of reads, jumps and advances the
  clock serves, the elapsed time never decreases, the clock's bases never change, and the spin
  counter stays between 1 and its start value, so its decrement never underflows.\<close>

theorem clock_monotone:
  assumes "clock_run ops (clock_new bt) = Ret c" "clock_run ops' c = Ret c'"
  shows "CLOCK_BASE \<le> elapsed_time c \<and> elapsed_time c \<le> elapsed_time c' \<and>
    base_instant c' = 0 \<and> base_time c' = bt \<and>
    0 < abort_counter c' \<and> abort_counter c' \<le> ABORT_COUNTER_START"
proof -
  have "elapsed_time (clock_new bt) \<le> elapsed_time c \<and> base_instant c = 0 \<and> base_time c = bt \<and>
      0 < abort_counter c \<and> abort_counter c \<le> ABORT_COUNTER_START"
    using clock_run_mono [OF assms(1)] by (simp add: clock_new_def ABORT_COUNTER_START_def)
  with clock_run_mono [OF assms(2)] show ?thesis by (simp add: clock_new_def)
qed

theorem clock_monotone_witness:
  "\<exists>c'. clock_run [SetElapsed 5, Advance 1] (clock_new 0) = Ret c' \<and> CLOCK_BASE \<le> elapsed_time c'"
proof -
  obtain c where c: "clock_run [SetElapsed 5] (clock_new 0) = Ret c" by simp
  obtain c' where c': "clock_run [Advance 1] c = Ret c'"
    using c by (auto simp: clock_simps clock_new_def dur_add_def CLOCK_BASE_def dur_max_def)
  then show ?thesis using clock_monotone [OF c c'] c by auto
qed

text \<open>The guard against busy-waiting on the clock is exact: after an advance, 99,999,999 reads
  in a row succeed and the next one panics, whatever the clock.\<close>

theorem clock_spin_guard:
  "clock_reads k (reset_abort_counter c) =
     (if k < 100000000 then Ret (c\<lparr>abort_counter := 100000000 - of_nat k\<rparr>) else Panic ClockSpin)"
  using clock_reads_eq [of "reset_abort_counter c" k]
  by (simp add: reset_abort_counter_def ABORT_COUNTER_START_def)

text \<open>The conversion of nanoseconds to the platform's clock units computes the exact floor
  of \<open>value * numer / denom\<close>, with no intermediate overflow, whenever that result and the bound
  \<open>denom * numer\<close> fit 64 bits.\<close>

theorem mul_div_u64_exact:
  assumes "0 < denom" "unat denom * unat numer < 2 ^ 64"
    and "unat value * unat numer div unat denom < 2 ^ 64"
  shows "\<exists>r. mul_div_u64 value numer denom = Ret r \<and>
    unat r = unat value * unat numer div unat denom"
proof -
  let ?v = "unat value" and ?n = "unat numer" and ?d = "unat denom"
  have d: "0 < ?d" using assms(1) by (simp add: word_gt_0 unat_gt_0)
  note eq = mul_div_nat [OF d, of ?v ?n]
  have a: "?v div ?d * ?n < 2 ^ 64" using assms(3) eq by linarith
  have "?v mod ?d * ?n \<le> ?d * ?n" using d by (simp add: less_imp_le)
  then have b: "?v mod ?d * ?n < 2 ^ 64" using assms(2) by linarith
  have ua: "unat (value div denom * numer) = ?v div ?d * ?n"
    using a unat_mult_lem [of "value div denom" numer] by (simp add: unat_div)
  have ub: "unat (value mod denom * numer div denom) = ?v mod ?d * ?n div ?d"
    using b unat_mult_lem [of "value mod denom" numer] by (simp add: unat_div unat_mod)
  have sum: "?v div ?d * ?n + ?v mod ?d * ?n div ?d < 2 ^ 64" using assms(3) eq by simp
  have "unat (value div denom * numer + value mod denom * numer div denom) = ?v * ?n div ?d"
    using sum eq by (simp add: unat_word_ariths(1) ua ub)
  moreover have "denom \<noteq> 0" using assms(1) by auto
  ultimately show ?thesis
    using a b sum ua ub
    by (auto simp: mul_div_u64_def mul_u64_def add_u64_def unat_div unat_mod)
qed

theorem mul_div_u64_exact_witness: "\<exists>r. mul_div_u64 1000 125 3 = Ret r \<and> unat r = 41666"
  using mul_div_u64_exact [of 3 125 1000] by simp

end
