(* ===== verification/Sim_Rand.thy ===== *)
theory Sim_Rand
  imports Virtual_Time "HOL-Library.Sublist"
begin

text \<open>
  \<open>msim/src/sim/rand.rs\<close> and \<open>msim/src/sim/utils/mpsc.rs\<close>: the global generator with its
  determinism log and check, the intercepted \<open>getrandom\<close>, and the queue whose receiver takes a
  random element. The generator itself (\<open>SmallRng\<close> and the distributions of the \<open>rand\<close> crate)
  is a parameter: a record of functions on its state. \<open>rng_ok\<close> is what the crate documents of
  them and the simulator relies on.
\<close>

section \<open>The generator of the rand crate\<close>

record ('g, 'f) rng_ops =
  rng_seed :: "u64 \<Rightarrow> 'g"
  rng_u8 :: "'g \<Rightarrow> u8 \<times> 'g"
  rng_u64 :: "'g \<Rightarrow> u64 \<times> 'g"
  rng_range :: "nat \<Rightarrow> nat \<Rightarrow> 'g \<Rightarrow> nat \<times> 'g"
  rng_bool :: "'f \<Rightarrow> 'g \<Rightarrow> bool \<times> 'g"
  rng_weighted :: "u32 list \<Rightarrow> 'g \<Rightarrow> nat option \<times> 'g"

text \<open>
  \<open>gen_range(lo..hi)\<close> draws from the half-open range; \<open>choose_weighted\<close> draws the index of an
  element, and fails on an empty or all-zero list.
\<close>

definition rng_ok :: "('g, 'f) rng_ops \<Rightarrow> bool" where
  "rng_ok ops \<longleftrightarrow>
     (\<forall>lo hi g. lo < hi \<longrightarrow> lo \<le> fst (rng_range ops lo hi g) \<and> fst (rng_range ops lo hi g) < hi) \<and>
     (\<forall>ws g i. fst (rng_weighted ops ws g) = Some i \<longrightarrow> i < length ws)"

text \<open>\<open>gen_range\<close> and \<open>Uniform::from\<close> panic on an empty range.\<close>

definition gen_range :: "('g, 'f) rng_ops \<Rightarrow> nat \<Rightarrow> nat \<Rightarrow> 'g \<Rightarrow> (nat \<times> 'g) run" where
  "gen_range ops lo hi g = (if lo < hi then Ret (rng_range ops lo hi g) else Panic AssertFailed)"

section \<open>The global generator\<close>

record 'g global_rng =
  gr_rng :: 'g
  gr_log :: "u8 list option"
  gr_check :: "(u8 list \<times> nat) option"

definition new_with_seed :: "('g, 'f) rng_ops \<Rightarrow> u64 \<Rightarrow> 'g global_rng" where
  "new_with_seed ops seed = \<lparr>gr_rng = rng_seed ops seed, gr_log = None, gr_check = None\<rparr>"

definition hash_u128 :: "128 word \<Rightarrow> u8" where
  "hash_u128 x = fold (\<lambda>i a. xor a (ucast (drop_bit (8 * i) x))) [0..<16] 0"

text \<open>
  \<open>with\<close>: when a log or a check is on, the byte observed is the next byte of a copy of the
  generator mixed with the hash of the virtual time; reading the time is a read of the runtime's
  clock (\<open>None\<close> outside a runtime).
\<close>

definition read_elapsed :: "clock option \<Rightarrow> (duration option \<times> clock option) run" where
  "read_elapsed clk =
     (case clk of None \<Rightarrow> Ret (None, None)
      | Some c \<Rightarrow> bind_run (clock_elapsed c) (\<lambda>(d, c). Ret (Some d, Some c)))"

definition observe :: "('g, 'f) rng_ops \<Rightarrow> 'g \<Rightarrow> duration option \<Rightarrow> u8" where
  "observe ops g t =
     xor (fst (rng_u8 ops g)) (hash_u128 (of_nat (case t of None \<Rightarrow> 0 | Some d \<Rightarrow> d)))"

definition log_or_check :: "u8 \<Rightarrow> 'g global_rng \<Rightarrow> 'g global_rng run" where
  "log_or_check v gr =
     (let gr = gr\<lparr>gr_log := map_option (\<lambda>l. l @ [v]) (gr_log gr)\<rparr>
      in case gr_check gr of
           None \<Rightarrow> Ret gr
         | Some (chk, i) \<Rightarrow>
             if i < length chk \<and> chk ! i = v then Ret (gr\<lparr>gr_check := Some (chk, i + 1)\<rparr>)
             else Panic NonDeterminism)"

definition rng_with ::
    "('g, 'f) rng_ops \<Rightarrow> ('g \<Rightarrow> ('a \<times> 'g) run) \<Rightarrow> clock option \<Rightarrow> 'g global_rng \<Rightarrow>
     ('a \<times> clock option \<times> 'g global_rng) run" where
  "rng_with ops f clk gr =
     bind_run (f (gr_rng gr)) (\<lambda>(ret, g).
       let gr = gr\<lparr>gr_rng := g\<rparr> in
       if gr_log gr = None \<and> gr_check gr = None then Ret (ret, clk, gr)
       else
         bind_run (read_elapsed clk) (\<lambda>(t, clk).
         bind_run (log_or_check (observe ops g t) gr) (\<lambda>gr. Ret (ret, clk, gr))))"

definition enable_check :: "u8 list \<Rightarrow> 'g global_rng \<Rightarrow> 'g global_rng" where
  "enable_check log gr = gr\<lparr>gr_check := Some (log, 0)\<rparr>"

definition enable_log :: "'g global_rng \<Rightarrow> 'g global_rng" where
  "enable_log gr = gr\<lparr>gr_log := Some []\<rparr>"

definition take_log :: "'g global_rng \<Rightarrow> u8 list option \<times> 'g global_rng" where
  "take_log gr =
     (case gr_log gr of
        Some l \<Rightarrow> (Some l, gr\<lparr>gr_log := None\<rparr>)
      | None \<Rightarrow> (map_option fst (gr_check gr), gr\<lparr>gr_check := None\<rparr>))"

section \<open>The intercepted getrandom\<close>

text \<open>
  \<open>SEED\<close> is the thread-local cell that \<open>init_std_random_state\<close> sets while it asks the standard
  library for the keys of its hash maps. \<open>real\<close> stands for the operating system's function.
\<close>

definition u64_bytes :: "u64 \<Rightarrow> u8 list" where
  "u64_bytes w = map (\<lambda>i. ucast (drop_bit (8 * i) w)) [0..<8]"

fun getrandom_fill ::
    "('g, 'f) rng_ops \<Rightarrow> nat \<Rightarrow> clock option \<Rightarrow> 'g global_rng \<Rightarrow>
     (u8 list \<times> clock option \<times> 'g global_rng) run" where
  "getrandom_fill ops buflen clk gr =
     (if 8 \<le> buflen then
        bind_run (rng_with ops (\<lambda>g. Ret (rng_u64 ops g)) clk gr) (\<lambda>(v, clk, gr).
        bind_run (getrandom_fill ops (buflen - 8) clk gr) (\<lambda>(bs, clk, gr).
          Ret (u64_bytes v @ bs, clk, gr)))
      else if 0 < buflen then
        bind_run (rng_with ops (\<lambda>g. Ret (rng_u64 ops g)) clk gr) (\<lambda>(v, clk, gr).
          Ret (take buflen (u64_bytes v), clk, gr))
      else Ret ([], clk, gr))"

declare getrandom_fill.simps [simp del]

datatype filled = Filled "u8 list" | RealCall

definition getrandom ::
    "('g, 'f) rng_ops \<Rightarrow> u64 option \<Rightarrow> nat \<Rightarrow> clock option \<Rightarrow> 'g global_rng option \<Rightarrow>
     (filled \<times> u64 option \<times> clock option \<times> 'g global_rng option) run" where
  "getrandom ops seed buflen clk rand =
     (case seed of
        Some sd \<Rightarrow> bind_run (assert_run (buflen = 16) AssertFailed) (\<lambda>_.
          Ret (Filled (u64_bytes sd @ u64_bytes sd), None, clk, rand))
      | None \<Rightarrow>
          (case rand of
             Some gr \<Rightarrow> bind_run (getrandom_fill ops buflen clk gr) (\<lambda>(bs, clk, gr).
               Ret (Filled bs, None, clk, Some gr))
           | None \<Rightarrow> Ret (RealCall, None, clk, None)))"

text \<open>
  \<open>getentropy\<close> refuses more than 256 bytes (\<open>None\<close> for the return value -1) and otherwise is
  \<open>getrandom\<close>; \<open>init_std_random_state\<close> reports whether the seed was consumed, which
  \<open>asks\<close> tells: whether building a \<open>RandomState\<close> called \<open>getrandom\<close> for its 16 bytes.
\<close>

definition getentropy ::
    "('g, 'f) rng_ops \<Rightarrow> u64 option \<Rightarrow> nat \<Rightarrow> clock option \<Rightarrow> 'g global_rng option \<Rightarrow>
     ((filled option) \<times> u64 option \<times> clock option \<times> 'g global_rng option) run" where
  "getentropy ops seed buflen clk rand =
     (if 256 < buflen then Ret (None, seed, clk, rand)
      else bind_run (getrandom ops seed buflen clk rand) (\<lambda>(r, seed, clk, rand).
             Ret (Some r, seed, clk, rand)))"

definition init_std_random_state ::
    "('g, 'f) rng_ops \<Rightarrow> bool \<Rightarrow> u64 \<Rightarrow> clock option \<Rightarrow> 'g global_rng option \<Rightarrow>
     (bool \<times> u64 option \<times> clock option \<times> 'g global_rng option) run" where
  "init_std_random_state ops asks seed clk rand =
     bind_run (if asks then getrandom ops (Some seed) 16 clk rand
               else Ret (RealCall, Some seed, clk, rand)) (\<lambda>(_, sd, clk, rand).
       Ret (sd = None, None, clk, rand))"

section \<open>A queue received from at random\<close>

text \<open>
  \<open>mpsc\<close>: the queue, whether the receiver still exists (senders hold a weak reference), and how
  many senders exist.
\<close>

record 'a chan =
  ch_queue :: "'a list"
  ch_receiver :: bool
  ch_senders :: nat

datatype recv_error = Empty | Disconnected

definition channel :: "'a chan" where
  "channel = \<lparr>ch_queue = [], ch_receiver = True, ch_senders = 1\<rparr>"

definition chan_send :: "'a \<Rightarrow> 'a chan \<Rightarrow> 'a option \<times> 'a chan" where
  "chan_send x c =
     (if ch_receiver c then (None, c\<lparr>ch_queue := ch_queue c @ [x]\<rparr>) else (Some x, c))"

definition chan_try_recv_random ::
    "('g, 'f) rng_ops \<Rightarrow> clock option \<Rightarrow> 'g global_rng \<Rightarrow> 'a chan \<Rightarrow>
     ((recv_error + 'a) \<times> 'a chan \<times> clock option \<times> 'g global_rng) run" where
  "chan_try_recv_random ops clk gr c =
     (if ch_queue c \<noteq> [] then
        bind_run (rng_with ops (gen_range ops 0 (length (ch_queue c))) clk gr) (\<lambda>(i, clk, gr).
          if i < length (ch_queue c)
          then Ret (Inr (ch_queue c ! i), c\<lparr>ch_queue := swap_remove i (ch_queue c)\<rparr>, clk, gr)
          else Panic OutOfRange)
      else Ret (Inl (if ch_senders c = 0 then Disconnected else Empty), c, clk, gr))"

definition chan_clear :: "'a chan \<Rightarrow> 'a chan" where
  "chan_clear c = c\<lparr>ch_queue := []\<rparr>"

section \<open>Sequences of draws\<close>

text \<open>
  A run of the generator: each call is the function applied to it and the clock at that moment.
  \<open>draws\<close> are the values the calls return, \<open>draw_trace\<close> the bytes observed after each.
\<close>

fun rng_calls ::
    "('g, 'f) rng_ops \<Rightarrow> (('g \<Rightarrow> 'a \<times> 'g) \<times> clock option) list \<Rightarrow> 'g global_rng \<Rightarrow>
     ('a list \<times> 'g global_rng) run" where
  "rng_calls ops [] gr = Ret ([], gr)"
| "rng_calls ops ((f, clk) # cs) gr =
     bind_run (rng_with ops (\<lambda>g. Ret (f g)) clk gr) (\<lambda>(x, _, gr).
     bind_run (rng_calls ops cs gr) (\<lambda>(xs, gr). Ret (x # xs, gr)))"

fun draws :: "(('g \<Rightarrow> 'a \<times> 'g) \<times> clock option) list \<Rightarrow> 'g \<Rightarrow> 'a list" where
  "draws [] g = []"
| "draws ((f, clk) # cs) g = fst (f g) # draws cs (snd (f g))"

fun final_state :: "(('g \<Rightarrow> 'a \<times> 'g) \<times> clock option) list \<Rightarrow> 'g \<Rightarrow> 'g" where
  "final_state [] g = g"
| "final_state ((f, clk) # cs) g = final_state cs (snd (f g))"

fun draw_trace ::
    "('g, 'f) rng_ops \<Rightarrow> (('g \<Rightarrow> 'a \<times> 'g) \<times> clock option) list \<Rightarrow> 'g \<Rightarrow> u8 list" where
  "draw_trace ops [] g = []"
| "draw_trace ops ((f, clk) # cs) g =
     observe ops (snd (f g)) (map_option elapsed_time clk) # draw_trace ops cs (snd (f g))"

definition clocks_readable :: "(('g \<Rightarrow> 'a \<times> 'g) \<times> clock option) list \<Rightarrow> bool" where
  "clocks_readable cs \<longleftrightarrow> list_all (\<lambda>(f, clk). case clk of None \<Rightarrow> True | Some c \<Rightarrow> 1 < abort_counter c) cs"

lemma read_elapsed_readable:
  "(case clk of None \<Rightarrow> True | Some c \<Rightarrow> 1 < abort_counter c) \<Longrightarrow>
   \<exists>clk'. read_elapsed clk = Ret (map_option elapsed_time clk, clk')"
  by (auto simp: read_elapsed_def clock_elapsed_def check_abort_Ret split: option.splits)

lemma rng_calls_log:
  "clocks_readable cs \<Longrightarrow> gr_check gr = None \<Longrightarrow> gr_log gr = Some l \<Longrightarrow>
   rng_calls ops cs gr = Ret (draws cs (gr_rng gr),
     gr\<lparr>gr_rng := final_state cs (gr_rng gr), gr_log := Some (l @ draw_trace ops cs (gr_rng gr))\<rparr>)"
proof (induction cs arbitrary: gr l)
  case (Cons c cs)
  obtain f clk where c: "c = (f, clk)" by fastforce
  obtain clk' where rd: "read_elapsed clk = Ret (map_option elapsed_time clk, clk')"
    using Cons.prems(1) read_elapsed_readable [of clk] by (auto simp: c clocks_readable_def)
  let ?v = "observe ops (snd (f (gr_rng gr))) (map_option elapsed_time clk)"
  let ?gr = "gr\<lparr>gr_rng := snd (f (gr_rng gr)), gr_log := Some (l @ [?v])\<rparr>"
  have "rng_with ops (\<lambda>g. Ret (f g)) clk gr = Ret (fst (f (gr_rng gr)), clk', ?gr)"
    using Cons.prems(2,3) rd
    by (simp add: rng_with_def split_def Let_def log_or_check_def)
  moreover have "clocks_readable cs" using Cons.prems(1) by (simp add: clocks_readable_def)
  ultimately show ?case
    using Cons.IH [of ?gr "l @ [?v]"] Cons.prems(2) by (simp add: c)
qed simp

lemma rng_calls_check:
  "clocks_readable cs \<Longrightarrow> gr_log gr = None \<Longrightarrow> gr_check gr = Some (chk, i) \<Longrightarrow>
   rng_calls ops cs gr =
     (if prefix (draw_trace ops cs (gr_rng gr)) (drop i chk)
      then Ret (draws cs (gr_rng gr),
             gr\<lparr>gr_rng := final_state cs (gr_rng gr), gr_check := Some (chk, i + length cs)\<rparr>)
      else Panic NonDeterminism)"
proof (induction cs arbitrary: gr i)
  case (Cons c cs)
  obtain f clk where c: "c = (f, clk)" by fastforce
  obtain clk' where rd: "read_elapsed clk = Ret (map_option elapsed_time clk, clk')"
    using Cons.prems(1) read_elapsed_readable [of clk] by (auto simp: c clocks_readable_def)
  let ?v = "observe ops (snd (f (gr_rng gr))) (map_option elapsed_time clk)"
  let ?gr = "gr\<lparr>gr_rng := snd (f (gr_rng gr)), gr_check := Some (chk, i + 1)\<rparr>"
  have w: "rng_with ops (\<lambda>g. Ret (f g)) clk gr =
      (if i < length chk \<and> chk ! i = ?v then Ret (fst (f (gr_rng gr)), clk', ?gr) else Panic NonDeterminism)"
    using Cons.prems(2,3) rd
    by (simp add: rng_with_def split_def Let_def log_or_check_def)
  show ?case
  proof (cases "i < length chk")
    case True
    have "clocks_readable cs" using Cons.prems(1) by (simp add: clocks_readable_def)
    then show ?thesis
      using Cons.IH [of ?gr "i + 1"] Cons.prems(2) True
      by (auto simp: c w Cons_nth_drop_Suc [symmetric])
  next
    case False
    then show ?thesis by (simp add: c w)
  qed
qed simp

lemma rng_with_quiet:
  "gr_log gr = None \<Longrightarrow> gr_check gr = None \<Longrightarrow> rng_with ops f clk gr =
     bind_run (f (gr_rng gr)) (\<lambda>(x, g). Ret (x, clk, gr\<lparr>gr_rng := g\<rparr>))"
  by (simp add: rng_with_def Let_def split_def)

lemma length_u64_bytes [simp]: "length (u64_bytes w) = 8"
  by (simp add: u64_bytes_def)

lemma getrandom_fill_length:
  "getrandom_fill ops n clk gr = Ret (bs, clk', gr') \<Longrightarrow> length bs = n"
proof (induction n arbitrary: clk gr bs clk' gr' rule: less_induct)
  case (less n)
  show ?case
  proof (cases "8 \<le> n")
    case True
    with less.prems obtain v clk1 gr1 bs1 where "bs = u64_bytes v @ bs1"
      "getrandom_fill ops (n - 8) clk1 gr1 = Ret (bs1, clk', gr')"
      by (subst (asm) getrandom_fill.simps) auto
    with less.IH [of "n - 8"] True show ?thesis by fastforce
  next
    case False
    with less.prems show ?thesis
      by (subst (asm) getrandom_fill.simps) (auto split: if_splits)
  qed
qed

lemma getrandom_fill_quiet:
  "gr_log gr = None \<Longrightarrow> gr_check gr = None \<Longrightarrow>
   \<exists>bs gr'. getrandom_fill ops n clk gr = Ret (bs, clk, gr') \<and> gr_log gr' = None \<and> gr_check gr' = None"
proof (induction n arbitrary: gr rule: less_induct)
  case (less n)
  show ?case
  proof (cases "8 \<le> n")
    case True
    let ?gr = "gr\<lparr>gr_rng := snd (rng_u64 ops (gr_rng gr))\<rparr>"
    obtain bs gr' where "getrandom_fill ops (n - 8) clk ?gr = Ret (bs, clk, gr')"
      "gr_log gr' = None" "gr_check gr' = None"
      using less.IH [of "n - 8" ?gr] less.prems True by auto
    then show ?thesis
      using True less.prems
      by (subst getrandom_fill.simps) (simp add: rng_with_quiet split_def)
  next
    case False
    then show ?thesis
      using less.prems by (subst getrandom_fill.simps) (simp add: rng_with_quiet split_def)
  qed
qed

section \<open>Properties\<close>

text \<open>C38: replaying a logged run is accepted: the log recorded from a seed is one byte per draw, and
  the same draws from the same seed, checked against it, never panic and return the same values.\<close>

theorem replay_accepted:
  assumes "clocks_readable cs"
    and "rng_calls ops cs (enable_log (new_with_seed ops seed)) = Ret (xs, gr)"
    and "take_log gr = (Some log, gr')"
  shows "length log = length cs \<and>
    (\<exists>gr''. rng_calls ops cs (enable_check log (new_with_seed ops seed)) = Ret (xs, gr''))"
proof -
  have "length (draw_trace ops cs g) = length cs" for g
    by (induction ops cs g rule: draw_trace.induct) simp_all
  then show ?thesis
    using assms rng_calls_log [OF assms(1), of "enable_log (new_with_seed ops seed)" "[]" ops]
      rng_calls_check [OF assms(1), of "enable_check log (new_with_seed ops seed)" log 0 ops]
    by (auto simp: enable_log_def enable_check_def new_with_seed_def take_log_def)
qed

definition demo_rng :: "(nat, nat) rng_ops" where
  "demo_rng = \<lparr>rng_seed = unat, rng_u8 = (\<lambda>g. (of_nat g, g + 1)), rng_u64 = (\<lambda>g. (of_nat g, g + 3)),
     rng_range = (\<lambda>lo hi g. (lo + g mod (hi - lo), g + 1)), rng_bool = (\<lambda>p g. (g mod 2 = p, g + 1)),
     rng_weighted = (\<lambda>ws g. (if ws = [] then None else Some (g mod length ws), g + 1))\<rparr>"

lemma demo_rng_ok: "rng_ok demo_rng"
proof -
  have "lo + g mod (hi - lo) < hi" if "lo < hi" for lo hi g :: nat
    using that mod_less_divisor [of "hi - lo" g] by linarith
  then show ?thesis by (auto simp: rng_ok_def demo_rng_def)
qed

theorem replay_accepted_witness:
  "\<exists>log gr. rng_calls demo_rng [(rng_u64 demo_rng, None), (rng_u64 demo_rng, None)]
     (enable_check log (new_with_seed demo_rng 5)) = Ret ([5, 8], gr) \<and> length log = 2"
proof -
  let ?cs = "[(rng_u64 demo_rng, None), (rng_u64 demo_rng, None)]"
  have cs: "clocks_readable ?cs" by (simp add: clocks_readable_def)
  let ?gr0 = "enable_log (new_with_seed demo_rng 5)"
  have "draws ?cs (gr_rng ?gr0) = [5, 8]"
    by (simp add: enable_log_def new_with_seed_def demo_rng_def)
  moreover have "gr_check ?gr0 = None" "gr_log ?gr0 = Some []"
    by (simp_all add: enable_log_def new_with_seed_def)
  ultimately obtain gr l where gr: "rng_calls demo_rng ?cs ?gr0 = Ret ([5, 8], gr)"
    and l: "gr_log gr = Some l"
    using rng_calls_log [OF cs, of ?gr0 "[]" demo_rng] by (simp del: rng_calls.simps draws.simps)
  from l have "take_log gr = (Some l, gr\<lparr>gr_log := None\<rparr>)" by (simp add: take_log_def)
  from replay_accepted [OF cs gr this] show ?thesis by (auto simp del: rng_calls.simps)
qed

text \<open>The determinism check is exact: a run checked against a log is accepted, with the values
  of the unchecked run, precisely when the bytes it observes are a prefix of the log; at the first
  byte that differs, or past the log's end, it panics. (A run that draws less than the log is
  accepted.)\<close>

theorem check_accepts_prefix:
  assumes "clocks_readable cs" "gr_log gr = None"
  shows "rng_calls ops cs (enable_check log gr) =
    (if prefix (draw_trace ops cs (gr_rng gr)) log
     then Ret (draws cs (gr_rng gr), gr\<lparr>gr_rng := final_state cs (gr_rng gr), gr_check := Some (log, length cs)\<rparr>)
     else Panic NonDeterminism)"
  using rng_calls_check [OF assms(1), of "enable_check log gr" log 0 ops] assms(2)
  by (simp add: enable_check_def)

lemma hash_u128_0 [simp]: "hash_u128 0 = 0"
proof -
  have "fold (\<lambda>i a. xor a (ucast (drop_bit (8 * i) (0 :: 128 word)) :: u8)) is 0 = 0" for "is"
    by (induction "is") simp_all
  then show ?thesis by (simp add: hash_u128_def)
qed

theorem check_accepts_prefix_witness:
  "rng_calls demo_rng [(rng_u64 demo_rng, None)] (enable_check [1] (new_with_seed demo_rng 5)) =
     Panic NonDeterminism"
  using check_accepts_prefix [of "[(rng_u64 demo_rng, None)]" "new_with_seed demo_rng 5" demo_rng "[1]"]
  by (simp add: clocks_readable_def new_with_seed_def demo_rng_def observe_def del: rng_calls.simps)

text \<open>Inside a runtime \<open>getrandom\<close> always fills exactly the bytes asked for, whatever the
  length, and \<open>getentropy\<close> does so up to 256 bytes and refuses more.\<close>

theorem getrandom_fills_buffer:
  assumes "gr_log gr = None" "gr_check gr = None"
  shows "\<exists>bs gr'. getrandom ops None n clk (Some gr) = Ret (Filled bs, None, clk, Some gr') \<and>
    length bs = n \<and>
    getentropy ops None n clk (Some gr) =
      (if n \<le> 256 then Ret (Some (Filled bs), None, clk, Some gr') else Ret (None, None, clk, Some gr))"
proof -
  obtain bs gr' where "getrandom_fill ops n clk gr = Ret (bs, clk, gr')"
    using getrandom_fill_quiet [OF assms] by blast
  with getrandom_fill_length [OF this] show ?thesis
    by (auto simp: getrandom_def getentropy_def)
qed

theorem getrandom_fills_buffer_witness:
  "\<exists>bs gr'. getrandom demo_rng None 11 None (Some (new_with_seed demo_rng 5)) =
     Ret (Filled bs, None, None, Some gr') \<and> length bs = 11"
  using getrandom_fills_buffer [of "new_with_seed demo_rng 5" demo_rng 11 None]
  by (auto simp: new_with_seed_def)

text \<open>Receiving from a non-empty queue returns one of its elements and removes exactly that one,
  never indexes out of range and, the generator being quiet, never fails.\<close>

theorem recv_random_removes_one:
  assumes "rng_ok ops" "ch_queue c \<noteq> []" "gr_log gr = None" "gr_check gr = None"
  shows "\<exists>x c' gr'. chan_try_recv_random ops clk gr c = Ret (Inr x, c', clk, gr') \<and>
    mset (ch_queue c) = add_mset x (mset (ch_queue c')) \<and> ch_senders c' = ch_senders c"
proof -
  let ?i = "fst (rng_range ops 0 (length (ch_queue c)) (gr_rng gr))"
  have "?i < length (ch_queue c)" using assms(1,2) by (simp add: rng_ok_def)
  then show ?thesis
    using assms mset_swap_remove [of ?i "ch_queue c"]
    by (simp add: chan_try_recv_random_def rng_with_quiet gen_range_def split_def)
qed

theorem recv_random_removes_one_witness:
  "\<exists>x c' gr'. chan_try_recv_random demo_rng None (new_with_seed demo_rng 1)
       (snd (chan_send 8 (snd (chan_send (7::nat) channel)))) = Ret (Inr x, c', None, gr') \<and>
     {#7, 8#} = add_mset x (mset (ch_queue c'))"
  using recv_random_removes_one [OF demo_rng_ok, of "snd (chan_send 8 (snd (chan_send (7::nat) channel)))"
      "new_with_seed demo_rng 1" None]
  by (auto simp: chan_send_def channel_def new_with_seed_def)

end
