(* ===== verification/Net_Config.thy ===== *)
theory Net_Config
  imports Sim_Rand
begin

text \<open>
  \<open>msim/src/sim/net/config.rs\<close>: latency distributions, the latency and the packet loss between
  two nodes. A rate (an \<open>f64\<close> that is not a NaN) is a value of the ordered type parameter
  \<open>'f\<close>; the only operations on rates are comparison and maximum. Draws act on the state of the
  rand crate's generator; the determinism log of \<open>Sim_Rand\<close>, which only observes them, is left
  out here.
\<close>

section \<open>Latency\<close>

datatype latency_dist =
    Constant duration
  | Uniform duration duration
  | Compound "(u32 \<times> latency_dist) list"

text \<open>\<open>scale\<close> is the conversion \<open>(w * 10000.0) as u32\<close> of a floating-point weight.\<close>

definition compound :: "('f \<Rightarrow> u32) \<Rightarrow> ('f \<times> latency_dist) list \<Rightarrow> latency_dist" where
  "compound scale ds = Compound (map (\<lambda>(w, d). (scale w, d)) ds)"

text \<open>\<open>bimodal\<close> asserts that the frequency is strictly between 0 and 1.\<close>

definition bimodal ::
    "('f::{linorder,zero,one,minus} \<Rightarrow> u32) \<Rightarrow> duration \<times> duration \<Rightarrow> duration \<times> duration \<Rightarrow> 'f \<Rightarrow> latency_dist run"
where
  "bimodal scale main exceptional freq =
     bind_run (assert_run (0 < freq \<and> freq < 1) AssertFailed) (\<lambda>_.
       Ret (compound scale [(1 - freq, Uniform (fst main) (snd main)),
                            (freq, Uniform (fst exceptional) (snd exceptional))]))"

function sample ::
    "('g, 'f) rng_ops \<Rightarrow> latency_dist \<Rightarrow> 'g \<Rightarrow> (duration \<times> 'g) run" where
  "sample ops (Constant d) g = Ret (d, g)"
| "sample ops (Uniform lo hi) g = gen_range ops lo hi g"
| "sample ops (Compound ds) g =
     (case rng_weighted ops (map fst ds) g of
        (None, g') \<Rightarrow> Panic UnwrapNone
      | (Some i, g') \<Rightarrow>
          if i < length ds then sample ops (snd (ds ! i)) g' else Panic OutOfRange)"
  by pat_completeness auto

termination
proof (relation "measure (\<lambda>(ops, d, g). size d)")
  fix ds :: "(u32 \<times> latency_dist) list" and i :: nat
  have "size (snd (ds ! i)) \<le> size_list (size_prod (\<lambda>_. 0) size) ds" if "i < length ds"
    using that
  proof (induction ds arbitrary: i)
    case (Cons d ds)
    show ?case
    proof (cases i)
      case 0
      then show ?thesis by (cases d) simp
    next
      case (Suc j)
      then show ?thesis using Cons.IH [of j] Cons.prems by simp
    qed
  qed simp
  then show "i < length ds \<Longrightarrow> ((ops :: ('g, 'f) rng_ops, snd (ds ! i), g' :: 'g), ops, Compound ds, g :: 'g)
      \<in> measure (\<lambda>(ops, d, g). size d)" for ops g g' by (simp add: less_Suc_eq_le)
qed auto

text \<open>
  \<open>InterNodeLatency\<close> is a trait: a value of it is its \<open>sample\<close> method, a function of the
  generator and the two nodes. The two implementations of the source follow.
\<close>

type_synonym 'g inter_node_latency = "'g \<Rightarrow> node_id \<Rightarrow> node_id \<Rightarrow> (duration option \<times> 'g) run"

type_synonym link_map = "(node_id \<times> node_id) \<rightharpoonup> latency_dist"

definition with_symmetric_link :: "node_id \<Rightarrow> node_id \<Rightarrow> latency_dist \<Rightarrow> link_map \<Rightarrow> link_map" where
  "with_symmetric_link a b d m = m((a, b) \<mapsto> d, (b, a) \<mapsto> d)"

definition sample_some :: "('g, 'f) rng_ops \<Rightarrow> latency_dist \<Rightarrow> 'g \<Rightarrow> (duration option \<times> 'g) run" where
  "sample_some ops d g = bind_run (sample ops d g) (\<lambda>(t, g). Ret (Some t, g))"

definition link_map_sample :: "('g, 'f) rng_ops \<Rightarrow> link_map \<Rightarrow> 'g inter_node_latency" where
  "link_map_sample ops m g a b =
     (case m (a, b) of
        Some d \<Rightarrow> sample_some ops d g
      | None \<Rightarrow> (case m (b, a) of Some d \<Rightarrow> sample_some ops d g | None \<Rightarrow> Ret (None, g)))"

type_synonym node_map = "node_id \<rightharpoonup> latency_dist"

definition with_node :: "node_id \<Rightarrow> latency_dist \<Rightarrow> node_map \<Rightarrow> node_map" where
  "with_node n d m = m(n \<mapsto> d)"

definition node_map_sample :: "('g, 'f) rng_ops \<Rightarrow> node_map \<Rightarrow> 'g inter_node_latency" where
  "node_map_sample ops m g a b =
     (case (m a, m b) of
        (Some da, Some db) \<Rightarrow>
          bind_run (sample ops da g) (\<lambda>(ta, g). bind_run (sample ops db g) (\<lambda>(tb, g).
            Ret (Some (max ta tb), g)))
      | (Some da, None) \<Rightarrow> sample_some ops da g
      | (None, Some db) \<Rightarrow> sample_some ops db g
      | (None, None) \<Rightarrow> Ret (None, g))"

record 'g latency_config =
  default_latency :: latency_dist
  loopback_latency :: latency_dist
  inter_node_latency :: "'g inter_node_latency option"

definition latency_config_default :: "'g latency_config" where
  "latency_config_default =
     \<lparr>default_latency = Uniform 1000000 10000000, loopback_latency = Uniform 1000 10000,
      inter_node_latency = None\<rparr>"

definition get_latency ::
    "('g, 'f) rng_ops \<Rightarrow> 'g latency_config \<Rightarrow> 'g \<Rightarrow> node_id \<Rightarrow> node_id \<Rightarrow> (duration \<times> 'g) run" where
  "get_latency ops c g a b =
     (if a = b then sample ops (loopback_latency c) g
      else bind_run (case inter_node_latency c of None \<Rightarrow> Ret (None, g) | Some f \<Rightarrow> f g a b)
             (\<lambda>(t, g). case t of Some t \<Rightarrow> Ret (t, g) | None \<Rightarrow> sample ops (default_latency c) g))"

section \<open>Packet loss\<close>

type_synonym ('g, 'f) node_packet_loss = "'g \<Rightarrow> node_id \<Rightarrow> node_id \<Rightarrow> 'f option \<times> 'g"

definition node_packet_loss_map :: "(node_id \<rightharpoonup> 'f::linorder) \<Rightarrow> ('g, 'f) node_packet_loss" where
  "node_packet_loss_map m g a b =
     (case (m a, m b) of
        (Some p, Some q) \<Rightarrow> Some (max p q)
      | (Some p, None) \<Rightarrow> Some p
      | (None, Some q) \<Rightarrow> Some q
      | (None, None) \<Rightarrow> None, g)"

record ('g, 'f) packet_loss_config =
  loopback_packet_loss_rate :: 'f
  default_packet_loss_rate :: 'f
  node_packet_loss_rate :: "('g, 'f) node_packet_loss option"

definition packet_loss_default :: "('g, 'f::zero) packet_loss_config" where
  "packet_loss_default =
     \<lparr>loopback_packet_loss_rate = 0, default_packet_loss_rate = 0, node_packet_loss_rate = None\<rparr>"

definition packet_loss_rate ::
    "('g, 'f) packet_loss_config \<Rightarrow> 'g \<Rightarrow> node_id \<Rightarrow> node_id \<Rightarrow> ('f \<times> 'g) run" where
  "packet_loss_rate c g a b =
     (if a = b then Ret (loopback_packet_loss_rate c, g)
      else (case node_packet_loss_rate c of
              None \<Rightarrow> Ret (default_packet_loss_rate c, g)
            | Some f \<Rightarrow> (case f g a b of
                (r, g) \<Rightarrow> bind_run (expect UnwrapNone r) (\<lambda>p. Ret (p, g)))))"

record ('g, 'f) network_config =
  packet_loss :: "('g, 'f) packet_loss_config"
  tcp_packet_loss :: "('g, 'f) packet_loss_config"
  latency :: "'g latency_config"

definition network_config_default :: "('g, 'f::zero) network_config" where
  "network_config_default =
     \<lparr>packet_loss = packet_loss_default, tcp_packet_loss = packet_loss_default,
      latency = latency_config_default\<rparr>"

section \<open>What a distribution can give\<close>

text \<open>
  \<open>in_support d t\<close>: the delays a distribution allows. \<open>dist_ok\<close>: ranges are not empty, and a
  compound distribution has a component of non-zero weight.
\<close>

fun in_support :: "latency_dist \<Rightarrow> duration \<Rightarrow> bool" where
  "in_support (Constant d) t \<longleftrightarrow> t = d"
| "in_support (Uniform lo hi) t \<longleftrightarrow> lo \<le> t \<and> t < hi"
| "in_support (Compound ds) t \<longleftrightarrow> (\<exists>d \<in> set ds. in_support (snd d) t)"

fun dist_ok :: "latency_dist \<Rightarrow> bool" where
  "dist_ok (Constant d) \<longleftrightarrow> True"
| "dist_ok (Uniform lo hi) \<longleftrightarrow> lo < hi"
| "dist_ok (Compound ds) \<longleftrightarrow> (\<exists>d \<in> set ds. fst d \<noteq> 0) \<and> (\<forall>d \<in> set ds. dist_ok (snd d))"

text \<open>\<open>choose_weighted\<close> succeeds on a list with a non-zero weight.\<close>

definition weighted_ok :: "('g, 'f) rng_ops \<Rightarrow> bool" where
  "weighted_ok ops \<longleftrightarrow> (\<forall>ws g. (\<exists>w \<in> set ws. w \<noteq> 0) \<longrightarrow> fst (rng_weighted ops ws g) \<noteq> None)"

lemma sample_in_support:
  "rng_ok ops \<Longrightarrow> sample ops d g = Ret (t, g') \<Longrightarrow> in_support d t"
proof (induction ops d g arbitrary: t g' rule: sample.induct)
  case (2 ops lo hi g)
  from 2(2) have "lo < hi" "t = fst (rng_range ops lo hi g)"
    by (auto simp: gen_range_def split: if_splits)
  with 2(1) show ?case by (simp add: rng_ok_def)
next
  case (3 ops ds g)
  from "3.prems"(2) obtain i g1 where w: "rng_weighted ops (map fst ds) g = (Some i, g1)"
    and i: "i < length ds" and s: "sample ops (snd (ds ! i)) g1 = Ret (t, g')"
    by (auto split: prod.splits option.splits if_splits)
  from "3.IH" [OF w [symmetric] refl i "3.prems"(1) s] show ?case using i nth_mem by auto
qed simp

lemma sample_total:
  "rng_ok ops \<Longrightarrow> weighted_ok ops \<Longrightarrow> dist_ok d \<Longrightarrow> \<exists>t g'. sample ops d g = Ret (t, g')"
proof (induction ops d g rule: sample.induct)
  case (2 ops lo hi g)
  then show ?case by (cases "rng_range ops lo hi g") (simp add: gen_range_def)
next
  case (3 ops ds g)
  have "\<exists>w \<in> set (map fst ds). w \<noteq> 0" using "3.prems"(3) by force
  then obtain i g1 where w: "rng_weighted ops (map fst ds) g = (Some i, g1)"
    using "3.prems"(2) unfolding weighted_ok_def by (metis not_None_eq prod.collapse)
  then have i: "i < length ds" using "3.prems"(1) unfolding rng_ok_def by (metis fst_conv length_map)
  then have "dist_ok (snd (ds ! i))" using "3.prems"(3) nth_mem by auto
  with "3.IH" [OF w [symmetric] refl i "3.prems"(1,2)] w i show ?case by simp
qed simp

section \<open>Properties\<close>

text \<open>The latency of a packet is always defined, and comes from the right distribution: the
  loopback distribution for a node talking to itself; otherwise the one the link map holds for
  the link or, failing that, for the reverse link; otherwise the default. Every delay is one the
  chosen distribution allows.\<close>

theorem link_latency_source:
  fixes c :: "'g latency_config"
  defines "chosen \<equiv> \<lambda>(m::link_map) a b. if a = b then loopback_latency c
    else case m (a, b) of Some d \<Rightarrow> d
         | None \<Rightarrow> (case m (b, a) of Some d \<Rightarrow> d | None \<Rightarrow> default_latency c)"
  assumes "rng_ok ops" "weighted_ok ops"
    and "inter_node_latency c = Some (link_map_sample ops m)" "dist_ok (chosen m a b)"
  shows "\<exists>t g'. get_latency ops c g a b = Ret (t, g') \<and> in_support (chosen m a b) t"
proof -
  obtain t g' where s: "sample ops (chosen m a b) g = Ret (t, g')"
    using sample_total [OF assms(2,3,5)] by blast
  then have "get_latency ops c g a b = Ret (t, g')"
    using assms(4)
    by (auto simp: get_latency_def link_map_sample_def sample_some_def chosen_def split: option.splits)
  with sample_in_support [OF assms(2) s] show ?thesis by simp
qed

lemma demo_weighted_ok: "weighted_ok demo_rng"
  by (auto simp: weighted_ok_def demo_rng_def)

theorem link_latency_source_witness:
  "\<exists>t g'. get_latency demo_rng
       (latency_config_default\<lparr>inter_node_latency :=
          Some (link_map_sample demo_rng (with_symmetric_link 1 2 (Uniform 5 9) Map.empty))\<rparr>) 7 2 1 =
     Ret (t, g') \<and> 5 \<le> t \<and> t < 9"
  using link_latency_source [OF demo_rng_ok demo_weighted_ok,
      of "latency_config_default\<lparr>inter_node_latency :=
          Some (link_map_sample demo_rng (with_symmetric_link 1 2 (Uniform 5 9) Map.empty))\<rparr>"
      "with_symmetric_link 1 2 (Uniform 5 9) Map.empty" 2 1 7]
  by (simp add: with_symmetric_link_def)

text \<open>The fallback to the default loss rate is not there: when per-node rates are configured
  and none is known for either of two different nodes, asking for the rate panics instead of
  giving the default rate; with any rate known it is the larger of the two.\<close>

theorem packet_loss_no_fallback:
  assumes "node_packet_loss_rate c = Some (node_packet_loss_map m)" "a \<noteq> b"
  shows "packet_loss_rate c g a b =
    (if m a = None \<and> m b = None then Panic UnwrapNone
     else Ret (Max (\<Union>n \<in> {a, b}. set_option (m n)), g))"
  using assms by (auto simp: packet_loss_rate_def node_packet_loss_map_def split: option.splits)

theorem packet_loss_no_fallback_witness:
  "packet_loss_rate (packet_loss_default\<lparr>node_packet_loss_rate :=
     Some (node_packet_loss_map [3 \<mapsto> (1::nat)])\<rparr>) (0::nat) 1 2 = Panic UnwrapNone"
  using packet_loss_no_fallback [of "packet_loss_default\<lparr>node_packet_loss_rate :=
     Some (node_packet_loss_map [3 \<mapsto> (1::nat)])\<rparr>" "[3 \<mapsto> (1::nat)]" 1 2 "0::nat"]
  by simp

end
