(* ===== verification/Mailbox.thy ===== *)
theory Mailbox
  imports Net_Config
begin

text \<open>
  The second half of \<open>msim/src/sim/net/network.rs\<close>: addresses, messages, and the mailbox behind
  every bound socket. The data of a payload (a \<open>Box<dyn Any>\<close>) and a \<open>Waker\<close> are type parameters.
  A one-shot channel of the futures crate is a number; whether its receiver still exists is the
  argument \<open>alive\<close>: sending hands the message over exactly when it does, and otherwise gives it
  back.
\<close>

section \<open>Addresses and messages\<close>

datatype ip_addr = IPv4 "32 word" | IPv6 "128 word"

fun is_loopback :: "ip_addr \<Rightarrow> bool" where
  "is_loopback (IPv4 a) \<longleftrightarrow> drop_bit 24 a = 127"
| "is_loopback (IPv6 a) \<longleftrightarrow> a = 1"

fun is_unspecified :: "ip_addr \<Rightarrow> bool" where
  "is_unspecified (IPv4 a) \<longleftrightarrow> a = 0"
| "is_unspecified (IPv6 a) \<longleftrightarrow> a = 0"

type_synonym socket_addr = "ip_addr \<times> u16"

datatype payload_type = TcpSignalConnect | TcpData | Udp

record 'd payload =
  pl_ty :: payload_type
  pl_data :: 'd

definition new_udp :: "'d \<Rightarrow> 'd payload" where
  "new_udp d = \<lparr>pl_ty = Udp, pl_data = d\<rparr>"

definition new_tcp_connect :: "'d \<Rightarrow> 'd payload" where
  "new_tcp_connect d = \<lparr>pl_ty = TcpSignalConnect, pl_data = d\<rparr>"

definition new_tcp_data :: "'d \<Rightarrow> 'd payload" where
  "new_tcp_data d = \<lparr>pl_ty = TcpData, pl_data = d\<rparr>"

definition is_udp :: "'d payload \<Rightarrow> bool" where
  "is_udp p \<longleftrightarrow> (case pl_ty p of Udp \<Rightarrow> True | _ \<Rightarrow> False)"

definition is_tcp_data :: "'d payload \<Rightarrow> bool" where
  "is_tcp_data p \<longleftrightarrow> (case pl_ty p of TcpData \<Rightarrow> True | _ \<Rightarrow> False)"

definition is_tcp_connect :: "'d payload \<Rightarrow> bool" where
  "is_tcp_connect p \<longleftrightarrow> (case pl_ty p of TcpSignalConnect \<Rightarrow> True | _ \<Rightarrow> False)"

record 'd message =
  msg_tag :: u64
  msg_data :: "'d payload"
  msg_from :: socket_addr

section \<open>The mailbox\<close>

record ('d, 'w) mailbox =
  mb_registered :: "(u64 \<times> nat) list"
  mb_msgs :: "'d message list"
  mb_wakers :: "(u64 \<times> 'w) list"
  mb_sync_connections :: "socket_addr list"

definition mailbox_default :: "('d, 'w) mailbox" where
  "mailbox_default = \<lparr>mb_registered = [], mb_msgs = [], mb_wakers = [], mb_sync_connections = []\<rparr>"

text \<open>Each operation that wakes tasks returns the wakers it called, in order.\<close>

definition wake_where ::
    "(u64 \<Rightarrow> bool) \<Rightarrow> ('d, 'w) mailbox \<Rightarrow> 'w list \<times> ('d, 'w) mailbox" where
  "wake_where P mb =
     (case drain_rev (\<lambda>x. P (fst x)) (length (mb_wakers mb)) (mb_wakers mb) of
        (out, rest) \<Rightarrow> (map snd out, mb\<lparr>mb_wakers := rest\<rparr>))"

definition wake_tcp_connection :: "u32 \<Rightarrow> ('d, 'w) mailbox \<Rightarrow> 'w list \<times> ('d, 'w) mailbox" where
  "wake_tcp_connection tcp_id mb = wake_where (\<lambda>tag. drop_bit 32 tag = ucast tcp_id) mb"

text \<open>
  The loop over the waiting receivers: a receiver with the message's tag is taken out, and the
  message is offered to it; if that receiver is gone the loop goes on at the same index.
\<close>

function offer ::
    "(nat \<Rightarrow> bool) \<Rightarrow> u64 \<Rightarrow> nat \<Rightarrow> (u64 \<times> nat) list \<Rightarrow> nat option \<times> (u64 \<times> nat) list" where
  "offer alive tag i reg =
     (if i < length reg then
        if fst (reg ! i) = tag then
          if alive (snd (reg ! i)) then (Some (snd (reg ! i)), swap_remove i reg)
          else offer alive tag i (swap_remove i reg)
        else offer alive tag (i + 1) reg
      else (None, reg))"
  by pat_completeness auto
termination
  by (relation "measure (\<lambda>(alive, tag, i, reg). length reg - i)") auto

declare offer.simps [simp del]

text \<open>\<open>deliver\<close>: the wakers called, the receiver that got the message, and the mailbox.\<close>

definition deliver ::
    "(nat \<Rightarrow> bool) \<Rightarrow> 'd message \<Rightarrow> ('d, 'w) mailbox \<Rightarrow> 'w list \<times> nat option \<times> ('d, 'w) mailbox" where
  "deliver alive msg mb =
     (case wake_where (\<lambda>tag. tag = msg_tag msg) mb of
        (ws, mb) \<Rightarrow>
          (case offer alive (msg_tag msg) 0 (mb_registered mb) of
             (Some r, reg) \<Rightarrow> (ws, Some r, mb\<lparr>mb_registered := reg\<rparr>)
           | (None, reg) \<Rightarrow> (ws, None, mb\<lparr>mb_registered := reg, mb_msgs := mb_msgs mb @ [msg]\<rparr>)))"

definition mailbox_recv_ready :: "'w option \<Rightarrow> u64 \<Rightarrow> ('d, 'w) mailbox \<Rightarrow> bool \<times> ('d, 'w) mailbox" where
  "mailbox_recv_ready cx tag mb =
     (let ready = list_ex (\<lambda>m. tag = msg_tag m) (mb_msgs mb)
      in case cx of
           Some w \<Rightarrow> (ready, if ready then mb else mb\<lparr>mb_wakers := mb_wakers mb @ [(tag, w)]\<rparr>)
         | None \<Rightarrow> (ready, mb))"

fun position :: "('a \<Rightarrow> bool) \<Rightarrow> 'a list \<Rightarrow> nat option" where
  "position P [] = None"
| "position P (x # xs) = (if P x then Some 0 else map_option Suc (position P xs))"

definition mailbox_recv_sync :: "u64 \<Rightarrow> ('d, 'w) mailbox \<Rightarrow> 'd message option \<times> ('d, 'w) mailbox" where
  "mailbox_recv_sync tag mb =
     (case position (\<lambda>m. tag = msg_tag m) (mb_msgs mb) of
        Some i \<Rightarrow> (Some (mb_msgs mb ! i), mb\<lparr>mb_msgs := swap_remove i (mb_msgs mb)\<rparr>)
      | None \<Rightarrow> (None, mb))"

text \<open>
  \<open>recv\<close> makes a one-shot channel, here the number \<open>rx\<close>; the result is the message it already
  holds, if any.
\<close>

definition mailbox_recv :: "nat \<Rightarrow> u64 \<Rightarrow> ('d, 'w) mailbox \<Rightarrow> 'd message option \<times> ('d, 'w) mailbox" where
  "mailbox_recv rx tag mb =
     (case mailbox_recv_sync tag mb of
        (Some m, mb) \<Rightarrow> (Some m, mb)
      | (None, mb) \<Rightarrow> (None, mb\<lparr>mb_registered := mb_registered mb @ [(tag, rx)]\<rparr>))"

definition mailbox_signal_connect :: "socket_addr \<Rightarrow> ('d, 'w) mailbox \<Rightarrow> ('d, 'w) mailbox" where
  "mailbox_signal_connect src mb = mb\<lparr>mb_sync_connections := mb_sync_connections mb @ [src]\<rparr>"

definition mailbox_accept_connect ::
    "('d, 'w) mailbox \<Rightarrow> socket_addr option \<times> ('d, 'w) mailbox" where
  "mailbox_accept_connect mb =
     (case mb_sync_connections mb of
        [] \<Rightarrow> (None, mb)
      | a # as \<Rightarrow> (Some a, mb\<lparr>mb_sync_connections := as\<rparr>))"

section \<open>Lemmas\<close>

lemma position_Some: "position P xs = Some i \<Longrightarrow> i < length xs \<and> P (xs ! i)"
  by (induction xs arbitrary: i) (auto split: if_splits)

lemma position_None: "position P xs = None \<longleftrightarrow> (\<forall>x \<in> set xs. \<not> P x)"
  by (induction xs) auto

lemma wake_where_spec:
  assumes "wake_where P mb = (ws, mb')"
  shows "mset ws = image_mset snd {#x \<in># mset (mb_wakers mb). P (fst x)#} \<and>
    mset (mb_wakers mb') = {#x \<in># mset (mb_wakers mb). \<not> P (fst x)#} \<and>
    mb' = mb\<lparr>mb_wakers := mb_wakers mb'\<rparr>"
proof -
  obtain out rest where dr: "drain_rev (\<lambda>x. P (fst x)) (length (mb_wakers mb)) (mb_wakers mb) = (out, rest)"
    by fastforce
  with assms have "ws = map snd out" "mb' = mb\<lparr>mb_wakers := rest\<rparr>"
    by (simp_all add: wake_where_def)
  then show ?thesis using drain_rev_all [OF dr] by simp
qed

text \<open>
  What the offering loop does to the waiting receivers: those it passes over keep waiting, those
  it removes had the tag, and it hands the message to a live one if there is one.
\<close>

lemma offer_spec:
  assumes "offer alive tag i reg = (r, reg')" "\<forall>x \<in> set (take i reg). fst x \<noteq> tag"
  shows "(\<forall>x. fst x \<noteq> tag \<longrightarrow> count (mset reg') x = count (mset reg) x) \<and>
    (case r of
       None \<Rightarrow> (\<forall>x \<in> set reg. fst x = tag \<longrightarrow> \<not> alive (snd x)) \<and> (\<forall>x \<in> set reg'. fst x \<noteq> tag)
     | Some s \<Rightarrow> (tag, s) \<in> set reg \<and> alive s) \<and>
    (\<forall>x. alive (snd x) \<longrightarrow> r \<noteq> Some (snd x) \<longrightarrow> count (mset reg') x = count (mset reg) x)"
  using assms
proof (induction alive tag i reg rule: offer.induct)
  case (1 alive tag i reg)
  consider "length reg \<le> i" | "i < length reg" "fst (reg ! i) \<noteq> tag"
    | "i < length reg" "fst (reg ! i) = tag" "alive (snd (reg ! i))"
    | "i < length reg" "fst (reg ! i) = tag" "\<not> alive (snd (reg ! i))" by linarith
  then show ?case
  proof cases
    case 1
    then have "r = None" "reg' = reg" using "1.prems"(1) by (simp_all add: offer.simps)
    with 1 "1.prems"(2) show ?thesis by auto
  next
    case 2
    then have "offer alive tag (i + 1) reg = (r, reg')" using "1.prems"(1) by (simp add: offer.simps)
    moreover have "\<forall>x \<in> set (take (i + 1) reg). fst x \<noteq> tag"
      using 2 "1.prems"(2) by (auto simp: take_Suc_conv_app_nth)
    ultimately show ?thesis using "1.IH"(2) 2 by blast
  next
    case 3
    then have r: "r = Some (snd (reg ! i))" "reg' = swap_remove i reg"
      using "1.prems"(1) by (simp_all add: offer.simps)
    have ms: "count (mset reg) x = (if x = reg ! i then 1 else 0) + count (mset reg') x" for x
      using count_swap_remove [OF 3(1)] r(2) by blast
    have "(tag, snd (reg ! i)) \<in> set reg" using 3 by (metis nth_mem prod.collapse)
    then show ?thesis using 3 r(1) ms by (auto; metis fst_conv snd_conv)
  next
    case 4
    have rec: "offer alive tag i (swap_remove i reg) = (r, reg')"
      using 4 "1.prems"(1) by (subst (asm) offer.simps) simp
    have ms: "count (mset reg) x = count (mset (swap_remove i reg)) x"
      if "fst x \<noteq> tag \<or> alive (snd x)" for x
      using count_swap_remove [OF 4(1), of x] that 4 by auto
    have tk: "take i (swap_remove i reg) = take i reg"
      using 4(1) by (cases reg rule: rev_cases) auto
    have "set reg = insert (reg ! i) (set (swap_remove i reg))"
      using mset_swap_remove [OF 4(1)] by (metis set_mset_add_mset_insert set_mset_mset)
    with "1.IH"(1) [OF 4(1,2,3) rec] 4 "1.prems"(2) show ?thesis
      using ms by (auto simp: tk split: option.splits)
  qed
qed

lemma offer_subset: "offer alive tag i reg = (r, reg') \<Longrightarrow> set reg' \<subseteq> set reg"
proof (induction alive tag i reg rule: offer.induct)
  case (1 alive tag i reg)
  note unf = "1.prems" [unfolded offer.simps [of alive tag i reg]]
  show ?case
  proof (cases "i < length reg")
    case False
    with unf show ?thesis by simp
  next
    case True
    with unf 1 set_swap_remove [OF True] show ?thesis by (fastforce split: if_splits)
  qed
qed

lemma deliver_parts:
  assumes "deliver alive msg mb = (ws, r, mb')"
  obtains mb1 reg where "wake_where (\<lambda>tag. tag = msg_tag msg) mb = (ws, mb1)"
    and "offer alive (msg_tag msg) 0 (mb_registered mb) = (r, reg)"
    and "mb' = mb1\<lparr>mb_registered := reg,
      mb_msgs := (if r = None then mb_msgs mb @ [msg] else mb_msgs mb)\<rparr>"
proof -
  obtain ws1 mb1 where wk: "wake_where (\<lambda>tag. tag = msg_tag msg) mb = (ws1, mb1)" by fastforce
  have keep: "mb1 = mb\<lparr>mb_wakers := mb_wakers mb1\<rparr>" using wake_where_spec [OF wk] by blast
  have eqs: "mb_registered mb1 = mb_registered mb" "mb_msgs mb1 = mb_msgs mb"
    by (subst keep, simp)+
  obtain r1 reg where off: "offer alive (msg_tag msg) 0 (mb_registered mb) = (r1, reg)" by fastforce
  have "ws1 = ws" "r1 = r" "mb' = mb1\<lparr>mb_registered := reg,
      mb_msgs := (if r = None then mb_msgs mb @ [msg] else mb_msgs mb)\<rparr>"
    using assms off by (auto simp: deliver_def wk eqs split: option.splits)
  with wk off that show thesis by blast
qed

lemma recv_sync_spec:
  assumes "mailbox_recv_sync tag mb = (r, mb')"
  shows "case r of
      Some m \<Rightarrow> msg_tag m = tag \<and> mset (mb_msgs mb) = add_mset m (mset (mb_msgs mb'))
    | None \<Rightarrow> (\<forall>m \<in> set (mb_msgs mb). msg_tag m \<noteq> tag) \<and> mb' = mb"
proof (cases "position (\<lambda>m. tag = msg_tag m) (mb_msgs mb)")
  case None
  then have "\<forall>m \<in> set (mb_msgs mb). msg_tag m \<noteq> tag" unfolding position_None by blast
  then show ?thesis using None assms by (auto simp: mailbox_recv_sync_def)
next
  case (Some i)
  with position_Some [OF Some] mset_swap_remove [of i "mb_msgs mb"] assms show ?thesis
    by (auto simp: mailbox_recv_sync_def)
qed

section \<open>Properties\<close>

text \<open>C12: a delivered message goes to exactly one place: to a live receiver waiting for its tag if
  there is one, and only otherwise into the mailbox. All tasks waiting for the tag are woken, no
  other task is, and no other live receiver loses its place.\<close>

theorem deliver_exactly_once:
  assumes "deliver alive msg mb = (ws, r, mb')"
  shows "(case r of
       Some rx \<Rightarrow> (msg_tag msg, rx) \<in> set (mb_registered mb) \<and> alive rx \<and> mb_msgs mb' = mb_msgs mb
     | None \<Rightarrow> \<not> (\<exists>rx. (msg_tag msg, rx) \<in> set (mb_registered mb) \<and> alive rx) \<and>
         mb_msgs mb' = mb_msgs mb @ [msg]) \<and>
    mset ws = image_mset snd {#x \<in># mset (mb_wakers mb). fst x = msg_tag msg#} \<and>
    mset (mb_wakers mb') = {#x \<in># mset (mb_wakers mb). fst x \<noteq> msg_tag msg#} \<and>
    (\<forall>t rx. alive rx \<longrightarrow> r \<noteq> Some rx \<longrightarrow>
       count (mset (mb_registered mb')) (t, rx) = count (mset (mb_registered mb)) (t, rx)) \<and>
    mb_sync_connections mb' = mb_sync_connections mb"
proof -
  obtain mb1 reg where wk: "wake_where (\<lambda>tag. tag = msg_tag msg) mb = (ws, mb1)"
    and off: "offer alive (msg_tag msg) 0 (mb_registered mb) = (r, reg)"
    and mb': "mb' = mb1\<lparr>mb_registered := reg,
      mb_msgs := (if r = None then mb_msgs mb @ [msg] else mb_msgs mb)\<rparr>"
    using deliver_parts [OF assms] .
  note w = wake_where_spec [OF wk]
  have sync: "mb_sync_connections mb1 = mb_sync_connections mb"
    by (subst conjunct2 [OF conjunct2 [OF w]]) simp
  have "(case r of
       Some rx \<Rightarrow> (msg_tag msg, rx) \<in> set (mb_registered mb) \<and> alive rx
     | None \<Rightarrow> \<not> (\<exists>rx. (msg_tag msg, rx) \<in> set (mb_registered mb) \<and> alive rx)) \<and>
    (\<forall>t rx. alive rx \<longrightarrow> r \<noteq> Some rx \<longrightarrow> count (mset reg) (t, rx) = count (mset (mb_registered mb)) (t, rx))"
    using offer_spec [OF off] by (fastforce split: option.splits)
  then show ?thesis using w by (auto simp: mb' sync split: option.splits)
qed

definition demo_msg :: "u64 \<Rightarrow> nat message" where
  "demo_msg t = \<lparr>msg_tag = t, msg_data = new_udp 7, msg_from = (IPv4 1, 9)\<rparr>"

definition demo_mailbox :: "(nat, nat) mailbox" where
  "demo_mailbox = \<lparr>mb_registered = [(4, 0), (5, 1), (5, 2)], mb_msgs = [], mb_wakers = [(5, 8), (6, 9)],
     mb_sync_connections = []\<rparr>"

theorem deliver_exactly_once_witness:
  "\<exists>ws mb'. deliver (\<lambda>rx. rx \<noteq> 1) (demo_msg 5) demo_mailbox = (ws, Some 2, mb') \<and> mset ws = {#8#}"
proof -
  obtain ws r mb' where d: "deliver (\<lambda>rx. rx \<noteq> 1) (demo_msg 5) demo_mailbox = (ws, r, mb')"
    by (metis prod_cases3)
  from deliver_exactly_once [OF d] have "r = Some 2" "mset ws = {#8#}"
    by (auto simp: demo_mailbox_def demo_msg_def split: option.splits)
  with d show ?thesis by blast
qed



end
