(* ===== verification/Network.thy ===== *)
theory Network
  imports Mailbox
begin

text \<open>
  The first half of \<open>msim/src/sim/net/network.rs\<close>: the nodes with their IP addresses, sockets and
  live TCP sessions, the routing and clogging tables, and the delivery of a message after its
  latency.

  A socket maps to the number of its mailbox. The socket holds the only strong reference to the
  mailbox, so the mailbox is in the store \<open>nw_mailboxes\<close> exactly while the socket exists, and a
  pending delivery, which holds a weak reference, finds it there or not at all; numbers are never
  used twice. Dropping a mailbox (and with it the waiting receivers and the wakers) is its
  removal from the store.
\<close>

section \<open>State\<close>

text \<open>What a timer event does when it fires: wake a task, or deliver a message to a mailbox.\<close>

datatype ('d, 'w) callback = Wake 'w | Deliver nat "'d message"

type_synonym proto = int
type_synonym socket_key = "u16 \<times> proto"

definition SOCK_STREAM :: proto where "SOCK_STREAM = 1"
definition SOCK_DGRAM :: proto where "SOCK_DGRAM = 2"

definition proto_str :: "proto \<Rightarrow> string run" where
  "proto_str p =
     (if p = SOCK_STREAM then Ret ''tcp'' else if p = SOCK_DGRAM then Ret ''udp''
      else Panic UnsupportedSocketType)"

record node =
  nd_ip :: "ip_addr option"
  nd_sockets :: "socket_key \<rightharpoonup> nat"
  live_tcp_ids :: "u32 set"
  next_ephemeral_port :: u16

definition node_default :: node where
  "node_default =
     \<lparr>nd_ip = None, nd_sockets = Map.empty, live_tcp_ids = {}, next_ephemeral_port = 0x8000\<rparr>"

record ('g, 'f, 'd, 'w) network =
  nw_rand :: 'g
  nw_time :: "('d, 'w) callback time_state"
  nw_config :: "('g, 'f) network_config"
  msg_count :: u64
  nodes :: "node_id \<rightharpoonup> node"
  addr_to_node :: "ip_addr \<rightharpoonup> node_id"
  clogged_node :: "node_id set"
  clogged_link :: "(node_id \<times> node_id) set"
  nw_mailboxes :: "nat \<rightharpoonup> ('d, 'w) mailbox"
  nw_next_mb :: nat

definition network_new ::
    "'g \<Rightarrow> ('d, 'w) callback time_state \<Rightarrow> ('g, 'f) network_config \<Rightarrow> ('g, 'f, 'd, 'w) network" where
  "network_new rand time config =
     \<lparr>nw_rand = rand, nw_time = time, nw_config = config, msg_count = 0, nodes = Map.empty,
      addr_to_node = Map.empty, clogged_node = {}, clogged_link = {}, nw_mailboxes = Map.empty,
      nw_next_mb = 0\<rparr>"

text \<open>\<open>Stat\<close> is the count of messages.\<close>

definition stat :: "('g, 'f, 'd, 'w) network \<Rightarrow> u64" where
  "stat nw = msg_count nw"

definition update_config ::
    "(('g, 'f) network_config \<Rightarrow> ('g, 'f) network_config) \<Rightarrow> ('g, 'f, 'd, 'w) network \<Rightarrow> ('g, 'f, 'd, 'w) network" where
  "update_config f nw = nw\<lparr>nw_config := f (nw_config nw)\<rparr>"

section \<open>Nodes\<close>

text \<open>\<open>cur\<close> is the node of the running task, what \<open>plugin::node()\<close> returns.\<close>

definition get_node_for_addr :: "node_id \<Rightarrow> ip_addr \<Rightarrow> ('g, 'f, 'd, 'w) network \<Rightarrow> node_id option" where
  "get_node_for_addr cur ip nw = (if is_loopback ip then Some cur else addr_to_node nw ip)"

text \<open>Dropping the sockets of a node drops their mailboxes.\<close>

definition drop_sockets ::
    "(socket_key \<rightharpoonup> nat) \<Rightarrow> ('g, 'f, 'd, 'w) network \<Rightarrow> ('g, 'f, 'd, 'w) network" where
  "drop_sockets socks nw =
     nw\<lparr>nw_mailboxes := drop_keys (\<lambda>i. i \<in> ran socks) (nw_mailboxes nw)\<rparr>"

definition insert_node :: "node_id \<Rightarrow> ('g, 'f, 'd, 'w) network \<Rightarrow> ('g, 'f, 'd, 'w) network" where
  "insert_node n nw =
     (let nw' = (case nodes nw n of None \<Rightarrow> nw | Some old \<Rightarrow> drop_sockets (nd_sockets old) nw)
      in nw'\<lparr>nodes := (nodes nw')(n \<mapsto> node_default)\<rparr>)"

definition reset_node :: "node_id \<Rightarrow> ('g, 'f, 'd, 'w) network \<Rightarrow> ('g, 'f, 'd, 'w) network run" where
  "reset_node n nw =
     bind_run (expect NodeNotFound (nodes nw n)) (\<lambda>nd.
       Ret ((drop_sockets (nd_sockets nd) nw)
              \<lparr>nodes := (nodes nw)(n \<mapsto> nd\<lparr>nd_sockets := Map.empty\<rparr>)\<rparr>))"

definition delete_node :: "node_id \<Rightarrow> ('g, 'f, 'd, 'w) network \<Rightarrow> ('g, 'f, 'd, 'w) network run" where
  "delete_node n nw =
     bind_run (expect NodeNotFound (nodes nw n)) (\<lambda>nd.
       Ret ((drop_sockets (nd_sockets nd) nw)
              \<lparr>nodes := (nodes nw)(n := None),
               addr_to_node := (case nd_ip nd of None \<Rightarrow> addr_to_node nw
                                | Some ip \<Rightarrow> (addr_to_node nw)(ip := None)),
               clogged_node := clogged_node nw - {n},
               clogged_link := {l \<in> clogged_link nw. fst l \<noteq> n \<and> snd l \<noteq> n}\<rparr>))"

definition set_ip :: "node_id \<Rightarrow> ip_addr \<Rightarrow> ('g, 'f, 'd, 'w) network \<Rightarrow> ('g, 'f, 'd, 'w) network run" where
  "set_ip n ip nw =
     bind_run (expect NodeNotFound (nodes nw n)) (\<lambda>nd.
       let a = (case nd_ip nd of None \<Rightarrow> addr_to_node nw | Some old \<Rightarrow> (addr_to_node nw)(old := None))
       in if a ip \<noteq> None then Panic IpConflict
          else Ret (nw\<lparr>nodes := (nodes nw)(n \<mapsto> nd\<lparr>nd_ip := Some ip\<rparr>), addr_to_node := a(ip \<mapsto> n)\<rparr>))"

definition get_ip :: "node_id \<Rightarrow> ('g, 'f, 'd, 'w) network \<Rightarrow> ip_addr option run" where
  "get_ip n nw = bind_run (expect NodeNotFound (nodes nw n)) (\<lambda>nd. Ret (nd_ip nd))"

definition clog_node :: "node_id \<Rightarrow> ('g, 'f, 'd, 'w) network \<Rightarrow> ('g, 'f, 'd, 'w) network run" where
  "clog_node n nw =
     bind_run (assert_run (nodes nw n \<noteq> None) AssertFailed) (\<lambda>_.
       Ret (nw\<lparr>clogged_node := insert n (clogged_node nw)\<rparr>))"

definition unclog_node :: "node_id \<Rightarrow> ('g, 'f, 'd, 'w) network \<Rightarrow> ('g, 'f, 'd, 'w) network run" where
  "unclog_node n nw =
     bind_run (assert_run (nodes nw n \<noteq> None) AssertFailed) (\<lambda>_.
       Ret (nw\<lparr>clogged_node := clogged_node nw - {n}\<rparr>))"

definition clog_link :: "node_id \<Rightarrow> node_id \<Rightarrow> ('g, 'f, 'd, 'w) network \<Rightarrow> ('g, 'f, 'd, 'w) network run" where
  "clog_link src dst nw =
     bind_run (assert_run (nodes nw src \<noteq> None) AssertFailed) (\<lambda>_.
     bind_run (assert_run (nodes nw dst \<noteq> None) AssertFailed) (\<lambda>_.
       Ret (nw\<lparr>clogged_link := insert (src, dst) (clogged_link nw)\<rparr>)))"

definition unclog_link :: "node_id \<Rightarrow> node_id \<Rightarrow> ('g, 'f, 'd, 'w) network \<Rightarrow> ('g, 'f, 'd, 'w) network run" where
  "unclog_link src dst nw =
     bind_run (assert_run (nodes nw src \<noteq> None) AssertFailed) (\<lambda>_.
     bind_run (assert_run (nodes nw dst \<noteq> None) AssertFailed) (\<lambda>_.
       Ret (nw\<lparr>clogged_link := clogged_link nw - {(src, dst)}\<rparr>)))"

section \<open>Sockets\<close>

text \<open>The first free port from \<open>next_ephemeral_port\<close> to \<open>u16::MAX\<close>.\<close>

definition find_port :: "proto \<Rightarrow> node \<Rightarrow> u16 option" where
  "find_port proto nd =
     List.find (\<lambda>p. nd_sockets nd (p, proto) = None)
       (map of_nat [unat (next_ephemeral_port nd)..<65536])"

text \<open>\<open>SocketAddr::ip\<close> of the address to bind, resolved against the node's own.\<close>

definition resolve_ip :: "node \<Rightarrow> ip_addr \<Rightarrow> ip_addr io_result run" where
  "resolve_ip nd ip =
     (if is_unspecified ip then
        (case nd_ip nd of Some i \<Rightarrow> Ret (Ok i) | None \<Rightarrow> Panic Todo)
      else if is_loopback ip then Ret (Ok ip)
      else bind_run (expect NodeIpUnset (nd_ip nd)) (\<lambda>i.
             Ret (if ip \<noteq> i then Err AddrNotAvailable else Ok ip)))"

definition resolve_port :: "proto \<Rightarrow> u16 \<Rightarrow> node \<Rightarrow> (u16 \<times> node) io_result" where
  "resolve_port proto port nd =
     (if port = 0 then
        (case find_port proto nd of
           None \<Rightarrow> Err AddrInUse
         | Some p \<Rightarrow> Ok (p, nd\<lparr>next_ephemeral_port := p + 1\<rparr>))
      else Ok (port, nd))"

definition bind ::
    "node_id \<Rightarrow> proto \<Rightarrow> socket_addr \<Rightarrow> ('g, 'f, 'd, 'w) network \<Rightarrow>
     (socket_addr io_result \<times> ('g, 'f, 'd, 'w) network) run" where
  "bind n proto addr nw =
     bind_run (expect NodeNotFound (nodes nw n)) (\<lambda>nd.
     bind_run (resolve_ip nd (fst addr)) (\<lambda>rip.
       case rip of
         Err e \<Rightarrow> Ret (Err e, nw)
       | Ok ip \<Rightarrow>
           (case resolve_port proto (snd addr) nd of
              Err e \<Rightarrow> Ret (Err e, nw)
            | Ok (port, nd) \<Rightarrow>
                (case nd_sockets nd (port, proto) of
                   Some _ \<Rightarrow> Ret (Err AddrInUse, nw\<lparr>nodes := (nodes nw)(n \<mapsto> nd)\<rparr>)
                 | None \<Rightarrow>
                     let mb = nw_next_mb nw;
                         nd = nd\<lparr>nd_sockets := (nd_sockets nd)((port, proto) \<mapsto> mb)\<rparr>
                     in Ret (Ok (ip, port),
                          nw\<lparr>nodes := (nodes nw)(n \<mapsto> nd),
                             nw_mailboxes := (nw_mailboxes nw)(mb \<mapsto> mailbox_default),
                             nw_next_mb := mb + 1\<rparr>)))))"

text \<open>\<open>upd_mailbox\<close>: an operation on the mailbox of a socket that may be missing.\<close>

definition socket_of :: "node_id \<Rightarrow> socket_key \<Rightarrow> ('g, 'f, 'd, 'w) network \<Rightarrow> nat option" where
  "socket_of n k nw = (case nodes nw n of None \<Rightarrow> None | Some nd \<Rightarrow> nd_sockets nd k)"

definition at_mailbox ::
    "nat \<Rightarrow> (('d, 'w) mailbox \<Rightarrow> 'a \<times> ('d, 'w) mailbox) \<Rightarrow> ('g, 'f, 'd, 'w) network \<Rightarrow>
     ('a \<times> ('g, 'f, 'd, 'w) network) run" where
  "at_mailbox i f nw =
     bind_run (expect KeyMissing (nw_mailboxes nw i)) (\<lambda>mb.
       case f mb of (r, mb') \<Rightarrow> Ret (r, nw\<lparr>nw_mailboxes := (nw_mailboxes nw)(i \<mapsto> mb')\<rparr>))"

definition at_socket ::
    "node_id \<Rightarrow> socket_key \<Rightarrow> (('d, 'w) mailbox \<Rightarrow> 'a \<times> ('d, 'w) mailbox) \<Rightarrow>
     ('g, 'f, 'd, 'w) network \<Rightarrow> ('a \<times> ('g, 'f, 'd, 'w) network) run" where
  "at_socket n k f nw =
     bind_run (expect KeyMissing (nodes nw n)) (\<lambda>nd.
     bind_run (expect KeyMissing (nd_sockets nd k)) (\<lambda>i. at_mailbox i f nw))"

definition recv ::
    "nat \<Rightarrow> node_id \<Rightarrow> proto \<Rightarrow> socket_addr \<Rightarrow> u64 \<Rightarrow> ('g, 'f, 'd, 'w) network \<Rightarrow>
     ('d message option \<times> ('g, 'f, 'd, 'w) network) run" where
  "recv rx n proto dst tag = at_socket n (snd dst, proto) (mailbox_recv rx tag)"

definition recv_sync ::
    "node_id \<Rightarrow> proto \<Rightarrow> socket_addr \<Rightarrow> u64 \<Rightarrow> ('g, 'f, 'd, 'w) network \<Rightarrow>
     ('d message option \<times> ('g, 'f, 'd, 'w) network) run" where
  "recv_sync n proto dst tag = at_socket n (snd dst, proto) (mailbox_recv_sync tag)"

definition recv_ready ::
    "'w option \<Rightarrow> node_id \<Rightarrow> proto \<Rightarrow> socket_addr \<Rightarrow> u64 \<Rightarrow> ('g, 'f, 'd, 'w) network \<Rightarrow>
     (bool \<times> ('g, 'f, 'd, 'w) network) run" where
  "recv_ready cx n proto dst tag = at_socket n (snd dst, proto) (mailbox_recv_ready cx tag)"

definition close ::
    "proto \<Rightarrow> node_id \<Rightarrow> socket_addr \<Rightarrow> ('g, 'f, 'd, 'w) network \<Rightarrow> ('g, 'f, 'd, 'w) network" where
  "close proto n addr nw =
     (case nodes nw n of
        None \<Rightarrow> nw
      | Some nd \<Rightarrow>
          nw\<lparr>nodes := (nodes nw)(n \<mapsto> nd\<lparr>nd_sockets := (nd_sockets nd)((snd addr, proto) := None)\<rparr>),
             nw_mailboxes := drop_keys (\<lambda>i. nd_sockets nd (snd addr, proto) = Some i) (nw_mailboxes nw)\<rparr>)"

section \<open>TCP sessions and connections\<close>

definition register_tcp_id ::
    "node_id \<Rightarrow> u32 \<Rightarrow> ('g, 'f, 'd, 'w) network \<Rightarrow> ('g, 'f, 'd, 'w) network run" where
  "register_tcp_id n tcp_id nw =
     bind_run (expect UnwrapNone (nodes nw n)) (\<lambda>nd.
     bind_run (assert_run (tcp_id \<notin> live_tcp_ids nd) AssertFailed) (\<lambda>_.
       Ret (nw\<lparr>nodes := (nodes nw)(n \<mapsto> nd\<lparr>live_tcp_ids := insert tcp_id (live_tcp_ids nd)\<rparr>)\<rparr>)))"

text \<open>\<open>deregister_tcp_id\<close> returns the wakers of the remote end that it called.\<close>

definition deregister_tcp_id ::
    "node_id \<Rightarrow> node_id \<Rightarrow> proto \<Rightarrow> socket_addr \<Rightarrow> u32 \<Rightarrow> ('g, 'f, 'd, 'w) network \<Rightarrow>
     ('w list \<times> ('g, 'f, 'd, 'w) network) run" where
  "deregister_tcp_id cur n proto remote tcp_id nw =
     bind_run
       (case nodes nw n of
          None \<Rightarrow> Ret nw
        | Some nd \<Rightarrow>
            bind_run (assert_run (tcp_id \<in> live_tcp_ids nd) AssertFailed) (\<lambda>_.
              Ret (nw\<lparr>nodes := (nodes nw)(n \<mapsto> nd\<lparr>live_tcp_ids := live_tcp_ids nd - {tcp_id}\<rparr>)\<rparr>)))
       (\<lambda>nw.
         case get_node_for_addr cur (fst remote) nw of
           None \<Rightarrow> Ret ([], nw)
         | Some m \<Rightarrow>
             (case socket_of m (snd remote, proto) nw of
                None \<Rightarrow> Ret ([], nw)
              | Some i \<Rightarrow> at_mailbox i (wake_tcp_connection tcp_id) nw))"

definition is_tcp_session_live ::
    "node_id \<Rightarrow> socket_addr \<Rightarrow> u32 \<Rightarrow> ('g, 'f, 'd, 'w) network \<Rightarrow> bool run" where
  "is_tcp_session_live cur peer tcp_id nw =
     (case get_node_for_addr cur (fst peer) nw of
        None \<Rightarrow> Ret False
      | Some n \<Rightarrow> bind_run (expect KeyMissing (nodes nw n)) (\<lambda>nd. Ret (tcp_id \<in> live_tcp_ids nd)))"

definition signal_connect ::
    "node_id \<Rightarrow> proto \<Rightarrow> socket_addr \<Rightarrow> socket_addr \<Rightarrow> ('g, 'f, 'd, 'w) network \<Rightarrow>
     (bool \<times> ('g, 'f, 'd, 'w) network) run" where
  "signal_connect cur proto src dst nw =
     (case get_node_for_addr cur (fst dst) nw of
        None \<Rightarrow> Ret (False, nw)
      | Some n \<Rightarrow> bind_run (expect KeyMissing (nodes nw n)) (\<lambda>nd.
          case nd_sockets nd (snd dst, proto) of
            None \<Rightarrow> Ret (False, nw)
          | Some i \<Rightarrow> at_mailbox i (\<lambda>mb. (True, mailbox_signal_connect src mb)) nw))"

definition accept_connect ::
    "proto \<Rightarrow> node_id \<Rightarrow> socket_addr \<Rightarrow> ('g, 'f, 'd, 'w) network \<Rightarrow>
     (socket_addr option \<times> ('g, 'f, 'd, 'w) network) run" where
  "accept_connect proto n listening nw =
     bind_run (expect KeyMissing (nodes nw n)) (\<lambda>nd.
     bind_run (expect UnwrapNone (nd_sockets nd (snd listening, proto))) (\<lambda>i.
       at_mailbox i mailbox_accept_connect nw))"

section \<open>Sending\<close>

text \<open>The packet loss stage: \<open>Ok True\<close> goes on, \<open>Ok False\<close> drops the packet silently.\<close>

definition loss_stage ::
    "('g, 'f) rng_ops \<Rightarrow> node_id \<Rightarrow> node_id \<Rightarrow> payload_type \<Rightarrow> ('g, 'f, 'd, 'w) network \<Rightarrow>
     (bool io_result \<times> ('g, 'f, 'd, 'w) network) run" where
  "loss_stage ops src dst ty nw =
     (let cfg = (case ty of Udp \<Rightarrow> packet_loss (nw_config nw) | _ \<Rightarrow> tcp_packet_loss (nw_config nw))
      in bind_run (packet_loss_rate cfg (nw_rand nw) src dst) (\<lambda>(plr, g).
           case rng_bool ops plr g of
             (lost, g) \<Rightarrow>
               Ret (if \<not> lost then Ok True else (case ty of Udp \<Rightarrow> Ok False | _ \<Rightarrow> Err ConnectionReset),
                    nw\<lparr>nw_rand := g\<rparr>)))"

text \<open>The last stage: look up the mailbox, draw the latency, and schedule the delivery.\<close>

definition schedule_stage ::
    "('g, 'f) rng_ops \<Rightarrow> node_id \<Rightarrow> node_id \<Rightarrow> proto \<Rightarrow> socket_addr \<Rightarrow> 'd message \<Rightarrow> node \<Rightarrow>
     ('g, 'f, 'd, 'w) network \<Rightarrow> (unit io_result \<times> ('g, 'f, 'd, 'w) network) run" where
  "schedule_stage ops src_node dst_node proto dst msg nd nw =
     (case nd_sockets nd (snd dst, proto) of
        None \<Rightarrow> Ret (Err ConnectionRefused, nw)
      | Some mb \<Rightarrow>
          bind_run (get_latency ops (latency (nw_config nw)) (nw_rand nw) src_node dst_node) (\<lambda>(lat, g).
          bind_run (now_instant (nw_time nw)) (\<lambda>(now, tm).
          bind_run (instant_add now lat) (\<lambda>at.
          bind_run (add_u64 (msg_count nw) 1) (\<lambda>cnt.
            Ret (Ok (), nw\<lparr>nw_rand := g,
              nw_time := add_timer_for_node dst_node at (Deliver mb msg) tm, msg_count := cnt\<rparr>))))))"

definition send ::
    "('g, 'f) rng_ops \<Rightarrow> node_id \<Rightarrow> proto \<Rightarrow> socket_addr \<Rightarrow> socket_addr \<Rightarrow> u64 \<Rightarrow> 'd payload \<Rightarrow>
     ('g, 'f, 'd, 'w) network \<Rightarrow> (unit io_result \<times> ('g, 'f, 'd, 'w) network) run" where
  "send ops n proto src dst tag data nw =
     (case (if is_loopback (fst dst) then Some n else addr_to_node nw (fst dst)) of
        None \<Rightarrow> Ret (Err ConnectionRefused, nw)
      | Some dst_node \<Rightarrow>
          if n \<in> clogged_node nw \<or> dst_node \<in> clogged_node nw \<or> (n, dst_node) \<in> clogged_link nw
          then Ret (Err ConnectionRefused, nw)
          else bind_run (loss_stage ops n dst_node (pl_ty data) nw) (\<lambda>(r, nw).
            case r of
              Err e \<Rightarrow> Ret (Err e, nw)
            | Ok False \<Rightarrow> Ret (Ok (), nw)
            | Ok True \<Rightarrow>
                bind_run (expect KeyMissing (nodes nw dst_node)) (\<lambda>nd.
                  if is_tcp_data data \<and> (ucast (drop_bit 32 tag) :: u32) \<notin> live_tcp_ids nd
                  then Ret (Err ConnectionReset, nw)
                  else schedule_stage ops n dst_node proto dst
                         \<lparr>msg_tag = tag, msg_data = data, msg_from = src\<rparr> nd nw)))"

text \<open>
  Firing a timer event: \<open>Wake\<close> wakes its task; \<open>Deliver\<close> upgrades the weak reference and, if the
  mailbox still exists, delivers. The result is the wakers called and the receiver served.
\<close>

definition fire_callback ::
    "(nat \<Rightarrow> bool) \<Rightarrow> ('d, 'w) callback \<Rightarrow> ('g, 'f, 'd, 'w) network \<Rightarrow>
     'w list \<times> nat option \<times> ('g, 'f, 'd, 'w) network" where
  "fire_callback alive cb nw =
     (case cb of
        Wake w \<Rightarrow> ([w], None, nw)
      | Deliver i msg \<Rightarrow>
          (case nw_mailboxes nw i of
             None \<Rightarrow> ([], None, nw)
           | Some mb \<Rightarrow>
               (case deliver alive msg mb of
                  (ws, r, mb') \<Rightarrow> (ws, r, nw\<lparr>nw_mailboxes := (nw_mailboxes nw)(i \<mapsto> mb')\<rparr>))))"

section \<open>The operations as steps\<close>

text \<open>Every call that changes the network; results other than the new state are dropped.\<close>

datatype ('d, 'w) net_op =
    NInsert node_id | NReset node_id | NDelete node_id | NSetIp node_id ip_addr
  | NClogNode node_id | NUnclogNode node_id | NClogLink node_id node_id | NUnclogLink node_id node_id
  | NBind node_id proto socket_addr | NClose proto node_id socket_addr
  | NRegister node_id u32 | NDeregister node_id node_id proto socket_addr u32
  | NSignal node_id proto socket_addr socket_addr | NAccept proto node_id socket_addr
  | NSend node_id proto socket_addr socket_addr u64 "'d payload"
  | NRecv nat node_id proto socket_addr u64 | NRecvSync node_id proto socket_addr u64
  | NRecvReady "'w option" node_id proto socket_addr u64
  | NFire "nat \<Rightarrow> bool" "('d, 'w) callback"

definition drop_result :: "('a \<times> 's) run \<Rightarrow> 's run" where
  "drop_result m = bind_run m (\<lambda>(_, s). Ret s)"

fun net_step ::
    "('g, 'f) rng_ops \<Rightarrow> ('d, 'w) net_op \<Rightarrow> ('g, 'f, 'd, 'w) network \<Rightarrow> ('g, 'f, 'd, 'w) network run" where
  "net_step ops (NInsert n) nw = Ret (insert_node n nw)"
| "net_step ops (NReset n) nw = reset_node n nw"
| "net_step ops (NDelete n) nw = delete_node n nw"
| "net_step ops (NSetIp n ip) nw = set_ip n ip nw"
| "net_step ops (NClogNode n) nw = clog_node n nw"
| "net_step ops (NUnclogNode n) nw = unclog_node n nw"
| "net_step ops (NClogLink a b) nw = clog_link a b nw"
| "net_step ops (NUnclogLink a b) nw = unclog_link a b nw"
| "net_step ops (NBind n p a) nw = drop_result (bind n p a nw)"
| "net_step ops (NClose p n a) nw = Ret (close p n a nw)"
| "net_step ops (NRegister n i) nw = register_tcp_id n i nw"
| "net_step ops (NDeregister cur n p a i) nw = drop_result (deregister_tcp_id cur n p a i nw)"
| "net_step ops (NSignal cur p a b) nw = drop_result (signal_connect cur p a b nw)"
| "net_step ops (NAccept p n a) nw = drop_result (accept_connect p n a nw)"
| "net_step ops (NSend n p a b t d) nw = drop_result (send ops n p a b t d nw)"
| "net_step ops (NRecv rx n p a t) nw = drop_result (recv rx n p a t nw)"
| "net_step ops (NRecvSync n p a t) nw = drop_result (recv_sync n p a t nw)"
| "net_step ops (NRecvReady cx n p a t) nw = drop_result (recv_ready cx n p a t nw)"
| "net_step ops (NFire alive cb) nw = Ret (snd (snd (fire_callback alive cb nw)))"

fun net_run ::
    "('g, 'f) rng_ops \<Rightarrow> ('d, 'w) net_op list \<Rightarrow> ('g, 'f, 'd, 'w) network \<Rightarrow> ('g, 'f, 'd, 'w) network run" where
  "net_run ops [] nw = Ret nw"
| "net_run ops (x # xs) nw = bind_run (net_step ops x nw) (net_run ops xs)"

end
