(* ===== verification/Network_Facts.thy ===== *)
theory Network_Facts
  imports Network
begin

text \<open>
  Properties of the network: the consistency of its tables under every operation, what a send
  schedules and when it refuses, the isolation of clogged nodes and links, the port a bind gives,
  and that a message in flight never reaches a socket other than the one it was sent to.
\<close>

section \<open>Consistency of the tables\<close>

definition sock_map :: "('g, 'f, 'd, 'w) network \<Rightarrow> node_id \<times> socket_key \<rightharpoonup> nat" where
  "sock_map nw = (\<lambda>p. socket_of (fst p) (snd p) nw)"

text \<open>Distinct sockets have distinct mailboxes, and the store holds exactly the sockets' mailboxes.\<close>

definition boxes_ok :: "('a \<rightharpoonup> nat) \<Rightarrow> (nat \<rightharpoonup> 'b) \<Rightarrow> nat \<Rightarrow> bool" where
  "boxes_ok S M nx \<longleftrightarrow> (\<forall>p q i. S p = Some i \<longrightarrow> S q = Some i \<longrightarrow> p = q) \<and> ran S = dom M \<and>
     (\<forall>i \<in> dom M. i < nx)"

text \<open>The address table is the inverse of the nodes' addresses, so no two nodes share one.\<close>

definition routes_ok :: "(ip_addr \<rightharpoonup> node_id) \<Rightarrow> (node_id \<rightharpoonup> node) \<Rightarrow> bool" where
  "routes_ok a N \<longleftrightarrow> (\<forall>ip n. a ip = Some n \<longleftrightarrow> (\<exists>nd. N n = Some nd \<and> nd_ip nd = Some ip))"

definition clogs_ok :: "('g, 'f, 'd, 'w) network \<Rightarrow> bool" where
  "clogs_ok nw \<longleftrightarrow> clogged_node nw \<subseteq> dom (nodes nw) \<and>
     clogged_link nw \<subseteq> dom (nodes nw) \<times> dom (nodes nw)"

definition net_wf :: "('g, 'f, 'd, 'w) network \<Rightarrow> bool" where
  "net_wf nw \<longleftrightarrow> boxes_ok (sock_map nw) (nw_mailboxes nw) (nw_next_mb nw) \<and>
     routes_ok (addr_to_node nw) (nodes nw) \<and> clogs_ok nw"

lemma sock_map_apply: "sock_map nw (n, k) = (case nodes nw n of None \<Rightarrow> None | Some nd \<Rightarrow> nd_sockets nd k)"
  by (simp add: sock_map_def socket_of_def split: option.split)

lemma sock_map_cong: "nodes nw' = nodes nw \<Longrightarrow> sock_map nw' = sock_map nw"
  by (simp add: sock_map_def socket_of_def)

lemma boxes_okI:
  assumes "\<And>p q i. S p = Some i \<Longrightarrow> S q = Some i \<Longrightarrow> p = q" "ran S = dom M"
    "\<And>i. i \<in> dom M \<Longrightarrow> i < nx"
  shows "boxes_ok S M nx"
  unfolding boxes_ok_def using assms by (intro conjI allI impI ballI)

lemma boxes_okD:
  assumes "boxes_ok S M nx"
  shows "S p = Some i \<Longrightarrow> S q = Some i \<Longrightarrow> p = q" "ran S = dom M" "i \<in> dom M \<Longrightarrow> i < nx"
  using assms unfolding boxes_ok_def by (blast, blast, blast)

lemma boxes_drop:
  assumes "boxes_ok S M nx"
  shows "boxes_ok (drop_keys Q S) (drop_keys (\<lambda>i. \<exists>p. Q p \<and> S p = Some i) M) nx"
proof (rule boxes_okI)
  note D = boxes_okD [OF assms]
  show "p = q" if "drop_keys Q S p = Some i" "drop_keys Q S q = Some i" for p q i
    using that D(1) by (simp split: if_splits)
  show "ran (drop_keys Q S) = dom (drop_keys (\<lambda>i. \<exists>p. Q p \<and> S p = Some i) M)"
  proof (rule set_eqI)
    fix i
    have "i \<in> ran (drop_keys Q S) \<longleftrightarrow> (\<exists>p. \<not> Q p \<and> S p = Some i)" by (auto simp: ran_def)
    also have "\<dots> \<longleftrightarrow> i \<in> ran S \<and> \<not> (\<exists>p. Q p \<and> S p = Some i)" using D(1) by (auto simp: ran_def)
    finally show "i \<in> ran (drop_keys Q S) \<longleftrightarrow> i \<in> dom (drop_keys (\<lambda>i. \<exists>p. Q p \<and> S p = Some i) M)"
      by (simp add: D(2))
  qed
  show "i < nx" if "i \<in> dom (drop_keys (\<lambda>i. \<exists>p. Q p \<and> S p = Some i) M)" for i
    using that D(3) by (simp only: dom_drop_keys mem_Collect_eq)
qed

lemma boxes_add:
  assumes "boxes_ok S M nx" "S p = None"
  shows "boxes_ok (S(p \<mapsto> nx)) (M(nx \<mapsto> mb)) (nx + 1)"
proof (rule boxes_okI)
  note D = boxes_okD [OF assms(1)]
  have fresh: "S q \<noteq> Some nx" for q
    using D(2) D(3) [of nx] by (auto intro: ranI)
  show "q = q'" if "(S(p \<mapsto> nx)) q = Some i" "(S(p \<mapsto> nx)) q' = Some i" for q q' i
    using that D(1) fresh by (simp split: if_splits)
  show "ran (S(p \<mapsto> nx)) = dom (M(nx \<mapsto> mb))"
    using assms(2) D(2) by (simp add: ran_map_upd)
  show "i < nx + 1" if "i \<in> dom (M(nx \<mapsto> mb))" for i
    using that D(3) [of i] by (cases "i = nx") simp_all
qed

lemma boxes_dom: "boxes_ok S M nx \<Longrightarrow> dom M' = dom M \<Longrightarrow> boxes_ok S M' nx"
  by (simp add: boxes_ok_def)

lemma routes_upd_node:
  "routes_ok a N \<Longrightarrow> N n = Some nd \<Longrightarrow> nd_ip nd' = nd_ip nd \<Longrightarrow> routes_ok a (N(n \<mapsto> nd'))"
  by (auto simp: routes_ok_def)

lemma routes_unique:
  "routes_ok a N \<Longrightarrow> N n = Some nd \<Longrightarrow> nd_ip nd = Some ip \<Longrightarrow> N m = Some nd' \<Longrightarrow> nd_ip nd' = Some ip \<Longrightarrow> m = n"
  unfolding routes_ok_def by (metis option.inject)

lemma routes_remove:
  assumes "routes_ok a N" "N n = Some nd"
  shows "routes_ok (case nd_ip nd of None \<Rightarrow> a | Some ip \<Rightarrow> a(ip := None)) (N(n := None))"
proof (cases "nd_ip nd")
  case None
  then show ?thesis using assms unfolding routes_ok_def by auto
next
  case (Some ip)
  have "n' \<noteq> n \<longrightarrow> \<not> (\<exists>nd'. N n' = Some nd' \<and> nd_ip nd' = Some ip)" for n'
    using routes_unique [OF assms Some] by blast
  moreover have "a i = Some n \<longleftrightarrow> i = ip" for i
    using assms Some unfolding routes_ok_def by auto
  ultimately show ?thesis
    using assms(1) unfolding routes_ok_def by (simp add: Some)
qed

lemma routes_set:
  assumes "routes_ok a (N(n := None))" "a ip = None" "nd_ip nd' = Some ip"
  shows "routes_ok (a(ip \<mapsto> n)) (N(n \<mapsto> nd'))"
  unfolding routes_ok_def
proof (intro allI)
  fix i m
  have eq: "a i = Some m \<longleftrightarrow> (\<exists>nd. (N(n := None)) m = Some nd \<and> nd_ip nd = Some i)"
    using assms(1) unfolding routes_ok_def by blast
  show "(a(ip \<mapsto> n)) i = Some m \<longleftrightarrow> (\<exists>nd. (N(n \<mapsto> nd')) m = Some nd \<and> nd_ip nd = Some i)"
    using eq assms(2,3) by (cases "m = n"; cases "i = ip") auto
qed

text \<open>Changing a node other than in its address and its sockets, and the mailboxes' contents.\<close>

lemma net_wf_upd_node:
  assumes "net_wf nw" "nodes nw n = Some nd" "nd_ip nd' = nd_ip nd" "nd_sockets nd' = nd_sockets nd"
  shows "net_wf (nw\<lparr>nodes := (nodes nw)(n \<mapsto> nd')\<rparr>)"
proof -
  have "sock_map (nw\<lparr>nodes := (nodes nw)(n \<mapsto> nd')\<rparr>) = sock_map nw"
    using assms(2,4) by (auto simp: sock_map_def socket_of_def)
  then show ?thesis
    using assms routes_upd_node [of "addr_to_node nw" "nodes nw" n nd nd']
    by (auto simp: net_wf_def clogs_ok_def)
qed

lemma net_wf_mailboxes:
  assumes "net_wf nw" "dom M = dom (nw_mailboxes nw)"
  shows "net_wf (nw\<lparr>nw_mailboxes := M\<rparr>)"
  using assms boxes_dom [of "sock_map nw"] sock_map_cong [of "nw\<lparr>nw_mailboxes := M\<rparr>" nw]
  by (auto simp: net_wf_def clogs_ok_def)

lemma at_mailbox_wf:
  "net_wf nw \<Longrightarrow> at_mailbox i f nw = Ret (r, nw') \<Longrightarrow> net_wf nw'"
  by (auto simp: at_mailbox_def split_def split: if_splits intro!: net_wf_mailboxes)

lemma at_socket_wf:
  "net_wf nw \<Longrightarrow> at_socket n k f nw = Ret (r, nw') \<Longrightarrow> net_wf nw'"
  by (auto simp: at_socket_def intro: at_mailbox_wf)

lemma net_wf_cong:
  assumes "net_wf nw" "nodes nw' = nodes nw" "addr_to_node nw' = addr_to_node nw"
    "clogged_node nw' = clogged_node nw" "clogged_link nw' = clogged_link nw"
    "nw_mailboxes nw' = nw_mailboxes nw" "nw_next_mb nw' = nw_next_mb nw"
  shows "net_wf nw'"
  using assms sock_map_cong [of nw' nw] by (simp add: net_wf_def clogs_ok_def)

lemma loss_stage_keeps: "loss_stage ops a b ty nw = Ret (r, nw') \<Longrightarrow> \<exists>g. nw' = nw\<lparr>nw_rand := g\<rparr>"
  by (auto simp: loss_stage_def Let_def split_def)

lemma schedule_stage_cases:
  assumes "schedule_stage ops a b p dst msg nd nw = Ret (r, nw')"
  obtains "nd_sockets nd (snd dst, p) = None" "r = Err ConnectionRefused" "nw' = nw"
  | mb lat g now tm at where "nd_sockets nd (snd dst, p) = Some mb" "r = Ok ()"
      "get_latency ops (latency (nw_config nw)) (nw_rand nw) a b = Ret (lat, g)"
      "now_instant (nw_time nw) = Ret (now, tm)" "instant_add now lat = Ret at"
      "nw' = nw\<lparr>nw_rand := g, nw_time := add_timer_for_node b at (Deliver mb msg) tm,
         msg_count := msg_count nw + 1\<rparr>"
  using assms by (auto simp: schedule_stage_def split_def add_u64_def split: option.splits if_splits)

lemma send_cases:
  assumes "send ops n p src dst tag data nw = Ret (r, nw')"
  obtains (refused) "r = Err ConnectionRefused" "nw' = nw"
  | (lost) g where "nw' = nw\<lparr>nw_rand := g\<rparr>"
      "r = (if pl_ty data = Udp then Ok () else Err ConnectionReset)"
  | (hung_up) m nd g where "nodes nw m = Some nd" "r = Err ConnectionReset" "nw' = nw\<lparr>nw_rand := g\<rparr>"
      "is_tcp_data data" "ucast (drop_bit 32 tag) \<notin> live_tcp_ids nd"
  | (scheduled) m nd g where "(if is_loopback (fst dst) then Some n else addr_to_node nw (fst dst)) = Some m"
      "n \<notin> clogged_node nw" "m \<notin> clogged_node nw" "(n, m) \<notin> clogged_link nw"
      "nodes nw m = Some nd" "is_tcp_data data \<longrightarrow> ucast (drop_bit 32 tag) \<in> live_tcp_ids nd"
      "schedule_stage ops n m p dst \<lparr>msg_tag = tag, msg_data = data, msg_from = src\<rparr> nd
         (nw\<lparr>nw_rand := g\<rparr>) = Ret (r, nw')"
proof (cases "if is_loopback (fst dst) then Some n else addr_to_node nw (fst dst)")
  case None
  then show thesis using assms refused by (auto simp: send_def)
next
  case (Some m)
  show thesis
  proof (cases "n \<in> clogged_node nw \<or> m \<in> clogged_node nw \<or> (n, m) \<in> clogged_link nw")
    case True
    then show thesis using assms refused Some by (simp add: send_def)
  next
    case ok: False
    obtain rl nw1 where ls: "loss_stage ops n m (pl_ty data) nw = Ret (rl, nw1)"
      using assms Some ok by (cases "loss_stage ops n m (pl_ty data) nw") (auto simp: send_def)
    obtain g where nw1: "nw1 = nw\<lparr>nw_rand := g\<rparr>" using loss_stage_keeps [OF ls] by blast
    have kinds: "rl = Ok True \<or> pl_ty data = Udp \<and> rl = Ok False \<or> pl_ty data \<noteq> Udp \<and> rl = Err ConnectionReset"
      using ls by (auto simp: loss_stage_def Let_def split_def split: payload_type.splits if_splits)
    show thesis
    proof (cases "rl = Ok True")
      case False
      then show thesis using assms Some ok ls kinds lost [of g] by (auto simp: send_def nw1)
    next
      case True
      then obtain nd where nd: "nodes nw m = Some nd"
        using assms Some ok ls by (auto simp: send_def nw1)
      show thesis
        using assms Some ok ls True nd hung_up [OF nd, of g] scheduled [OF Some _ _ _ nd, of g]
        by (simp add: send_def nw1 split: if_splits)
    qed
  qed
qed

lemma send_keeps_tables:
  assumes "send ops n p src dst tag data nw = Ret (r, nw')"
  shows "nodes nw' = nodes nw \<and> addr_to_node nw' = addr_to_node nw \<and>
    clogged_node nw' = clogged_node nw \<and> clogged_link nw' = clogged_link nw \<and>
    nw_mailboxes nw' = nw_mailboxes nw \<and> nw_next_mb nw' = nw_next_mb nw"
  using assms by (cases rule: send_cases) (auto elim: schedule_stage_cases)

section \<open>Every operation keeps the tables consistent\<close>

lemma ran_sockets:
  "nodes nw n = Some nd \<Longrightarrow> (\<lambda>i. i \<in> ran (nd_sockets nd)) = (\<lambda>i. \<exists>p. fst p = n \<and> sock_map nw p = Some i)"
  by (auto simp: sock_map_def socket_of_def ran_def fun_eq_iff)

lemma insert_node_wf:
  assumes "net_wf nw" "nodes nw n = None"
  shows "net_wf (insert_node n nw)"
proof -
  have "sock_map (insert_node n nw) = sock_map nw"
    using assms(2) by (auto simp: sock_map_def socket_of_def insert_node_def node_default_def)
  moreover have "routes_ok (addr_to_node nw) ((nodes nw)(n \<mapsto> node_default))"
    using assms by (auto simp: net_wf_def routes_ok_def node_default_def)
  ultimately show ?thesis
    using assms by (auto simp: net_wf_def clogs_ok_def insert_node_def)
qed

lemma reset_node_wf:
  assumes "net_wf nw" "reset_node n nw = Ret nw'"
  shows "net_wf nw'"
proof -
  obtain nd where nd: "nodes nw n = Some nd"
    and nw': "nw' = (drop_sockets (nd_sockets nd) nw)
      \<lparr>nodes := (nodes nw)(n \<mapsto> nd\<lparr>nd_sockets := Map.empty\<rparr>)\<rparr>"
    using assms(2) by (auto simp: reset_node_def)
  have S: "sock_map nw' = drop_keys (\<lambda>p. fst p = n) (sock_map nw)"
    using nd by (auto simp: nw' sock_map_def socket_of_def drop_keys_def)
  have M: "nw_mailboxes nw' = drop_keys (\<lambda>i. \<exists>p. fst p = n \<and> sock_map nw p = Some i) (nw_mailboxes nw)"
    by (simp add: nw' drop_sockets_def ran_sockets [OF nd])
  have nx: "nw_next_mb nw' = nw_next_mb nw" by (simp add: nw' drop_sockets_def)
  have "boxes_ok (sock_map nw') (nw_mailboxes nw') (nw_next_mb nw')"
    unfolding S M nx by (rule boxes_drop) (use assms(1) in \<open>simp add: net_wf_def\<close>)
  moreover have "routes_ok (addr_to_node nw) ((nodes nw)(n \<mapsto> nd\<lparr>nd_sockets := Map.empty\<rparr>))"
    using assms(1) nd by (intro routes_upd_node) (auto simp: net_wf_def)
  ultimately show ?thesis
    using assms(1) nd by (auto simp: net_wf_def clogs_ok_def nw' drop_sockets_def)
qed

lemma delete_node_wf:
  assumes "net_wf nw" "delete_node n nw = Ret nw'"
  shows "net_wf nw'"
proof -
  obtain nd where nd: "nodes nw n = Some nd" using assms(2) by (auto simp: delete_node_def)
  then have nw': "nw' = (drop_sockets (nd_sockets nd) nw)
      \<lparr>nodes := (nodes nw)(n := None),
       addr_to_node := (case nd_ip nd of None \<Rightarrow> addr_to_node nw
                        | Some ip \<Rightarrow> (addr_to_node nw)(ip := None)),
       clogged_node := clogged_node nw - {n},
       clogged_link := {l \<in> clogged_link nw. fst l \<noteq> n \<and> snd l \<noteq> n}\<rparr>"
    using assms(2) by (simp add: delete_node_def)
  have S: "sock_map nw' = drop_keys (\<lambda>p. fst p = n) (sock_map nw)"
    using nd by (auto simp: nw' sock_map_def socket_of_def drop_keys_def)
  have M: "nw_mailboxes nw' = drop_keys (\<lambda>i. \<exists>p. fst p = n \<and> sock_map nw p = Some i) (nw_mailboxes nw)"
    by (simp add: nw' drop_sockets_def ran_sockets [OF nd])
  have nx: "nw_next_mb nw' = nw_next_mb nw" by (simp add: nw' drop_sockets_def)
  have "boxes_ok (sock_map nw') (nw_mailboxes nw') (nw_next_mb nw')"
    unfolding S M nx by (rule boxes_drop) (use assms(1) in \<open>simp add: net_wf_def\<close>)
  moreover have "routes_ok (addr_to_node nw') (nodes nw')"
    using routes_remove [of "addr_to_node nw" "nodes nw" n nd] nd assms(1) by (simp add: net_wf_def nw')
  moreover have "clogs_ok nw'"
    using assms(1) by (auto simp: net_wf_def clogs_ok_def nw' drop_sockets_def)
  ultimately show ?thesis by (simp add: net_wf_def)
qed

lemma set_ip_wf:
  assumes "net_wf nw" "set_ip n ip nw = Ret nw'"
  shows "net_wf nw'"
proof -
  obtain nd where nd: "nodes nw n = Some nd" using assms(2) by (auto simp: set_ip_def)
  let ?a = "case nd_ip nd of None \<Rightarrow> addr_to_node nw | Some old \<Rightarrow> (addr_to_node nw)(old := None)"
  have nw': "nw' = nw\<lparr>nodes := (nodes nw)(n \<mapsto> nd\<lparr>nd_ip := Some ip\<rparr>), addr_to_node := ?a(ip \<mapsto> n)\<rparr>"
    and fresh: "?a ip = None"
    using assms(2) nd by (auto simp: set_ip_def Let_def split: if_splits)
  have "sock_map nw' = sock_map nw" using nd by (auto simp: nw' sock_map_def socket_of_def)
  moreover have "routes_ok ?a ((nodes nw)(n := None))"
    using routes_remove [of "addr_to_node nw" "nodes nw" n nd] nd assms(1) by (simp add: net_wf_def)
  then have "routes_ok (addr_to_node nw') (nodes nw')"
    using routes_set [of ?a "nodes nw" n ip "nd\<lparr>nd_ip := Some ip\<rparr>"] fresh by (simp add: nw')
  ultimately show ?thesis using assms(1) nd by (auto simp: net_wf_def clogs_ok_def nw')
qed

text \<open>The outcomes of \<open>bind\<close>: refused before, or at, the look-up of the port, or a new socket.\<close>

lemma bind_cases:
  assumes "bind n p addr nw = Ret (r, nw')"
  obtains (refused) e where "r = Err e" "nw' = nw"
  | (in_use) nd port nd' where "nodes nw n = Some nd" "resolve_port p (snd addr) nd = Ok (port, nd')"
      "r = Err AddrInUse" "nd_sockets nd' (port, p) \<noteq> None" "nw' = nw\<lparr>nodes := (nodes nw)(n \<mapsto> nd')\<rparr>"
  | (bound) nd ip port nd' where "nodes nw n = Some nd" "resolve_ip nd (fst addr) = Ret (Ok ip)"
      "resolve_port p (snd addr) nd = Ok (port, nd')" "nd_sockets nd' (port, p) = None" "r = Ok (ip, port)"
      "nw' = nw\<lparr>nodes := (nodes nw)(n \<mapsto> nd'\<lparr>nd_sockets := (nd_sockets nd')((port, p) \<mapsto> nw_next_mb nw)\<rparr>),
         nw_mailboxes := (nw_mailboxes nw)(nw_next_mb nw \<mapsto> mailbox_default),
         nw_next_mb := nw_next_mb nw + 1\<rparr>"
proof -
  obtain nd where nd: "nodes nw n = Some nd" using assms by (cases "nodes nw n") (auto simp: bind_def)
  obtain rip where rip: "resolve_ip nd (fst addr) = Ret rip"
    using assms nd by (cases "resolve_ip nd (fst addr)") (simp_all add: bind_def)
  show thesis
  proof (cases rip)
    case (Err e)
    then show thesis using assms nd rip refused [of e] by (simp add: bind_def)
  next
    case ip: (Ok ip)
    show thesis
    proof (cases "resolve_port p (snd addr) nd")
      case (Err e)
      then show thesis using assms nd rip ip refused [of e] by (simp add: bind_def)
    next
      case (Ok a)
      then obtain port nd' where rp: "resolve_port p (snd addr) nd = Ok (port, nd')" by (cases a) simp
      show thesis
      proof (cases "nd_sockets nd' (port, p)")
        case None
        then show thesis using assms nd rip ip rp bound [OF nd _ rp None] by (simp add: bind_def Let_def)
      next
        case (Some m)
        then show thesis using assms nd rip ip rp in_use [OF nd rp] by (simp add: bind_def)
      qed
    qed
  qed
qed

lemma resolve_port_keeps:
  "resolve_port p port nd = Ok (port', nd') \<Longrightarrow> nd' = nd\<lparr>next_ephemeral_port := next_ephemeral_port nd'\<rparr>"
  by (auto simp: resolve_port_def split: option.splits if_splits)

lemma bind_sock_map:
  assumes "bind n p addr nw = Ret (Ok (ip, port), nw')"
  shows "sock_map nw (n, (port, p)) = None"
    and "sock_map nw' = (sock_map nw)((n, (port, p)) \<mapsto> nw_next_mb nw)"
    and "nw_mailboxes nw' = (nw_mailboxes nw)(nw_next_mb nw \<mapsto> mailbox_default)"
    and "nw_next_mb nw' = nw_next_mb nw + 1"
proof -
  have "sock_map nw (n, (port, p)) = None \<and>
    sock_map nw' = (sock_map nw)((n, (port, p)) \<mapsto> nw_next_mb nw) \<and>
    nw_mailboxes nw' = (nw_mailboxes nw)(nw_next_mb nw \<mapsto> mailbox_default) \<and>
    nw_next_mb nw' = nw_next_mb nw + 1"
    using assms
  proof (cases rule: bind_cases)
    case (bound nd ip' port' nd')
    then have eqs: "port' = port" by simp
    have k: "nd_sockets nd' = nd_sockets nd" by (subst resolve_port_keeps [OF bound(3)]) simp
    show ?thesis
      using bound(1,4) by (auto simp: bound(6) sock_map_def socket_of_def k eqs fun_eq_iff)
  qed simp_all
  then show "sock_map nw (n, (port, p)) = None"
    and "sock_map nw' = (sock_map nw)((n, (port, p)) \<mapsto> nw_next_mb nw)"
    and "nw_mailboxes nw' = (nw_mailboxes nw)(nw_next_mb nw \<mapsto> mailbox_default)"
    and "nw_next_mb nw' = nw_next_mb nw + 1" by blast+
qed

lemma close_sock_map:
  "sock_map (close p n addr nw) = (sock_map nw)((n, (snd addr, p)) := None)"
  by (auto simp: close_def sock_map_def socket_of_def fun_eq_iff split: option.splits)

lemma bind_wf:
  assumes "net_wf nw" "bind n p addr nw = Ret (r, nw')"
  shows "net_wf nw'"
  using assms(2)
proof (cases rule: bind_cases)
  case (bound nd ip port nd')
  note nd = bound(1) and rp = bound(3) and free = bound(4) and nw' = bound(6)
  have k: "nd_sockets nd' = nd_sockets nd" "nd_ip nd' = nd_ip nd"
    by (subst resolve_port_keeps [OF rp], simp)+
  from assms(2) have b: "bind n p addr nw = Ret (Ok (ip, port), nw')" by (simp add: bound(5))
  note S = bind_sock_map(2) [OF b] and M = bind_sock_map(3) [OF b] and nx = bind_sock_map(4) [OF b]
  from bind_sock_map(1) [OF b]
  have "boxes_ok (sock_map nw') (nw_mailboxes nw') (nw_next_mb nw')"
    unfolding S M nx by (intro boxes_add) (use assms(1) in \<open>simp_all add: net_wf_def\<close>)
  moreover have "routes_ok (addr_to_node nw') (nodes nw')"
    unfolding nw' using assms(1) nd k by (auto simp: net_wf_def intro!: routes_upd_node)
  ultimately show ?thesis using assms(1) nd by (auto simp: net_wf_def clogs_ok_def nw')
next
  case (in_use nd port nd')
  have "nd_sockets nd' = nd_sockets nd" "nd_ip nd' = nd_ip nd"
    by (subst resolve_port_keeps [OF in_use(2)], simp)+
  then show ?thesis using net_wf_upd_node [OF assms(1) in_use(1)] by (simp add: in_use(5))
qed (use assms(1) in simp)

lemma close_wf:
  assumes "net_wf nw"
  shows "net_wf (close p n addr nw)"
proof (cases "nodes nw n")
  case None
  then show ?thesis using assms by (simp add: close_def)
next
  case (Some nd)
  let ?nw = "close p n addr nw"
  have nw': "?nw = nw\<lparr>nodes := (nodes nw)(n \<mapsto> nd\<lparr>nd_sockets := (nd_sockets nd)((snd addr, p) := None)\<rparr>),
       nw_mailboxes := drop_keys (\<lambda>i. nd_sockets nd (snd addr, p) = Some i) (nw_mailboxes nw)\<rparr>"
    by (simp add: close_def Some)
  have S: "sock_map ?nw = drop_keys (\<lambda>q. q = (n, (snd addr, p))) (sock_map nw)"
    using Some by (auto simp: nw' sock_map_def socket_of_def drop_keys_def fun_eq_iff)
  have M: "nw_mailboxes ?nw =
      drop_keys (\<lambda>i. \<exists>q. q = (n, (snd addr, p)) \<and> sock_map nw q = Some i) (nw_mailboxes nw)"
    using Some by (simp add: nw' sock_map_apply)
  have "boxes_ok (sock_map ?nw) (nw_mailboxes ?nw) (nw_next_mb ?nw)"
    unfolding S M by (rule boxes_drop) (use assms in \<open>simp add: net_wf_def nw'\<close>)
  moreover have "routes_ok (addr_to_node ?nw) (nodes ?nw)"
    unfolding nw' using assms Some by (auto simp: net_wf_def intro!: routes_upd_node)
  ultimately show ?thesis using assms Some by (auto simp: net_wf_def clogs_ok_def nw')
qed

lemma deregister_wf:
  assumes "net_wf nw" "deregister_tcp_id cur n p a i nw = Ret (ws, nw')"
  shows "net_wf nw'"
proof -
  have up: "net_wf (nw\<lparr>nodes := (nodes nw)(n \<mapsto> nd\<lparr>live_tcp_ids := live_tcp_ids nd - {i}\<rparr>)\<rparr>)"
    if "nodes nw n = Some nd" for nd
    using net_wf_upd_node [OF assms(1) that] by simp
  show ?thesis
    using assms(2) up assms(1)
    by (auto simp: deregister_tcp_id_def split: option.splits intro: at_mailbox_wf)
qed

lemma fire_wf: "net_wf nw \<Longrightarrow> net_wf (snd (snd (fire_callback alive cb nw)))"
  by (auto simp: fire_callback_def split_def split: callback.splits option.splits if_splits intro!: net_wf_mailboxes)

lemma net_wf_clogs:
  assumes "net_wf nw"
  shows "cn \<subseteq> dom (nodes nw) \<Longrightarrow> net_wf (nw\<lparr>clogged_node := cn\<rparr>)"
    and "cl \<subseteq> dom (nodes nw) \<times> dom (nodes nw) \<Longrightarrow> net_wf (nw\<lparr>clogged_link := cl\<rparr>)"
  using assms sock_map_cong [of "nw\<lparr>clogged_node := cn\<rparr>" nw] sock_map_cong [of "nw\<lparr>clogged_link := cl\<rparr>" nw]
  by (auto simp: net_wf_def clogs_ok_def)

lemma clog_wf:
  assumes "net_wf nw"
  shows "clog_node n nw = Ret nw' \<Longrightarrow> net_wf nw'" "unclog_node n nw = Ret nw' \<Longrightarrow> net_wf nw'"
    "clog_link n m nw = Ret nw' \<Longrightarrow> net_wf nw'" "unclog_link n m nw = Ret nw' \<Longrightarrow> net_wf nw'"
proof -
  have c: "clogged_node nw \<subseteq> dom (nodes nw)" "clogged_link nw \<subseteq> dom (nodes nw) \<times> dom (nodes nw)"
    using assms by (auto simp: net_wf_def clogs_ok_def)
  show "clog_node n nw = Ret nw' \<Longrightarrow> net_wf nw'"
    using net_wf_clogs(1) [OF assms, of "insert n (clogged_node nw)"] c by (auto simp: clog_node_def)
  show "unclog_node n nw = Ret nw' \<Longrightarrow> net_wf nw'"
    using net_wf_clogs(1) [OF assms, of "clogged_node nw - {n}"] c by (auto simp: unclog_node_def)
  show "clog_link n m nw = Ret nw' \<Longrightarrow> net_wf nw'"
    using net_wf_clogs(2) [OF assms, of "insert (n, m) (clogged_link nw)"] c by (auto simp: clog_link_def)
  show "unclog_link n m nw = Ret nw' \<Longrightarrow> net_wf nw'"
    using net_wf_clogs(2) [OF assms, of "clogged_link nw - {(n, m)}"] c by (auto simp: unclog_link_def)
qed

lemma signal_wf:
  assumes "net_wf nw" "signal_connect cur p a b nw = Ret (r, nw')"
  shows "net_wf nw'"
proof (cases "get_node_for_addr cur (fst b) nw")
  case (Some n)
  then obtain nd where nd: "nodes nw n = Some nd"
    using assms(2) by (auto simp: signal_connect_def)
  show ?thesis
    using assms Some nd at_mailbox_wf [OF assms(1)]
    by (cases "nd_sockets nd (snd b, p)") (auto simp: signal_connect_def)
qed (use assms in \<open>auto simp: signal_connect_def\<close>)

lemma accept_wf:
  "net_wf nw \<Longrightarrow> accept_connect p n a nw = Ret (r, nw') \<Longrightarrow> net_wf nw'"
  by (auto simp: accept_connect_def intro: at_mailbox_wf)

lemma register_wf:
  assumes "net_wf nw" "register_tcp_id n i nw = Ret nw'"
  shows "net_wf nw'"
  using assms(2) net_wf_upd_node [OF assms(1)] by (auto simp: register_tcp_id_def)

lemma drop_result_Ret: "drop_result m = Ret s \<longleftrightarrow> (\<exists>r. m = Ret (r, s))"
  by (auto simp: drop_result_def)

lemma net_step_wf:
  assumes "net_wf nw" "net_step ops op nw = Ret nw'" "\<And>n. op = NInsert n \<Longrightarrow> nodes nw n = None"
  shows "net_wf nw'"
proof (cases op)
  case (NInsert n)
  with assms insert_node_wf [OF assms(1)] show ?thesis by auto
next
  case (NSend n p a b t d)
  then obtain r where "send ops n p a b t d nw = Ret (r, nw')"
    using assms(2) by (auto simp: drop_result_Ret)
  from send_keeps_tables [OF this] show ?thesis by (intro net_wf_cong [OF assms(1)]) simp_all
next
  case (NFire alive cb)
  with assms fire_wf [OF assms(1)] show ?thesis by auto
next
  case (NClose p n a)
  with assms close_wf [OF assms(1), of p n a] show ?thesis by (cases a) auto
qed (use assms(2) in \<open>simp_all add: drop_result_Ret recv_def recv_sync_def recv_ready_def\<close>,
     (use assms(1) in \<open>blast intro: reset_node_wf delete_node_wf set_ip_wf clog_wf bind_wf deregister_wf
       signal_wf accept_wf register_wf at_socket_wf\<close>)+)

text \<open>The networks a simulation can reach: a node is inserted under a number not in use.\<close>

inductive net_reach ::
    "('g, 'f) rng_ops \<Rightarrow> ('g, 'f, 'd, 'w) network \<Rightarrow> ('g, 'f, 'd, 'w) network \<Rightarrow> bool" for ops nw0 where
  start: "net_reach ops nw0 nw0"
| step: "net_reach ops nw0 nw \<Longrightarrow> net_step ops op nw = Ret nw' \<Longrightarrow>
    (\<forall>n. op = NInsert n \<longrightarrow> nodes nw n = None) \<Longrightarrow> net_reach ops nw0 nw'"

lemma net_reach_wf: "net_reach ops nw0 nw \<Longrightarrow> net_wf nw0 \<Longrightarrow> net_wf nw"
  by (induction rule: net_reach.induct) (auto intro: net_step_wf)

lemma network_new_wf: "net_wf (network_new g tm cfg)"
  by (simp add: net_wf_def network_new_def boxes_ok_def routes_ok_def clogs_ok_def sock_map_def
      socket_of_def)

section \<open>A mailbox that is gone stays gone\<close>

definition box_gone :: "nat \<Rightarrow> ('g, 'f, 'd, 'w) network \<Rightarrow> bool" where
  "box_gone i nw \<longleftrightarrow> nw_mailboxes nw i = None \<and> i < nw_next_mb nw"

lemma at_mailbox_gone: "box_gone i nw \<Longrightarrow> at_mailbox j f nw = Ret (r, nw') \<Longrightarrow> box_gone i nw'"
  by (auto simp: at_mailbox_def box_gone_def split_def)

lemma at_socket_gone: "box_gone i nw \<Longrightarrow> at_socket n k f nw = Ret (r, nw') \<Longrightarrow> box_gone i nw'"
  by (auto simp: at_socket_def intro: at_mailbox_gone)

lemma bind_gone: "box_gone i nw \<Longrightarrow> bind n p a nw = Ret (r, nw') \<Longrightarrow> box_gone i nw'"
  by (erule bind_cases) (auto simp: box_gone_def)

lemma box_gone_nodes:
  "box_gone i nw \<Longrightarrow> nw_mailboxes nw' = nw_mailboxes nw \<Longrightarrow> nw_next_mb nw' = nw_next_mb nw \<Longrightarrow> box_gone i nw'"
  by (simp add: box_gone_def)

lemma deregister_gone:
  assumes "box_gone i nw" "deregister_tcp_id cur n p a t nw = Ret (ws, nw')"
  shows "box_gone i nw'"
proof -
  have up: "box_gone i (nw\<lparr>nodes := N\<rparr>)" for N using assms(1) by (simp add: box_gone_def)
  show ?thesis
    using assms(2) up assms(1)
    by (auto simp: deregister_tcp_id_def split: option.splits intro: at_mailbox_gone)
qed

lemma signal_gone:
  assumes "box_gone i nw" "signal_connect cur p a b nw = Ret (r, nw')"
  shows "box_gone i nw'"
proof (cases "get_node_for_addr cur (fst b) nw")
  case (Some n)
  then obtain nd where nd: "nodes nw n = Some nd"
    using assms(2) by (auto simp: signal_connect_def)
  show ?thesis
    using assms Some nd at_mailbox_gone [OF assms(1)]
    by (cases "nd_sockets nd (snd b, p)") (auto simp: signal_connect_def)
qed (use assms in \<open>auto simp: signal_connect_def\<close>)

lemma net_step_gone:
  assumes "box_gone i nw" "net_step ops op nw = Ret nw'"
  shows "box_gone i nw'"
proof (cases op)
  case (NInsert n)
  with assms show ?thesis
    by (auto simp: box_gone_def insert_node_def drop_sockets_def Let_def split: option.splits)
next
  case (NReset n)
  with assms show ?thesis by (auto simp: box_gone_def reset_node_def drop_sockets_def)
next
  case (NDelete n)
  with assms show ?thesis by (auto simp: box_gone_def delete_node_def drop_sockets_def)
next
  case (NSetIp n ip)
  with assms show ?thesis by (auto simp: box_gone_def set_ip_def Let_def split: if_splits)
next
  case (NBind n p a)
  with assms show ?thesis by (auto simp: drop_result_Ret intro: bind_gone)
next
  case (NClose p n a)
  with assms show ?thesis by (auto simp: box_gone_def close_def split: option.splits)
next
  case (NSend n p a b t d)
  then obtain r where "send ops n p a b t d nw = Ret (r, nw')"
    using assms(2) by (auto simp: drop_result_Ret)
  from send_keeps_tables [OF this] show ?thesis using assms(1) by (simp add: box_gone_def)
next
  case (NFire alive cb)
  with assms show ?thesis
    by (auto simp: box_gone_def fire_callback_def split_def split: callback.splits option.splits if_splits)
next
  case (NDeregister cur n p a t)
  with assms show ?thesis by (auto simp: drop_result_Ret intro: deregister_gone)
next
  case (NSignal cur p a b)
  with assms show ?thesis by (auto simp: drop_result_Ret intro: signal_gone)
next
  case (NAccept p n a)
  with assms show ?thesis by (auto simp: drop_result_Ret accept_connect_def intro: at_mailbox_gone)
next
  case (NRecv rx n p a t)
  with assms show ?thesis by (auto simp: drop_result_Ret recv_def intro: at_socket_gone)
next
  case (NRecvSync n p a t)
  with assms show ?thesis by (auto simp: drop_result_Ret recv_sync_def intro: at_socket_gone)
next
  case (NRecvReady cx n p a t)
  with assms show ?thesis by (auto simp: drop_result_Ret recv_ready_def intro: at_socket_gone)
qed (use assms in \<open>auto simp: box_gone_def clog_node_def unclog_node_def clog_link_def
      unclog_link_def register_tcp_id_def\<close>)

lemma net_run_gone: "box_gone i nw \<Longrightarrow> net_run ops xs nw = Ret nw' \<Longrightarrow> box_gone i nw'"
proof (induction xs arbitrary: nw)
  case (Cons x xs)
  then show ?case by (auto dest: net_step_gone)
qed simp

lemma find_port_Some:
  assumes "find_port p nd = Some port"
  shows "next_ephemeral_port nd \<le> port" "nd_sockets nd (port, p) = None"
    "next_ephemeral_port nd \<le> q \<Longrightarrow> q < port \<Longrightarrow> nd_sockets nd (q, p) \<noteq> None"
proof -
  let ?n = "unat (next_ephemeral_port nd)"
  obtain i where i: "i < 65536 - ?n" "port = of_nat (?n + i)" "nd_sockets nd (port, p) = None"
    and before: "\<And>j. j < i \<Longrightarrow> nd_sockets nd (of_nat (?n + j), p) \<noteq> None"
    using assms by (auto simp: find_port_def find_Some_iff)
  have "?n + i < 65536" using i(1) by linarith
  then have u: "unat port = ?n + i" unfolding i(2) unfolding unat_of_nat by simp
  show "nd_sockets nd (port, p) = None" by (rule i(3))
  show "next_ephemeral_port nd \<le> port" using u by (simp add: word_le_nat_alt)
  show "nd_sockets nd (q, p) \<noteq> None" if "next_ephemeral_port nd \<le> q" "q < port"
  proof -
    have "unat q - ?n < i" "q = of_nat (?n + (unat q - ?n))"
      using that u by (auto simp: word_le_nat_alt word_less_nat_alt)
    then show ?thesis using before by metis
  qed
qed

lemma max_word_wrap: "(0xffff :: u16) + 1 = 0"
proof -
  have "unat ((0xffff :: u16) + 1) = 0" by (subst unat_word_ariths) simp
  then show ?thesis by (simp only: unat_eq_0)
qed

section \<open>Properties\<close>

text \<open>C11: in every network a simulation reaches, the tables agree: an address routes to the one
  node that has it, no two sockets share a mailbox, every socket has a mailbox and every mailbox a
  socket, and only existing nodes and links between them are clogged.\<close>

theorem network_tables_consistent:
  assumes "net_reach ops (network_new g tm cfg) nw"
  shows "(\<forall>ip n. addr_to_node nw ip = Some n \<longleftrightarrow> (\<exists>nd. nodes nw n = Some nd \<and> nd_ip nd = Some ip)) \<and>
    (\<forall>p q i. sock_map nw p = Some i \<longrightarrow> sock_map nw q = Some i \<longrightarrow> p = q) \<and>
    ran (sock_map nw) = dom (nw_mailboxes nw) \<and>
    clogged_node nw \<subseteq> dom (nodes nw) \<and> clogged_link nw \<subseteq> dom (nodes nw) \<times> dom (nodes nw)"
  using net_reach_wf [OF assms network_new_wf]
  by (simp add: net_wf_def boxes_ok_def routes_ok_def clogs_ok_def)

definition demo_tm :: "(nat, nat) callback time_state" where
  "demo_tm = \<lparr>th_timer = timer_default, th_clock = clock_new 0\<rparr>"

definition demo_nd :: node where
  "demo_nd = \<lparr>nd_ip = Some (IPv4 1), nd_sockets = [(7, 2) \<mapsto> 0], live_tcp_ids = {9},
     next_ephemeral_port = 0xffff\<rparr>"

definition demo_net :: "(nat, nat, nat, nat) network" where
  "demo_net = (network_new 5 demo_tm network_config_default)
     \<lparr>nodes := [1 \<mapsto> demo_nd, 2 \<mapsto> node_default], addr_to_node := [IPv4 1 \<mapsto> 1],
      nw_mailboxes := [0 \<mapsto> mailbox_default], nw_next_mb := 1\<rparr>"

theorem network_tables_consistent_witness:
  "\<exists>nw. net_reach demo_rng (network_new 5 demo_tm network_config_default) nw \<and>
     addr_to_node nw (IPv4 3) = Some 4 \<and> nodes nw 4 \<noteq> None"
proof -
  let ?n0 = "network_new 5 demo_tm network_config_default :: (nat, nat, nat, nat) network"
  have "net_reach demo_rng ?n0 (insert_node 4 ?n0)"
    by (rule net_reach.step [OF net_reach.start, where op = "NInsert 4"]) (simp_all add: network_new_def)
  moreover obtain nw where s: "net_step demo_rng (NSetIp 4 (IPv4 3)) (insert_node 4 ?n0) = Ret nw"
    and a: "addr_to_node nw (IPv4 3) = Some 4"
    by (simp add: insert_node_def network_new_def set_ip_def node_default_def)
  ultimately have r: "net_reach demo_rng ?n0 nw" by (blast intro: net_reach.step [OF _ s])
  from network_tables_consistent [OF r] a have "nodes nw 4 \<noteq> None" by auto
  with r a show ?thesis by blast
qed


lemma demo_send:
  "\<exists>nw'. send demo_rng 1 2 (IPv4 1, 5) (IPv4 1, 7) 3 (new_udp 8) (demo_net\<lparr>nw_rand := 5\<rparr>) = Ret (Ok (), nw') \<and>
     msg_count nw' = 1"
  by (simp add: send_def loss_stage_def schedule_stage_def demo_net_def network_new_def demo_nd_def
      network_config_default_def packet_loss_default_def latency_config_default_def packet_loss_rate_def
      get_latency_def gen_range_def demo_rng_def new_udp_def is_tcp_data_def demo_tm_def
      now_instant_def clock_now_instant_def check_abort_def clock_new_def ABORT_COUNTER_START_def
      instant_simps instant_ok_def CLOCK_BASE_def add_u64_def Let_def)


text \<open>Clogging isolates: nothing gets from a clogged node, to a clogged node or over a clogged
  link, whatever the protocol; the sender sees \<open>ConnectionRefused\<close> and the network, the pending
  deliveries and even the random generator are untouched.\<close>

theorem clogged_send_refused:
  assumes "(if is_loopback (fst dst) then Some n else addr_to_node nw (fst dst)) = Some m"
    and "n \<in> clogged_node nw \<or> m \<in> clogged_node nw \<or> (n, m) \<in> clogged_link nw"
  shows "send ops n p src dst tag data nw = Ret (Err ConnectionRefused, nw)"
  using assms by (simp add: send_def)

theorem clogged_send_refused_witness:
  "\<exists>nw. clog_link 2 1 demo_net = Ret nw \<and>
     send demo_rng 2 2 (IPv4 9, 5) (IPv4 1, 7) 3 (new_udp 8) nw = Ret (Err ConnectionRefused, nw)"
proof -
  obtain nw where c: "clog_link 2 1 demo_net = Ret nw" and l: "(2, 1) \<in> clogged_link nw"
    and a: "addr_to_node nw (IPv4 1) = Some 1"
    by (simp add: clog_link_def demo_net_def network_new_def)
  show ?thesis using clogged_send_refused [of "(IPv4 1, 7)" 2 nw 1] c l a by simp
qed

text \<open>C34: a message in flight is for the socket it was sent to and no other: once that socket is
  closed, its delivery does nothing, whatever happened in between, and in particular when the same
  port was bound again.\<close>

theorem late_message_lost:
  assumes "net_wf nw" "socket_of n (snd addr, p) nw = Some i"
    and "net_run ops xs (close p n addr nw) = Ret nw'"
  shows "fire_callback alive (Deliver i msg) nw' = ([], None, nw')"
proof -
  have b: "boxes_ok (sock_map nw) (nw_mailboxes nw) (nw_next_mb nw)" using assms(1) by (simp add: net_wf_def)
  have "sock_map nw (n, (snd addr, p)) = Some i" using assms(2) by (simp add: sock_map_def)
  then have "i < nw_next_mb nw" using boxes_okD(2,3) [OF b] by (metis ranI)
  then have "box_gone i (close p n addr nw)"
    using assms(2) by (auto simp: box_gone_def close_def socket_of_def split: option.splits)
  from net_run_gone [OF this assms(3)] show ?thesis by (simp add: fire_callback_def box_gone_def)
qed

lemma demo_net_wf: "net_wf demo_net"
  by (auto simp: net_wf_def boxes_ok_def routes_ok_def clogs_ok_def demo_net_def network_new_def
      sock_map_def socket_of_def demo_nd_def node_default_def ran_def dom_def
      split: option.splits if_splits)

theorem late_message_lost_witness:
  "\<exists>nw'. net_run demo_rng [NBind 1 2 (IPv4 1, 7)] (close 2 1 (IPv4 1, 7) demo_net) = Ret nw' \<and>
     socket_of 1 (7, 2) nw' = Some 1 \<and>
     fire_callback (\<lambda>_. True) (Deliver 0 (demo_msg 5)) nw' = ([], None, nw')"
proof -
  obtain nw' where r: "net_run demo_rng [NBind 1 2 (IPv4 1, 7)] (close 2 1 (IPv4 1, 7) demo_net) = Ret nw'"
    and s: "socket_of 1 (7, 2) nw' = Some 1"
    by (simp add: drop_result_def bind_def close_def demo_net_def network_new_def demo_nd_def
        resolve_ip_def resolve_port_def socket_of_def)
  from late_message_lost [OF demo_net_wf _ r, of 0] r s show ?thesis
    by (simp add: socket_of_def demo_net_def demo_nd_def network_new_def)
qed

text \<open>A successful bind gives the port asked for or, for port 0, the first port from the node's
  next ephemeral port on that is free for the protocol; the socket was free, gets an empty mailbox
  of its own, and no other socket changes.\<close>

theorem bind_gives_free_port:
  assumes "bind n p addr nw = Ret (Ok (ip, port), nw')" "net_wf nw"
  shows "\<exists>nd. nodes nw n = Some nd \<and>
    (snd addr = 0 \<or> port = snd addr) \<and>
    (snd addr \<noteq> 0 \<or> next_ephemeral_port nd \<le> port \<and>
       \<not> (\<exists>q. next_ephemeral_port nd \<le> q \<and> q < port \<and> nd_sockets nd (q, p) = None)) \<and>
    (\<exists>i. nd_sockets nd (port, p) = None \<and> i \<notin> ran (sock_map nw) \<and>
       nw_mailboxes nw' i = Some mailbox_default \<and>
       sock_map nw' = (sock_map nw)((n, (port, p)) \<mapsto> i))"
  using assms(1)
proof (cases rule: bind_cases)
  case (bound nd ip' port' nd')
  then have eqs: "port' = port" "ip' = ip" by simp_all
  note rp = bound(3) [unfolded eqs] and nw' = bound(6) [unfolded eqs]
  have k: "nd_sockets nd' = nd_sockets nd" by (subst resolve_port_keeps [OF rp]) simp
  note S = bind_sock_map(2) [OF assms(1)]
  have b: "boxes_ok (sock_map nw) (nw_mailboxes nw) (nw_next_mb nw)" using assms(2) by (simp add: net_wf_def)
  have "nw_next_mb nw \<notin> ran (sock_map nw)" using boxes_okD(2,3) [OF b] by auto
  moreover have "snd addr \<noteq> 0 \<or> next_ephemeral_port nd \<le> port \<and>
      \<not> (\<exists>q. next_ephemeral_port nd \<le> q \<and> q < port \<and> nd_sockets nd (q, p) = None)"
  proof (cases "snd addr = 0")
    case True
    then have "find_port p nd = Some port" using rp by (auto simp: resolve_port_def split: option.splits)
    from find_port_Some [OF this] show ?thesis by blast
  qed simp
  moreover have "snd addr = 0 \<or> port = snd addr" using rp by (auto simp: resolve_port_def split: if_splits)
  moreover have "nd_sockets nd (port, p) = None" using bound(4) by (simp add: k eqs)
  ultimately show ?thesis using bound(1) S by (auto simp: nw')
qed simp_all

lemma demo_bind:
  "\<exists>nw'. bind 1 2 (IPv4 0, 11) demo_net = Ret (Ok (IPv4 1, 11), nw')"
  by (simp add: bind_def demo_net_def network_new_def demo_nd_def resolve_ip_def resolve_port_def)

theorem bind_gives_free_port_witness:
  "\<exists>nw' i. bind 1 2 (IPv4 0, 11) demo_net = Ret (Ok (IPv4 1, 11), nw') \<and>
     nw_mailboxes nw' i = Some mailbox_default \<and> sock_map nw' (1, (11, 2)) = Some i"
proof -
  obtain nw' where b: "bind 1 2 (IPv4 0, 11) demo_net = Ret (Ok (IPv4 1, 11), nw')" using demo_bind ..
  from bind_gives_free_port [OF b demo_net_wf] b show ?thesis by (auto simp del: fun_upd_apply) auto
qed

text \<open>The ephemeral ports wrap around to 0: once port 65535 was handed out, the next bind to an
  unspecified port succeeds and hands out port 0, which is not a port a peer can be told to use.\<close>

theorem ephemeral_port_zero:
  assumes "nodes nw n = Some nd" "next_ephemeral_port nd = 0xffff" "nd_ip nd = Some ip"
    and "nd_sockets nd (0xffff, p) = None" "nd_sockets nd (0, p) = None" "is_unspecified (fst addr)"
    and "snd addr = 0"
  shows "\<exists>nw1 nw2. bind n p addr nw = Ret (Ok (ip, 0xffff), nw1) \<and>
    bind n p addr nw1 = Ret (Ok (ip, 0), nw2)"
proof -
  have f1: "find_port p nd = Some 0xffff"
  proof -
    have "[unat (next_ephemeral_port nd)..<65536] = [65535]" by (simp add: assms(2) upt_conv_Cons)
    then show ?thesis using assms(4) by (simp add: find_port_def)
  qed
  let ?nd = "nd\<lparr>next_ephemeral_port := 0, nd_sockets := (nd_sockets nd)((0xffff, p) \<mapsto> nw_next_mb nw)\<rparr>"
  have f2: "find_port p ?nd = Some 0"
  proof -
    have "[0..<65536] = (0::nat) # [Suc 0..<65536]" by (rule upt_conv_Cons) simp
    then show ?thesis using assms(5) by (simp add: find_port_def del: upt_rec_numeral)
  qed
  have r1: "resolve_port p 0 nd = Ok (0xffff, nd\<lparr>next_ephemeral_port := 0\<rparr>)"
    by (simp add: resolve_port_def f1 max_word_wrap)
  have r2: "\<exists>nd2. resolve_port p 0 ?nd = Ok (0, nd2) \<and> nd_sockets nd2 (0, p) = None"
    using assms(5) by (simp add: resolve_port_def f2)
  have i1: "resolve_ip nd (fst addr) = Ret (Ok ip)" "resolve_ip ?nd (fst addr) = Ret (Ok ip)"
    using assms(3,6) by (simp_all add: resolve_ip_def)
  obtain nw1 where b1: "bind n p addr nw = Ret (Ok (ip, 0xffff), nw1)" and n1: "nodes nw1 n = Some ?nd"
    using assms(1,4,7) r1 i1(1) by (simp add: bind_def Let_def)
  then show ?thesis using assms(7) r2 i1(2) by (auto simp: bind_def Let_def)
qed

theorem ephemeral_port_zero_witness:
  "\<exists>nw1 nw2. bind 1 2 (IPv4 0, 0) demo_net = Ret (Ok (IPv4 1, 0xffff), nw1) \<and>
    bind 1 2 (IPv4 0, 0) nw1 = Ret (Ok (IPv4 1, 0), nw2)"
  using ephemeral_port_zero [of demo_net 1 demo_nd "IPv4 1" 2 "(IPv4 0, 0)"]
  by (simp add: demo_net_def network_new_def demo_nd_def)

text \<open>Closing a TCP session ends it on the closing node and wakes, at the peer's socket, exactly
  the readers whose tag carries the session's number in its upper half, so that they see the end.\<close>

theorem deregister_wakes_readers:
  assumes "deregister_tcp_id cur n p remote t nw = Ret (ws, nw')"
    and "get_node_for_addr cur (fst remote) nw = Some m" "socket_of m (snd remote, p) nw = Some i"
    and "nw_mailboxes nw i = Some mb"
  shows "mset ws = image_mset snd {#x \<in># mset (mb_wakers mb). drop_bit 32 (fst x) = ucast t#} \<and>
    (\<exists>mb'. nw_mailboxes nw' i = Some mb' \<and> mb_msgs mb' = mb_msgs mb) \<and>
    (nodes nw n = None \<or> t \<in> live_tcp_ids (the (nodes nw n)) \<and> t \<notin> live_tcp_ids (the (nodes nw' n)))"
proof -
  obtain nw1 where d: "(case nodes nw n of
          None \<Rightarrow> Ret nw
        | Some nd \<Rightarrow>
            bind_run (assert_run (t \<in> live_tcp_ids nd) AssertFailed) (\<lambda>_.
              Ret (nw\<lparr>nodes := (nodes nw)(n \<mapsto> nd\<lparr>live_tcp_ids := live_tcp_ids nd - {t}\<rparr>)\<rparr>))) = Ret nw1"
    using assms(1) by (auto simp: deregister_tcp_id_def)
  have n1: "addr_to_node nw1 = addr_to_node nw" "nw_mailboxes nw1 = nw_mailboxes nw"
    "socket_of m (snd remote, p) nw1 = Some i"
    using d assms(3) by (auto simp: socket_of_def split: option.splits if_splits)
  obtain ws' mb' where w: "wake_tcp_connection t mb = (ws', mb')" by fastforce
  have "get_node_for_addr cur (fst remote) nw1 = Some m"
    using assms(2) n1(1) by (simp add: get_node_for_addr_def split: if_splits)
  then have res: "ws = ws'" "nw' = nw1\<lparr>nw_mailboxes := (nw_mailboxes nw)(i \<mapsto> mb')\<rparr>"
    using assms(1,4) d n1 w by (auto simp: deregister_tcp_id_def at_mailbox_def)
  note sp = wake_where_spec [OF w [unfolded wake_tcp_connection_def]]
  have "mb_msgs mb' = mb_msgs mb" by (subst conjunct2 [OF conjunct2 [OF sp]]) simp
  moreover have "nodes nw n = None \<or> t \<in> live_tcp_ids (the (nodes nw n)) \<and> t \<notin> live_tcp_ids (the (nodes nw' n))"
    using d by (auto simp: res(2) split: option.splits)
  ultimately show ?thesis using sp by (simp add: res)
qed

definition demo_net2 :: "(nat, nat, nat, nat) network" where
  "demo_net2 = demo_net\<lparr>nw_mailboxes := [0 \<mapsto> mailbox_default\<lparr>mb_wakers := [(push_bit 32 9, 4), (0, 5)]\<rparr>]\<rparr>"

theorem deregister_wakes_readers_witness:
  "\<exists>nw'. deregister_tcp_id 2 1 2 (IPv4 1, 7) 9 demo_net2 = Ret ([4], nw') \<and>
     9 \<notin> live_tcp_ids (the (nodes nw' 1))"
proof -
  obtain ws nw' where d: "deregister_tcp_id 2 1 2 (IPv4 1, 7) 9 demo_net2 = Ret (ws, nw')"
    by (simp add: deregister_tcp_id_def get_node_for_addr_def socket_of_def at_mailbox_def demo_net2_def
        demo_net_def network_new_def demo_nd_def split_def)
  have "mset ws = {#4#} \<and> 9 \<notin> live_tcp_ids (the (nodes nw' 1))"
    using deregister_wakes_readers [OF d, of 1 0]
    by (simp add: get_node_for_addr_def socket_of_def demo_net2_def demo_net_def network_new_def
        demo_nd_def mailbox_default_def)
  then show ?thesis using d by (auto simp: mset_single_iff)
qed

end
