(* ===== verification/Endpoint.thy ===== *)
theory Endpoint
  imports Network_Facts
begin

text \<open>
  \<open>NetSim\<close> and \<open>Endpoint\<close> of \<open>msim/src/sim/net/mod.rs\<close>: the simulator object that owns the
  network, the globally unique TCP session numbers, and the bound or connected endpoints.

  An endpoint is shared (\<open>Arc<Endpoint>\<close>) and holds the set of its live sessions, so endpoints
  live in a store; \<open>endpoint_drop\<close> is what happens when the last reference goes. \<open>cur\<close> is the
  node of the running task, \<open>plugin::node()\<close>. An asynchronous method is given as the state change
  it makes before it first suspends and, where it does more afterwards, the change after.
\<close>

section \<open>The data that travels\<close>

text \<open>The values the simulator itself boxes into a payload, and those of other simulators.\<close>

datatype tcp_message = TcpId u32 | TcpPayload u32 "u8 list"

datatype wire_data = RawBytes "u8 list" | UdpBytes "u8 list" | TcpWire tcp_message | OtherData nat

section \<open>State\<close>

record endpoint =
  ep_node :: node_id
  ep_addr :: socket_addr
  ep_proto :: proto
  ep_peer :: "socket_addr option"
  ep_live_tcp_ids :: "u32 set"

text \<open>\<open>SocketState\<close>: the endpoint is a reference into the store.\<close>

record socket_state =
  ss_ty :: proto
  ss_endpoint :: "nat option"
  ss_listening :: bool

type_synonym fd = int

record ('g, 'f, 'w) net_sim =
  ns_network :: "('g, 'f, wire_data, 'w) network"
  ns_sockets :: "node_id \<times> fd \<rightharpoonup> socket_state"
  ns_next_tcp_id :: u32
  ns_endpoints :: "nat \<rightharpoonup> endpoint"
  ns_next_ep :: nat

definition net_sim_new ::
    "'g \<Rightarrow> (wire_data, 'w) callback time_state \<Rightarrow> ('g, 'f) network_config \<Rightarrow> ('g, 'f, 'w) net_sim" where
  "net_sim_new rand time config =
     \<lparr>ns_network = network_new rand time config, ns_sockets = Map.empty, ns_next_tcp_id = 1,
      ns_endpoints = Map.empty, ns_next_ep = 0\<rparr>"

definition with_network ::
    "(('g, 'f, wire_data, 'w) network \<Rightarrow> ('a \<times> ('g, 'f, wire_data, 'w) network) run) \<Rightarrow>
     ('g, 'f, 'w) net_sim \<Rightarrow> ('a \<times> ('g, 'f, 'w) net_sim) run" where
  "with_network f ns =
     bind_run (f (ns_network ns)) (\<lambda>(r, nw). Ret (r, ns\<lparr>ns_network := nw\<rparr>))"

definition with_network' ::
    "(('g, 'f, wire_data, 'w) network \<Rightarrow> ('g, 'f, wire_data, 'w) network run) \<Rightarrow>
     ('g, 'f, 'w) net_sim \<Rightarrow> ('g, 'f, 'w) net_sim run" where
  "with_network' f ns = bind_run (f (ns_network ns)) (\<lambda>nw. Ret (ns\<lparr>ns_network := nw\<rparr>))"

section \<open>NetSim\<close>

definition ns_stat :: "('g, 'f, 'w) net_sim \<Rightarrow> u64" where
  "ns_stat ns = stat (ns_network ns)"

definition ns_update_config ::
    "(('g, 'f) network_config \<Rightarrow> ('g, 'f) network_config) \<Rightarrow> ('g, 'f, 'w) net_sim \<Rightarrow> ('g, 'f, 'w) net_sim" where
  "ns_update_config f ns = ns\<lparr>ns_network := update_config f (ns_network ns)\<rparr>"

definition ns_create_node :: "node_id \<Rightarrow> ('g, 'f, 'w) net_sim \<Rightarrow> ('g, 'f, 'w) net_sim" where
  "ns_create_node n ns = ns\<lparr>ns_network := insert_node n (ns_network ns)\<rparr>"

definition ns_reset_node :: "node_id \<Rightarrow> ('g, 'f, 'w) net_sim \<Rightarrow> ('g, 'f, 'w) net_sim run" where
  "ns_reset_node n = with_network' (reset_node n)"

text \<open>\<open>HostNetworkState::delete_node\<close> removes every socket of the node.\<close>

definition host_delete_node ::
    "node_id \<Rightarrow> (node_id \<times> fd \<rightharpoonup> socket_state) \<Rightarrow> (node_id \<times> fd \<rightharpoonup> socket_state)" where
  "host_delete_node n socks = drop_keys (\<lambda>k. fst k = n) socks"

definition ns_delete_node :: "node_id \<Rightarrow> ('g, 'f, 'w) net_sim \<Rightarrow> ('g, 'f, 'w) net_sim run" where
  "ns_delete_node n ns =
     bind_run (with_network' (delete_node n) ns) (\<lambda>ns.
       Ret (ns\<lparr>ns_sockets := host_delete_node n (ns_sockets ns)\<rparr>))"

definition ns_set_ip :: "node_id \<Rightarrow> ip_addr \<Rightarrow> ('g, 'f, 'w) net_sim \<Rightarrow> ('g, 'f, 'w) net_sim run" where
  "ns_set_ip n ip = with_network' (set_ip n ip)"

definition ns_get_ip :: "node_id \<Rightarrow> ('g, 'f, 'w) net_sim \<Rightarrow> ip_addr option run" where
  "ns_get_ip n ns = get_ip n (ns_network ns)"

definition ns_connect :: "node_id \<Rightarrow> ('g, 'f, 'w) net_sim \<Rightarrow> ('g, 'f, 'w) net_sim run" where
  "ns_connect n = with_network' (unclog_node n)"

definition ns_disconnect :: "node_id \<Rightarrow> ('g, 'f, 'w) net_sim \<Rightarrow> ('g, 'f, 'w) net_sim run" where
  "ns_disconnect n = with_network' (clog_node n)"

definition ns_connect2 :: "node_id \<Rightarrow> node_id \<Rightarrow> ('g, 'f, 'w) net_sim \<Rightarrow> ('g, 'f, 'w) net_sim run" where
  "ns_connect2 a b =
     with_network' (\<lambda>nw. bind_run (unclog_link a b nw) (\<lambda>nw. unclog_link b a nw))"

definition ns_disconnect2 :: "node_id \<Rightarrow> node_id \<Rightarrow> ('g, 'f, 'w) net_sim \<Rightarrow> ('g, 'f, 'w) net_sim run" where
  "ns_disconnect2 a b =
     with_network' (\<lambda>nw. bind_run (clog_link a b nw) (\<lambda>nw. clog_link b a nw))"

text \<open>\<open>rand_delay\<close>: the \<open>Sleep\<close> it then waits for, of 0 to 4 microseconds.\<close>

definition rand_delay ::
    "('g, 'f) rng_ops \<Rightarrow> ('g, 'f, 'w) net_sim \<Rightarrow> (sleep \<times> ('g, 'f, 'w) net_sim) run" where
  "rand_delay ops = with_network (\<lambda>nw.
     bind_run (gen_range ops 0 5 (nw_rand nw)) (\<lambda>(d, g).
     bind_run (time_sleep (d * 1000) (nw_time nw)) (\<lambda>(sl, tm).
       Ret (sl, nw\<lparr>nw_rand := g, nw_time := tm\<rparr>))))"

text \<open>\<open>AtomicU32::fetch_add\<close> wraps around.\<close>

definition next_tcp_id :: "('g, 'f, 'w) net_sim \<Rightarrow> u32 \<times> ('g, 'f, 'w) net_sim" where
  "next_tcp_id ns = (ns_next_tcp_id ns, ns\<lparr>ns_next_tcp_id := ns_next_tcp_id ns + 1\<rparr>)"

section \<open>Endpoints\<close>

definition new_endpoint :: "endpoint \<Rightarrow> ('g, 'f, 'w) net_sim \<Rightarrow> nat \<times> ('g, 'f, 'w) net_sim" where
  "new_endpoint ep ns =
     (ns_next_ep ns, ns\<lparr>ns_endpoints := (ns_endpoints ns)(ns_next_ep ns \<mapsto> ep), ns_next_ep := ns_next_ep ns + 1\<rparr>)"

text \<open>The common part of \<open>bind_sync\<close>, \<open>bind\<close> and \<open>connect_sync\<close>.\<close>

definition endpoint_bind ::
    "node_id \<Rightarrow> proto \<Rightarrow> socket_addr \<Rightarrow> socket_addr option \<Rightarrow> ('g, 'f, 'w) net_sim \<Rightarrow>
     (nat io_result \<times> ('g, 'f, 'w) net_sim) run" where
  "endpoint_bind cur proto addr peer ns =
     bind_run (with_network (bind cur proto addr) ns) (\<lambda>(r, ns).
       case r of
         Err e \<Rightarrow> Ret (Err e, ns)
       | Ok a \<Rightarrow>
           (case new_endpoint \<lparr>ep_node = cur, ep_addr = a, ep_proto = proto, ep_peer = peer,
                               ep_live_tcp_ids = {}\<rparr> ns of
              (i, ns) \<Rightarrow> Ret (Ok i, ns)))"

definition endpoint_bind_sync ::
    "node_id \<Rightarrow> proto \<Rightarrow> socket_addr \<Rightarrow> ('g, 'f, 'w) net_sim \<Rightarrow>
     (nat io_result \<times> ('g, 'f, 'w) net_sim) run" where
  "endpoint_bind_sync cur proto addr = endpoint_bind cur proto addr None"

definition local_for_peer :: "socket_addr \<Rightarrow> socket_addr" where
  "local_for_peer peer = (IPv4 (if is_loopback (fst peer) then 0x7f000001 else 0), 0)"

definition endpoint_connect_sync ::
    "node_id \<Rightarrow> proto \<Rightarrow> socket_addr \<Rightarrow> ('g, 'f, 'w) net_sim \<Rightarrow>
     (nat io_result \<times> ('g, 'f, 'w) net_sim) run" where
  "endpoint_connect_sync cur proto peer = endpoint_bind cur proto (local_for_peer peer) (Some peer)"

definition get_endpoint :: "nat \<Rightarrow> ('g, 'f, 'w) net_sim \<Rightarrow> endpoint run" where
  "get_endpoint i ns = expect KeyMissing (ns_endpoints ns i)"

definition udp_tag :: "endpoint \<Rightarrow> u64 io_result" where
  "udp_tag ep = (if snd (ep_addr ep) = 0 then Err NotConnected else Ok (ucast (snd (ep_addr ep))))"

definition local_addr :: "endpoint \<Rightarrow> socket_addr io_result" where
  "local_addr ep = Ok (ep_addr ep)"

definition peer_addr :: "endpoint \<Rightarrow> socket_addr io_result" where
  "peer_addr ep = (case ep_peer ep of None \<Rightarrow> Err NotConnected | Some p \<Rightarrow> Ok p)"

definition allocate_local_tcp_id ::
    "nat \<Rightarrow> ('g, 'f, 'w) net_sim \<Rightarrow> (u32 \<times> ('g, 'f, 'w) net_sim) run" where
  "allocate_local_tcp_id i ns =
     bind_run (get_endpoint i ns) (\<lambda>ep.
       case next_tcp_id ns of
         (t, ns) \<Rightarrow>
           let ns = ns\<lparr>ns_endpoints := (ns_endpoints ns)
                        (i \<mapsto> ep\<lparr>ep_live_tcp_ids := insert t (ep_live_tcp_ids ep)\<rparr>)\<rparr>
           in bind_run (with_network' (register_tcp_id (ep_node ep) t) ns) (\<lambda>ns. Ret (t, ns)))"

definition endpoint_deregister_tcp_id ::
    "node_id \<Rightarrow> nat \<Rightarrow> socket_addr \<Rightarrow> u32 \<Rightarrow> ('g, 'f, 'w) net_sim \<Rightarrow>
     ('w list \<times> ('g, 'f, 'w) net_sim) run" where
  "endpoint_deregister_tcp_id cur i remote t ns =
     bind_run (get_endpoint i ns) (\<lambda>ep.
     bind_run (assert_run (t \<in> ep_live_tcp_ids ep) AssertFailed) (\<lambda>_.
       let ns = ns\<lparr>ns_endpoints := (ns_endpoints ns)
                    (i \<mapsto> ep\<lparr>ep_live_tcp_ids := ep_live_tcp_ids ep - {t}\<rparr>)\<rparr>
       in with_network (deregister_tcp_id cur (ep_node ep) (ep_proto ep) remote t) ns))"

definition send_to_raw_sync ::
    "('g, 'f) rng_ops \<Rightarrow> node_id \<Rightarrow> endpoint \<Rightarrow> socket_addr \<Rightarrow> u64 \<Rightarrow> wire_data payload \<Rightarrow>
     ('g, 'f, 'w) net_sim \<Rightarrow> (unit io_result \<times> ('g, 'f, 'w) net_sim) run" where
  "send_to_raw_sync ops cur ep dst tag data =
     with_network (send ops cur (ep_proto ep) (ep_addr ep) dst tag data)"

text \<open>\<open>send_to_raw\<close>: after a successful send, the random delay it then sleeps for.\<close>

definition send_to_raw ::
    "('g, 'f) rng_ops \<Rightarrow> node_id \<Rightarrow> endpoint \<Rightarrow> socket_addr \<Rightarrow> u64 \<Rightarrow> wire_data payload \<Rightarrow>
     ('g, 'f, 'w) net_sim \<Rightarrow> (sleep io_result \<times> ('g, 'f, 'w) net_sim) run" where
  "send_to_raw ops cur ep dst tag data ns =
     bind_run (send_to_raw_sync ops cur ep dst tag data ns) (\<lambda>(r, ns).
       case r of
         Err e \<Rightarrow> Ret (Err e, ns)
       | Ok _ \<Rightarrow> bind_run (rand_delay ops ns) (\<lambda>(sl, ns). Ret (Ok sl, ns)))"

text \<open>
  \<open>recv_from_raw\<close>: it registers a one-shot channel \<open>rx\<close> and waits on it; once that gives a
  message, or is cancelled because the mailbox is gone (\<open>None\<close>), it goes on.
\<close>

definition recv_from_raw_start ::
    "nat \<Rightarrow> node_id \<Rightarrow> endpoint \<Rightarrow> u64 \<Rightarrow> ('g, 'f, 'w) net_sim \<Rightarrow>
     (wire_data message option \<times> ('g, 'f, 'w) net_sim) run" where
  "recv_from_raw_start rx cur ep tag = with_network (recv rx cur (ep_proto ep) (ep_addr ep) tag)"

definition recv_from_raw_finish ::
    "('g, 'f) rng_ops \<Rightarrow> wire_data message option \<Rightarrow> ('g, 'f, 'w) net_sim \<Rightarrow>
     ((sleep \<times> wire_data payload \<times> socket_addr) io_result \<times> ('g, 'f, 'w) net_sim) run" where
  "recv_from_raw_finish ops got ns =
     (case got of
        None \<Rightarrow> Ret (Err BrokenPipe, ns)
      | Some m \<Rightarrow> bind_run (rand_delay ops ns) (\<lambda>(sl, ns). Ret (Ok (sl, msg_data m, msg_from m), ns)))"

definition recv_from_raw_sync ::
    "node_id \<Rightarrow> endpoint \<Rightarrow> u64 \<Rightarrow> ('g, 'f, 'w) net_sim \<Rightarrow>
     ((wire_data payload \<times> socket_addr) io_result \<times> ('g, 'f, 'w) net_sim) run" where
  "recv_from_raw_sync cur ep tag ns =
     bind_run (with_network (recv_sync cur (ep_proto ep) (ep_addr ep) tag) ns) (\<lambda>(m, ns).
       Ret (case m of None \<Rightarrow> Err WouldBlock | Some m \<Rightarrow> Ok (msg_data m, msg_from m), ns))"

text \<open>\<open>recv_from\<close> and \<open>recv\<close> copy the data, as much as fits, into a buffer of the given length.\<close>

definition copy_to_buffer :: "nat \<Rightarrow> wire_data payload \<Rightarrow> u8 list run" where
  "copy_to_buffer len p = (case pl_data p of RawBytes bs \<Rightarrow> Ret (take len bs) | _ \<Rightarrow> Panic WrongPayload)"

definition recv_from_connected ::
    "endpoint \<Rightarrow> wire_data payload \<times> socket_addr \<Rightarrow> wire_data payload io_result run" where
  "recv_from_connected ep got =
     (case peer_addr ep of
        Err e \<Rightarrow> Ret (Err e)
      | Ok peer \<Rightarrow> bind_run (assert_run (snd got = peer) AssertFailed) (\<lambda>_. Ret (Ok (fst got))))"

definition is_peer_live ::
    "node_id \<Rightarrow> endpoint \<Rightarrow> socket_addr option \<Rightarrow> u32 \<Rightarrow> ('g, 'f, 'w) net_sim \<Rightarrow> bool run" where
  "is_peer_live cur ep peer t ns =
     bind_run (case peer of Some p \<Rightarrow> Ret p | None \<Rightarrow> expect UnwrapNone (ep_peer ep)) (\<lambda>p.
       is_tcp_session_live cur p t (ns_network ns))"

definition ep_recv_ready ::
    "'w option \<Rightarrow> node_id \<Rightarrow> endpoint \<Rightarrow> u64 \<Rightarrow> ('g, 'f, 'w) net_sim \<Rightarrow>
     (bool \<times> ('g, 'f, 'w) net_sim) run" where
  "ep_recv_ready cx cur ep tag = with_network (recv_ready cx cur (ep_proto ep) (ep_addr ep) tag)"

text \<open>
  \<open>Drop for Endpoint\<close>: nothing when the running node was killed; else every session must have
  ended, and the port is released.
\<close>

definition endpoint_drop :: "bool \<Rightarrow> nat \<Rightarrow> ('g, 'f, 'w) net_sim \<Rightarrow> ('g, 'f, 'w) net_sim run" where
  "endpoint_drop killed i ns =
     bind_run (get_endpoint i ns) (\<lambda>ep.
       let gone = ns\<lparr>ns_endpoints := (ns_endpoints ns)(i := None)\<rparr> in
       if killed then Ret gone
       else bind_run (assert_run (ep_live_tcp_ids ep = {}) AssertFailed) (\<lambda>_.
              Ret (gone\<lparr>ns_network := close (ep_proto ep) (ep_node ep) (ep_addr ep) (ns_network ns)\<rparr>)))"

end
