(* ===== verification/Socket_Api.thy ===== *)
theory Socket_Api
  imports Endpoint
begin

text \<open>
  The intercepted socket calls of \<open>msim/src/sim/net/mod.rs\<close>, and the table of sockets they work
  on. A call gives its return value and the \<open>errno\<close> it sets, if any, together with what it writes
  through its pointers. \<open>newfd\<close> is the descriptor \<open>alloc_fd\<close> gets from the operating system.
  Constants are those of Linux.
\<close>

section \<open>The socket table\<close>

datatype errno =
    EDESTADDRREQ | ENOTSOCK | EINVAL | ECONNABORTED | EADDRNOTAVAIL | EADDRINUSE | EISCONN
  | ECONNREFUSED | EAGAIN

type_synonym c_ret = "int \<times> errno option"

definition c_fail :: "errno \<Rightarrow> c_ret" where
  "c_fail e = (-1, Some e)"

text \<open>What the standard library makes of the \<open>errno\<close> of a failed call.\<close>

definition kind_of_errno :: "errno option \<Rightarrow> io_kind" where
  "kind_of_errno e =
     (case e of
        Some EADDRINUSE \<Rightarrow> AddrInUse
      | Some EADDRNOTAVAIL \<Rightarrow> AddrNotAvailable
      | Some EINVAL \<Rightarrow> InvalidInput
      | Some ECONNREFUSED \<Rightarrow> ConnectionRefused
      | Some ECONNABORTED \<Rightarrow> ConnectionAborted
      | Some EAGAIN \<Rightarrow> WouldBlock
      | _ \<Rightarrow> Uncategorized)"

definition add_socket ::
    "node_id \<Rightarrow> fd \<Rightarrow> socket_state \<Rightarrow> ('g, 'f, 'w) net_sim \<Rightarrow> ('g, 'f, 'w) net_sim run" where
  "add_socket cur fd ss ns =
     bind_run (assert_run (ns_sockets ns (cur, fd) = None) AssertFailed) (\<lambda>_.
       Ret (ns\<lparr>ns_sockets := (ns_sockets ns)((cur, fd) \<mapsto> ss)\<rparr>))"

text \<open>\<open>close_socket\<close>: whether there was one, and the endpoint whose reference it drops.\<close>

definition close_socket ::
    "node_id \<Rightarrow> fd \<Rightarrow> ('g, 'f, 'w) net_sim \<Rightarrow> bool \<times> nat option \<times> ('g, 'f, 'w) net_sim" where
  "close_socket cur fd ns =
     (case ns_sockets ns (cur, fd) of
        None \<Rightarrow> (False, None, ns)
      | Some ss \<Rightarrow> (True, ss_endpoint ss, ns\<lparr>ns_sockets := (ns_sockets ns)((cur, fd) := None)\<rparr>))"

definition with_socket ::
    "node_id \<Rightarrow> fd \<Rightarrow> (socket_state \<Rightarrow> ('g, 'f, 'w) net_sim \<Rightarrow> ('a \<times> ('g, 'f, 'w) net_sim) run) \<Rightarrow>
     ('g, 'f, 'w) net_sim \<Rightarrow> ('a io_result \<times> ('g, 'f, 'w) net_sim) run" where
  "with_socket cur fd cb ns =
     (case ns_sockets ns (cur, fd) of
        None \<Rightarrow> Ret (Err NotConnected, ns)
      | Some ss \<Rightarrow> bind_run (cb ss ns) (\<lambda>(r, ns). Ret (Ok r, ns)))"

definition or_errno ::
    "errno \<Rightarrow> (c_ret io_result \<times> ('g, 'f, 'w) net_sim) run \<Rightarrow> (c_ret \<times> ('g, 'f, 'w) net_sim) run" where
  "or_errno e m =
     bind_run m (\<lambda>(r, ns). Ret (case r of Ok c \<Rightarrow> c | Err _ \<Rightarrow> c_fail e, ns))"

definition set_socket ::
    "node_id \<Rightarrow> fd \<Rightarrow> socket_state \<Rightarrow> ('g, 'f, 'w) net_sim \<Rightarrow> ('g, 'f, 'w) net_sim" where
  "set_socket cur fd ss ns = ns\<lparr>ns_sockets := (ns_sockets ns)((cur, fd) \<mapsto> ss)\<rparr>"

definition try_get_endpoint_from_socket ::
    "node_id \<Rightarrow> fd \<Rightarrow> ('g, 'f, 'w) net_sim \<Rightarrow> nat option io_result" where
  "try_get_endpoint_from_socket cur fd ns =
     (case ns_sockets ns (cur, fd) of None \<Rightarrow> Err NotConnected | Some ss \<Rightarrow> Ok (ss_endpoint ss))"

definition get_endpoint_from_socket ::
    "node_id \<Rightarrow> fd \<Rightarrow> ('g, 'f, 'w) net_sim \<Rightarrow> nat io_result" where
  "get_endpoint_from_socket cur fd ns =
     (case try_get_endpoint_from_socket cur fd ns of
        Err e \<Rightarrow> Err e
      | Ok None \<Rightarrow> Err NotConnected
      | Ok (Some i) \<Rightarrow> Ok i)"

section \<open>The calls\<close>

text \<open>\<open>close\<close>: \<open>None\<close> when the call is forwarded to the operating system.\<close>

definition sys_close ::
    "node_id \<Rightarrow> fd \<Rightarrow> ('g, 'f, 'w) net_sim \<Rightarrow> c_ret option \<times> nat option \<times> ('g, 'f, 'w) net_sim" where
  "sys_close cur fd ns =
     (case close_socket cur fd ns of
        (True, ep, ns) \<Rightarrow> (Some (0, None), ep, ns)
      | (False, _, ns) \<Rightarrow> (None, None, ns))"

text \<open>\<open>Drop for OwnedFd\<close>: nothing once the running node was killed.\<close>

definition owned_fd_drop ::
    "bool \<Rightarrow> node_id \<Rightarrow> fd \<Rightarrow> ('g, 'f, 'w) net_sim \<Rightarrow> c_ret option \<times> nat option \<times> ('g, 'f, 'w) net_sim" where
  "owned_fd_drop killed cur fd ns = (if killed then (Some (0, None), None, ns) else sys_close cur fd ns)"

definition sys_listen ::
    "node_id \<Rightarrow> fd \<Rightarrow> ('g, 'f, 'w) net_sim \<Rightarrow> (c_ret \<times> ('g, 'f, 'w) net_sim) run" where
  "sys_listen cur fd ns =
     or_errno ENOTSOCK (with_socket cur fd (\<lambda>ss ns.
       bind_run (assert_run (ss_ty ss = SOCK_STREAM) AssertFailed) (\<lambda>_.
         if ss_endpoint ss = None then Ret (c_fail EDESTADDRREQ, ns)
         else Ret ((0, None), set_socket cur fd (ss\<lparr>ss_listening := True\<rparr>) ns))) ns)"

text \<open>The first half of \<open>accept_impl\<close>: the waiting connection and the protocol, or the \<open>errno\<close>.\<close>

definition accept_lookup ::
    "node_id \<Rightarrow> fd \<Rightarrow> ('g, 'f, 'w) net_sim \<Rightarrow>
     ((errno + socket_addr \<times> proto) \<times> ('g, 'f, 'w) net_sim) run" where
  "accept_lookup cur fd ns =
     bind_run (with_socket cur fd (\<lambda>ss ns.
       case ss_endpoint ss of
         None \<Rightarrow> Ret (Inl EINVAL, ns)
       | Some i \<Rightarrow>
           bind_run (get_endpoint i ns) (\<lambda>ep.
             if ep_peer ep \<noteq> None then Ret (Inl EINVAL, ns)
             else bind_run (with_network (accept_connect (ss_ty ss) cur (ep_addr ep)) ns) (\<lambda>(a, ns).
               Ret (case a of None \<Rightarrow> Inl ECONNABORTED | Some addr \<Rightarrow> Inr (addr, ss_ty ss), ns)))) ns)
       (\<lambda>(r, ns). Ret (case r of Err _ \<Rightarrow> Inl ENOTSOCK | Ok x \<Rightarrow> x, ns))"

definition sys_accept ::
    "node_id \<Rightarrow> fd \<Rightarrow> fd \<Rightarrow> ('g, 'f, 'w) net_sim \<Rightarrow>
     ((c_ret \<times> socket_addr option) \<times> ('g, 'f, 'w) net_sim) run" where
  "sys_accept cur fd newfd ns =
     bind_run (accept_lookup cur fd ns) (\<lambda>(r, ns).
       case r of
         Inl e \<Rightarrow> Ret ((c_fail e, None), ns)
       | Inr (remote, proto) \<Rightarrow>
           bind_run (endpoint_connect_sync cur proto remote ns) (\<lambda>(c, ns).
             case c of
               Err _ \<Rightarrow> Panic UnwrapNone
             | Ok i \<Rightarrow>
                 bind_run (add_socket cur newfd
                   \<lparr>ss_ty = SOCK_STREAM, ss_endpoint = Some i, ss_listening = False\<rparr> ns) (\<lambda>ns.
                   Ret (((newfd, None), Some remote), ns))))"

definition is_ipv6 :: "socket_addr \<Rightarrow> bool" where
  "is_ipv6 a = (case fst a of IPv4 _ \<Rightarrow> False | IPv6 _ \<Rightarrow> True)"

definition sys_bind ::
    "node_id \<Rightarrow> fd \<Rightarrow> socket_addr \<Rightarrow> ('g, 'f, 'w) net_sim \<Rightarrow> (c_ret \<times> ('g, 'f, 'w) net_sim) run" where
  "sys_bind cur fd addr ns =
     (if is_ipv6 addr then Ret (c_fail EADDRNOTAVAIL, ns)
      else or_errno ENOTSOCK (with_socket cur fd (\<lambda>ss ns.
        bind_run (assert_run (ss_endpoint ss = None) AssertFailed) (\<lambda>_.
        bind_run (endpoint_bind_sync cur (ss_ty ss) addr ns) (\<lambda>(r, ns).
          case r of
            Ok i \<Rightarrow> Ret ((0, None), set_socket cur fd (ss\<lparr>ss_endpoint := Some i\<rparr>) ns)
          | Err AddrNotAvailable \<Rightarrow> Ret (c_fail EADDRNOTAVAIL, ns)
          | Err AddrInUse \<Rightarrow> Ret (c_fail EADDRINUSE, ns)
          | Err _ \<Rightarrow> Ret ((-1, None), ns)))) ns))"

text \<open>
  \<open>connect\<close>: the peer must be listening now. When it is not, the endpoint just made is dropped,
  which releases its port.
\<close>

definition connect_errno :: "io_kind \<Rightarrow> errno" where
  "connect_errno e = (case e of AddrInUse \<Rightarrow> EADDRINUSE | AddrNotAvailable \<Rightarrow> EADDRNOTAVAIL | _ \<Rightarrow> EINVAL)"

definition sys_connect ::
    "node_id \<Rightarrow> fd \<Rightarrow> socket_addr \<Rightarrow> ('g, 'f, 'w) net_sim \<Rightarrow> (c_ret \<times> ('g, 'f, 'w) net_sim) run" where
  "sys_connect cur fd peer ns =
     or_errno ENOTSOCK (with_socket cur fd (\<lambda>ss ns.
       if ss_endpoint ss \<noteq> None then Ret (c_fail EISCONN, ns)
       else bind_run (endpoint_connect_sync cur (ss_ty ss) peer ns) (\<lambda>(r, ns).
         case r of
           Err e \<Rightarrow> Ret (c_fail (connect_errno e), ns)
         | Ok i \<Rightarrow>
             bind_run (get_endpoint i ns) (\<lambda>ep.
             bind_run (with_network (signal_connect cur (ss_ty ss) (ep_addr ep) peer) ns) (\<lambda>(ok, ns).
               if \<not> ok then bind_run (endpoint_drop False i ns) (\<lambda>ns. Ret (c_fail ECONNREFUSED, ns))
               else Ret ((0, None), set_socket cur fd (ss\<lparr>ss_endpoint := Some i\<rparr>) ns))))) ns)"

definition AF_INET :: int where "AF_INET = 2"
definition AF_INET6 :: int where "AF_INET6 = 10"

definition sys_socket ::
    "node_id \<Rightarrow> int \<Rightarrow> int \<Rightarrow> fd \<Rightarrow> ('g, 'f, 'w) net_sim \<Rightarrow> (c_ret \<times> ('g, 'f, 'w) net_sim) run" where
  "sys_socket cur domain ty newfd ns =
     (let ty = ty mod 16
      in bind_run (assert_run (domain = AF_INET \<or> domain = AF_INET6) AssertFailed) (\<lambda>_.
         bind_run (assert_run (ty = SOCK_DGRAM \<or> ty = SOCK_STREAM) AssertFailed) (\<lambda>_.
         bind_run (add_socket cur newfd \<lparr>ss_ty = ty, ss_endpoint = None, ss_listening = False\<rparr> ns) (\<lambda>ns.
           Ret ((newfd, None), ns)))))"

definition sys_getsockname ::
    "node_id \<Rightarrow> fd \<Rightarrow> ('g, 'f, 'w) net_sim \<Rightarrow> (c_ret \<times> socket_addr) run" where
  "sys_getsockname cur fd ns =
     bind_run (expect UnwrapNone (ns_sockets ns (cur, fd))) (\<lambda>ss.
     bind_run (expect UnwrapNone (ss_endpoint ss)) (\<lambda>i.
     bind_run (get_endpoint i ns) (\<lambda>ep. Ret ((0, None), ep_addr ep))))"

definition sys_getsockopt :: "int \<Rightarrow> int \<Rightarrow> c_ret" where
  "sys_getsockopt level name = (0, None)"

definition "SOL_SOCKET = (1::int)"
definition "IPPROTO_IP = (0::int)"
definition "IPPROTO_IPV6 = (41::int)"
definition "SOL_UDP = (17::int)"
definition "UDP_SEGMENT = (103::int)"
definition "UDP_GRO = (104::int)"

definition sys_setsockopt :: "int \<Rightarrow> int \<Rightarrow> c_ret run" where
  "sys_setsockopt level name =
     (if level = IPPROTO_IPV6 then Panic Todo
      else if level = SOL_UDP \<and> (name = UDP_GRO \<or> name = UDP_SEGMENT) then Ret (-1, None)
      else Ret (0, None))"

definition sys_send :: "c_ret run" where
  "sys_send = Panic Todo"

definition sys_sendto :: "c_ret run" where
  "sys_sendto = Panic Todo"

section \<open>Datagrams\<close>

text \<open>A datagram is sent under the destination port as its tag.\<close>

definition udp_message :: "socket_addr \<Rightarrow> socket_addr \<Rightarrow> u8 list \<Rightarrow> wire_data message" where
  "udp_message src dst bs =
     \<lparr>msg_tag = ucast (snd dst), msg_data = new_udp (UdpBytes bs), msg_from = src\<rparr>"

definition udp_send_impl ::
    "('g, 'f) rng_ops \<Rightarrow> node_id \<Rightarrow> socket_state \<Rightarrow> socket_addr \<Rightarrow> u8 list \<Rightarrow> ('g, 'f, 'w) net_sim \<Rightarrow>
     (nat \<times> ('g, 'f, 'w) net_sim) run" where
  "udp_send_impl ops cur ss dst bs ns =
     bind_run (assert_run (ss_ty ss = SOCK_DGRAM) AssertFailed) (\<lambda>_.
     bind_run (expect UnwrapNone (ss_endpoint ss)) (\<lambda>i.
     bind_run (get_endpoint i ns) (\<lambda>ep.
     bind_run (send_to_raw_sync ops cur ep dst (ucast (snd dst)) (new_udp (UdpBytes bs)) ns) (\<lambda>(_, ns).
       Ret (length bs, ns)))))"

text \<open>A message header is the destination and its I/O vectors; only one vector is supported.\<close>

definition udp_send_hdr ::
    "('g, 'f) rng_ops \<Rightarrow> node_id \<Rightarrow> socket_state \<Rightarrow> socket_addr \<times> u8 list list \<Rightarrow> ('g, 'f, 'w) net_sim \<Rightarrow>
     (nat \<times> ('g, 'f, 'w) net_sim) run" where
  "udp_send_hdr ops cur ss hdr ns =
     (case snd hdr of
        [bs] \<Rightarrow> udp_send_impl ops cur ss (fst hdr) bs ns
      | _ \<Rightarrow> Panic AssertFailed)"

definition sys_sendmsg ::
    "('g, 'f) rng_ops \<Rightarrow> node_id \<Rightarrow> fd \<Rightarrow> socket_addr \<times> u8 list list \<Rightarrow> ('g, 'f, 'w) net_sim \<Rightarrow>
     (c_ret \<times> ('g, 'f, 'w) net_sim) run" where
  "sys_sendmsg ops cur fd hdr ns =
     or_errno EADDRNOTAVAIL (with_socket cur fd (\<lambda>ss ns.
       bind_run (udp_send_hdr ops cur ss hdr ns) (\<lambda>(n, ns). Ret ((int n, None), ns))) ns)"

fun udp_send_all ::
    "('g, 'f) rng_ops \<Rightarrow> node_id \<Rightarrow> socket_state \<Rightarrow> (socket_addr \<times> u8 list list) list \<Rightarrow>
     ('g, 'f, 'w) net_sim \<Rightarrow> (nat list \<times> ('g, 'f, 'w) net_sim) run" where
  "udp_send_all ops cur ss [] ns = Ret ([], ns)"
| "udp_send_all ops cur ss (h # hs) ns =
     bind_run (udp_send_hdr ops cur ss h ns) (\<lambda>(n, ns).
     bind_run (assert_run (n < 2 ^ 32) UnwrapNone) (\<lambda>_.
     bind_run (udp_send_all ops cur ss hs ns) (\<lambda>(lens, ns). Ret (n # lens, ns))))"

definition sys_sendmmsg ::
    "('g, 'f) rng_ops \<Rightarrow> node_id \<Rightarrow> fd \<Rightarrow> (socket_addr \<times> u8 list list) list \<Rightarrow> ('g, 'f, 'w) net_sim \<Rightarrow>
     (c_ret \<times> ('g, 'f, 'w) net_sim) run" where
  "sys_sendmmsg ops cur fd hdrs ns =
     or_errno EADDRNOTAVAIL (with_socket cur fd (\<lambda>ss ns.
       bind_run (udp_send_all ops cur ss hdrs ns) (\<lambda>(lens, ns).
       bind_run (assert_run (length hdrs < 2 ^ 31) UnwrapNone) (\<lambda>_.
         Ret ((int (length hdrs), None), ns)))) ns)"

definition validate_recv :: "socket_state \<Rightarrow> nat run" where
  "validate_recv ss =
     bind_run (assert_run (ss_ty ss = SOCK_DGRAM) AssertFailed) (\<lambda>_. expect UnwrapNone (ss_endpoint ss))"

text \<open>
  \<open>recv_impl\<close>: the bytes copied, the sender and whether the datagram was cut short; \<open>iovs\<close> is the
  number of I/O vectors and \<open>len\<close> the size of the one allowed.
\<close>

definition udp_recv_impl ::
    "node_id \<Rightarrow> endpoint \<Rightarrow> nat \<Rightarrow> nat \<Rightarrow> ('g, 'f, 'w) net_sim \<Rightarrow>
     ((errno + u8 list \<times> socket_addr \<times> bool) \<times> ('g, 'f, 'w) net_sim) run" where
  "udp_recv_impl cur ep iovs len ns =
     (case udp_tag ep of
        Err _ \<Rightarrow> Panic UnwrapNone
      | Ok tag \<Rightarrow>
          bind_run (recv_from_raw_sync cur ep tag ns) (\<lambda>(r, ns).
            case r of
              Err WouldBlock \<Rightarrow> Ret (Inl EAGAIN, ns)
            | Err _ \<Rightarrow> Panic Todo
            | Ok (p, src) \<Rightarrow>
                bind_run (assert_run (is_udp p) AssertFailed) (\<lambda>_.
                  case pl_data p of
                    UdpBytes bs \<Rightarrow>
                      bind_run (assert_run (iovs = 1) AssertFailed) (\<lambda>_.
                        Ret (Inr (take len bs, src, len < length bs), ns))
                  | _ \<Rightarrow> Panic WrongPayload)))"

definition sys_recvmsg ::
    "node_id \<Rightarrow> fd \<Rightarrow> nat \<Rightarrow> nat \<Rightarrow> ('g, 'f, 'w) net_sim \<Rightarrow>
     ((c_ret \<times> (u8 list \<times> socket_addr \<times> bool) option) \<times> ('g, 'f, 'w) net_sim) run" where
  "sys_recvmsg cur fd iovs len ns =
     bind_run (with_socket cur fd (\<lambda>ss ns.
       bind_run (validate_recv ss) (\<lambda>i. bind_run (get_endpoint i ns) (\<lambda>ep.
         udp_recv_impl cur ep iovs len ns))) ns) (\<lambda>(r, ns).
       Ret (case r of
              Err _ \<Rightarrow> (c_fail ENOTSOCK, None)
            | Ok (Inl e) \<Rightarrow> (c_fail e, None)
            | Ok (Inr (bs, src, short)) \<Rightarrow> ((int (length bs), None), Some (bs, src, short)), ns))"

text \<open>\<open>recvmmsg\<close> receives into the first header only; the rest of the vector is not used.\<close>

definition sys_recvmmsg ::
    "node_id \<Rightarrow> fd \<Rightarrow> nat \<Rightarrow> nat \<Rightarrow> nat \<Rightarrow> ('g, 'f, 'w) net_sim \<Rightarrow>
     ((c_ret \<times> (u8 list \<times> socket_addr \<times> bool) option) \<times> ('g, 'f, 'w) net_sim) run" where
  "sys_recvmmsg cur fd vlen iovs len ns =
     bind_run (with_socket cur fd (\<lambda>ss ns.
       bind_run (validate_recv ss) (\<lambda>i.
       bind_run (get_endpoint i ns) (\<lambda>ep.
       bind_run (assert_run (1 \<le> vlen) AssertFailed) (\<lambda>_.
         udp_recv_impl cur ep iovs len ns)))) ns) (\<lambda>(r, ns).
       Ret (case r of
              Err _ \<Rightarrow> (c_fail ENOTSOCK, None)
            | Ok (Inl e) \<Rightarrow> (c_fail e, None)
            | Ok (Inr (bs, src, short)) \<Rightarrow> ((1, None), Some (bs, src, short)), ns))"

end
