(* ===== verification/Tcp.thy ===== *)
theory Tcp
  imports Socket_Facts
begin

text \<open>
  The TCP streams of \<open>msim-tokio/src/sim/net.rs\<close>: the read buffer, the messages of a connection,
  the tags that carry session number and sequence number, connecting and accepting, reading,
  peeking and writing.

  The network delivers in any order. A writer tags its \<open>n\<close>-th message with the peer's session
  number in the upper and \<open>n\<close> in the lower half; a reader asks for its own session number and the
  next sequence number. A stream is passed by value: what its parts share in the code is the state
  returned. \<open>debug_assert\<close>s are checked, as in a debug build.
\<close>

section \<open>The read buffer\<close>

record buffer =
  bf_buffer :: "u8 list"
  bf_cursor :: nat

definition buffer_from_vec :: "u8 list \<Rightarrow> buffer" where
  "buffer_from_vec bs = \<lparr>bf_buffer = bs, bf_cursor = 0\<rparr>"

definition buffer_new :: buffer where
  "buffer_new = \<lparr>bf_buffer = [], bf_cursor = 0\<rparr>"

definition remaining_bytes :: "buffer \<Rightarrow> nat" where
  "remaining_bytes b = length (bf_buffer b) - bf_cursor b"

definition buffer_remaining :: "buffer \<Rightarrow> u8 list" where
  "buffer_remaining b = drop (bf_cursor b) (bf_buffer b)"

text \<open>\<open>Buffer::read\<close> into a \<open>ReadBuf\<close> with room for \<open>cap\<close> bytes: the bytes put there.\<close>

definition buffer_read :: "bool \<Rightarrow> nat \<Rightarrow> buffer \<Rightarrow> u8 list \<times> buffer" where
  "buffer_read is_poll cap b =
     (let n = min (remaining_bytes b) cap;
          out = take n (drop (bf_cursor b) (bf_buffer b));
          b' = (if is_poll then b
                else let b = b\<lparr>bf_cursor := bf_cursor b + n\<rparr>
                     in if remaining_bytes b = 0 then b\<lparr>bf_cursor := 0, bf_buffer := []\<rparr> else b)
      in (out, b'))"

definition buffer_write :: "buffer \<Rightarrow> buffer \<Rightarrow> buffer" where
  "buffer_write src b = b\<lparr>bf_buffer := bf_buffer b @ buffer_remaining src\<rparr>"

section \<open>Messages\<close>

definition message_new :: "wire_data payload \<Rightarrow> tcp_message run" where
  "message_new p =
     (case pl_data p of
        TcpWire m \<Rightarrow>
          (case (m, pl_ty p) of
             (TcpId _, TcpSignalConnect) \<Rightarrow> Ret m
           | (TcpPayload _ _, TcpData) \<Rightarrow> Ret m
           | _ \<Rightarrow> Panic WrongPayload)
      | _ \<Rightarrow> Panic UnwrapNone)"

definition message_tcp_id :: "u32 \<Rightarrow> wire_data payload" where
  "message_tcp_id t = new_tcp_connect (TcpWire (TcpId t))"

definition message_payload :: "u32 \<Rightarrow> u8 list \<Rightarrow> wire_data payload" where
  "message_payload s v = new_tcp_data (TcpWire (TcpPayload s v))"

definition unwrap_payload :: "tcp_message \<Rightarrow> (u32 \<times> u8 list) run" where
  "unwrap_payload m = (case m of TcpPayload s v \<Rightarrow> Ret (s, v) | _ \<Rightarrow> Panic WrongPayload)"

definition unwrap_tcp_id :: "tcp_message \<Rightarrow> u32 run" where
  "unwrap_tcp_id m = (case m of TcpId t \<Rightarrow> Ret t | _ \<Rightarrow> Panic WrongPayload)"

section \<open>The state of a connection\<close>

record tcp_state =
  ts_ep :: nat
  ts_send_seq :: u32
  ts_recv_seq :: u32
  ts_local_tcp_id :: u32
  ts_remote_tcp_id :: u32
  ts_remote_sock :: socket_addr
  ts_nodelay :: bool

definition tcp_state_new :: "nat \<Rightarrow> u32 \<Rightarrow> u32 \<Rightarrow> socket_addr \<Rightarrow> tcp_state" where
  "tcp_state_new ep local remote sock =
     \<lparr>ts_ep = ep, ts_send_seq = 0, ts_recv_seq = 0, ts_local_tcp_id = local,
      ts_remote_tcp_id = remote, ts_remote_sock = sock, ts_nodelay = False\<rparr>"

definition tcp_tag :: "u32 \<Rightarrow> u32 \<Rightarrow> u64" where
  "tcp_tag tcp_id seq = or (push_bit 32 (ucast tcp_id)) (ucast seq)"

definition next_send_tag :: "tcp_state \<Rightarrow> u64 \<times> tcp_state" where
  "next_send_tag s =
     (tcp_tag (ts_remote_tcp_id s) (ts_send_seq s), s\<lparr>ts_send_seq := ts_send_seq s + 1\<rparr>)"

definition next_recv_tag :: "tcp_state \<Rightarrow> u64" where
  "next_recv_tag s = tcp_tag (ts_local_tcp_id s) (ts_recv_seq s)"

definition increment_recv_tag :: "tcp_state \<Rightarrow> tcp_state" where
  "increment_recv_tag s = s\<lparr>ts_recv_seq := ts_recv_seq s + 1\<rparr>"

definition get_next_recv_tag_and_inc :: "tcp_state \<Rightarrow> u64 \<times> tcp_state" where
  "get_next_recv_tag_and_inc s = (next_recv_tag s, increment_recv_tag s)"

definition tcp_state_drop ::
    "node_id \<Rightarrow> tcp_state \<Rightarrow> ('g, 'f, 'w) net_sim \<Rightarrow> ('w list \<times> ('g, 'f, 'w) net_sim) run" where
  "tcp_state_drop cur s =
     endpoint_deregister_tcp_id cur (ts_ep s) (ts_remote_sock s) (ts_local_tcp_id s)"

record tcp_stream =
  st_state :: tcp_state
  st_buffer :: buffer

definition tcp_stream_new :: "tcp_state \<Rightarrow> tcp_stream" where
  "tcp_stream_new s = \<lparr>st_state = s, st_buffer = buffer_new\<rparr>"

section \<open>Connecting and accepting\<close>

text \<open>
  \<open>connect_addr\<close> up to its first send, after the random delay of \<open>Endpoint::connect\<close>. When the
  send fails the state is dropped, and with it the only reference to the endpoint.
\<close>

definition connect_begin ::
    "('g, 'f) rng_ops \<Rightarrow> node_id \<Rightarrow> socket_addr \<Rightarrow> ('g, 'f, 'w) net_sim \<Rightarrow>
     ((sleep \<times> tcp_state) io_result \<times> 'w list \<times> ('g, 'f, 'w) net_sim) run" where
  "connect_begin ops cur peer ns =
     bind_run (endpoint_connect_sync cur SOCK_STREAM peer ns) (\<lambda>(r, ns).
       case r of
         Err e \<Rightarrow> Ret (Err e, [], ns)
       | Ok i \<Rightarrow>
           bind_run (get_endpoint i ns) (\<lambda>ep.
             case peer_addr ep of
               Err e \<Rightarrow> Ret (Err e, [], ns)
             | Ok remote \<Rightarrow>
                 bind_run (allocate_local_tcp_id i ns) (\<lambda>(t, ns).
                   let s = tcp_state_new i t 0xdeadbeef remote in
                   bind_run (send_to_raw ops cur ep remote 0 (message_tcp_id t) ns) (\<lambda>(r, ns).
                     case r of
                       Ok sl \<Rightarrow> Ret (Ok (sl, s), [], ns)
                     | Err e \<Rightarrow>
                         bind_run (tcp_state_drop cur s ns) (\<lambda>(ws, ns).
                         bind_run (endpoint_drop False i ns) (\<lambda>ns. Ret (Err e, ws, ns)))))))"

text \<open>Then the answer is awaited, on a one-shot channel \<open>rx\<close>.\<close>

definition connect_await ::
    "nat \<Rightarrow> node_id \<Rightarrow> tcp_state \<Rightarrow> ('g, 'f, 'w) net_sim \<Rightarrow>
     (wire_data message option \<times> tcp_state \<times> ('g, 'f, 'w) net_sim) run" where
  "connect_await rx cur s ns =
     bind_run (get_endpoint (ts_ep s) ns) (\<lambda>ep.
       case get_next_recv_tag_and_inc s of
         (tag, s) \<Rightarrow> bind_run (recv_from_raw_start rx cur ep tag ns) (\<lambda>(m, ns). Ret (m, s, ns)))"

text \<open>What \<open>connect_addr\<close> does with the answer.\<close>

definition connect_finish :: "wire_data payload \<times> socket_addr \<Rightarrow> tcp_state \<Rightarrow> tcp_stream run" where
  "connect_finish got s =
     bind_run (assert_run (snd got = ts_remote_sock s) AssertFailed) (\<lambda>_.
     bind_run (message_new (fst got)) (\<lambda>m.
     bind_run (unwrap_tcp_id m) (\<lambda>t. Ret (tcp_stream_new (s\<lparr>ts_remote_tcp_id := t\<rparr>)))))"

text \<open>
  \<open>poll_accept_internal\<close>: a connection is the message with tag 0; what follows its receipt, up to
  the answer. When the answer cannot be sent the new state is dropped; the listener keeps the
  endpoint.
\<close>

definition accept_await ::
    "nat \<Rightarrow> node_id \<Rightarrow> endpoint \<Rightarrow> ('g, 'f, 'w) net_sim \<Rightarrow>
     (wire_data message option \<times> ('g, 'f, 'w) net_sim) run" where
  "accept_await rx cur ep = recv_from_raw_start rx cur ep 0"

definition accept_state :: "nat \<Rightarrow> u32 \<Rightarrow> u32 \<Rightarrow> socket_addr \<Rightarrow> u64 \<times> tcp_state" where
  "accept_state i local remote from = next_send_tag (tcp_state_new i local remote from)"

definition accept_finish ::
    "('g, 'f) rng_ops \<Rightarrow> node_id \<Rightarrow> nat \<Rightarrow> wire_data payload \<times> socket_addr \<Rightarrow> ('g, 'f, 'w) net_sim \<Rightarrow>
     ((sleep \<times> tcp_stream \<times> socket_addr) io_result \<times> 'w list \<times> ('g, 'f, 'w) net_sim) run" where
  "accept_finish ops cur i got ns =
     bind_run (message_new (fst got)) (\<lambda>m.
     bind_run (unwrap_tcp_id m) (\<lambda>remote.
     bind_run (allocate_local_tcp_id i ns) (\<lambda>(t, ns).
     bind_run (get_endpoint i ns) (\<lambda>ep.
       case accept_state i t remote (snd got) of
         (tag, s) \<Rightarrow>
           bind_run (send_to_raw ops cur ep (snd got) tag (message_tcp_id t) ns) (\<lambda>(r, ns).
             case r of
               Ok sl \<Rightarrow> Ret (Ok (sl, tcp_stream_new s, snd got), [], ns)
             | Err _ \<Rightarrow> bind_run (tcp_state_drop cur s ns) (\<lambda>(ws, ns).
                 Ret (Err ConnectionReset, ws, ns)))))))"

section \<open>Writing and reading\<close>

definition poll_write ::
    "('g, 'f) rng_ops \<Rightarrow> node_id \<Rightarrow> u8 list \<Rightarrow> tcp_stream \<Rightarrow> ('g, 'f, 'w) net_sim \<Rightarrow>
     (nat io_result poll \<times> tcp_stream \<times> ('g, 'f, 'w) net_sim) run" where
  "poll_write ops cur buf st ns =
     (case next_send_tag (st_state st) of
        (tag, s) \<Rightarrow>
          let seq = ucast (and tag 0xffffffff) in
          bind_run (get_endpoint (ts_ep s) ns) (\<lambda>ep.
          bind_run (send_to_raw_sync ops cur ep (ts_remote_sock s) tag (message_payload seq buf) ns) (\<lambda>(r, ns).
            Ret (Ready (case r of Err e \<Rightarrow> Err e | Ok _ \<Rightarrow> Ok (length buf)), st\<lparr>st_state := s\<rparr>, ns))))"

text \<open>
  The end of \<open>poll_read_priv\<close>: what is done with the message received under \<open>tag\<close>. The result is
  the bytes handed to the caller and the new stream.
\<close>

definition absorb ::
    "bool \<Rightarrow> nat \<Rightarrow> u64 \<Rightarrow> wire_data payload \<times> socket_addr \<Rightarrow> tcp_stream \<Rightarrow> (u8 list \<times> tcp_stream) run" where
  "absorb is_poll cap tag got st =
     (let s = increment_recv_tag (st_state st) in
      bind_run (assert_run (snd got = ts_remote_sock s) AssertFailed) (\<lambda>_.
      bind_run (message_new (fst got)) (\<lambda>m.
      bind_run (unwrap_payload m) (\<lambda>(seq, payload).
      bind_run (assert_run (ucast seq = and tag 0xffffffff) AssertFailed) (\<lambda>_.
        case buffer_read is_poll cap (buffer_from_vec payload) of
          (out, buf) \<Rightarrow> Ret (out, \<lparr>st_state = s, st_buffer = buffer_write buf (st_buffer st)\<rparr>))))))"

definition poll_read ::
    "bool \<Rightarrow> 'w \<Rightarrow> node_id \<Rightarrow> nat \<Rightarrow> tcp_stream \<Rightarrow> ('g, 'f, 'w) net_sim \<Rightarrow>
     (u8 list io_result poll \<times> tcp_stream \<times> ('g, 'f, 'w) net_sim) run" where
  "poll_read is_poll cx cur cap st ns =
     bind_run (assert_run (cap \<noteq> 0) AssertFailed) (\<lambda>_.
       case buffer_read is_poll cap (st_buffer st) of
         (out, b) \<Rightarrow>
           let st = st\<lparr>st_buffer := b\<rparr> in
           if out \<noteq> [] then Ret (Ready (Ok out), st, ns)
           else
             let s = st_state st in
             bind_run (get_endpoint (ts_ep s) ns) (\<lambda>ep.
             bind_run (is_peer_live cur ep (Some (ts_remote_sock s)) (ts_remote_tcp_id s) ns) (\<lambda>live.
               if \<not> live then Ret (Ready (Err ConnectionReset), st, ns)
               else
                 let tag = next_recv_tag s in
                 bind_run (ep_recv_ready (Some cx) cur ep tag ns) (\<lambda>(ready, ns).
                   if \<not> ready then Ret (Pending, st, ns)
                   else bind_run (recv_from_raw_sync cur ep tag ns) (\<lambda>(r, ns).
                     case r of
                       Err e \<Rightarrow> Ret (Ready (Err e), st, ns)
                     | Ok got \<Rightarrow> bind_run (absorb is_poll cap tag got st) (\<lambda>(out, st).
                         Ret (Ready (Ok out), st, ns)))))))"

definition poll_peek ::
    "'w \<Rightarrow> node_id \<Rightarrow> nat \<Rightarrow> tcp_stream \<Rightarrow> ('g, 'f, 'w) net_sim \<Rightarrow>
     (u8 list io_result poll \<times> tcp_stream \<times> ('g, 'f, 'w) net_sim) run" where
  "poll_peek = poll_read True"

text \<open>\<open>peek\<close> into an empty buffer returns at once.\<close>

definition peek ::
    "'w \<Rightarrow> node_id \<Rightarrow> nat \<Rightarrow> tcp_stream \<Rightarrow> ('g, 'f, 'w) net_sim \<Rightarrow>
     (u8 list io_result poll \<times> tcp_stream \<times> ('g, 'f, 'w) net_sim) run" where
  "peek cx cur cap st ns = (if cap = 0 then Ret (Ready (Ok []), st, ns) else poll_peek cx cur cap st ns)"

definition set_nodelay :: "bool \<Rightarrow> tcp_stream \<Rightarrow> tcp_stream" where
  "set_nodelay b st = st\<lparr>st_state := (st_state st)\<lparr>ts_nodelay := b\<rparr>\<rparr>"

section \<open>Listeners\<close>

text \<open>\<open>bind\<close> tries each resolved address; \<open>bind_one\<close> is \<open>bind_addr\<close>.\<close>

fun bind_first ::
    "('a \<Rightarrow> 's \<Rightarrow> ('b io_result \<times> 's) run) \<Rightarrow> 'a list \<Rightarrow> io_kind option \<Rightarrow> 's \<Rightarrow> ('b io_result \<times> 's) run" where
  "bind_first bind_one [] last_err s = Ret (Err (case last_err of Some e \<Rightarrow> e | None \<Rightarrow> InvalidInput), s)"
| "bind_first bind_one (a # as) last_err s =
     bind_run (bind_one a s) (\<lambda>(r, s).
       case r of Ok l \<Rightarrow> Ret (Ok l, s) | Err e \<Rightarrow> bind_first bind_one as (Some e) s)"

definition listener_from_std :: "node_id \<Rightarrow> fd \<Rightarrow> ('g, 'f, 'w) net_sim \<Rightarrow> (fd \<times> nat) io_result" where
  "listener_from_std cur fd ns =
     (case get_endpoint_from_socket cur fd ns of Err e \<Rightarrow> Err e | Ok i \<Rightarrow> Ok (fd, i))"

section \<open>The poller\<close>

text \<open>
  \<open>msim-tokio/src/poller.rs\<close>: a slot for a future in progress, of states \<open>'k\<close>. It is created when
  the slot is empty, polled, and removed once it is ready.
\<close>

definition poll_with_fut ::
    "('k \<Rightarrow> 's \<Rightarrow> ('r poll \<times> 'k \<times> 's) run) \<Rightarrow> 'k \<Rightarrow> 'k option \<Rightarrow> 's \<Rightarrow> ('r poll \<times> 'k option \<times> 's) run" where
  "poll_with_fut poll fresh slot s =
     bind_run (poll (case slot of None \<Rightarrow> fresh | Some k \<Rightarrow> k) s) (\<lambda>(r, k, s).
       Ret (r, case r of Ready _ \<Rightarrow> None | Pending \<Rightarrow> Some k, s))"

end
