(* ===== verification/Tcp_Facts.thy ===== *)
theory Tcp_Facts
  imports Tcp "HOL-Library.Sublist"
begin

text \<open>
  What a TCP stream promises although the network delivers in any order: the bytes read are always
  a prefix of the bytes written. One direction of a connection is a transition system over the
  code's own operations: the writer's tags, the mailbox's delivery and receipt, and the reader's
  \<open>stream_read\<close>, which is \<open>poll_read\<close> seen at the mailbox.
\<close>

section \<open>Tags\<close>

lemma tcp_tag_upper: "drop_bit 32 (tcp_tag t s) = ucast t"
  unfolding tcp_tag_def
  by (rule bit_word_eqI) (auto simp: bit_simps add.commute dest: bit_imp_le_length)

lemma tcp_tag_lower: "and (tcp_tag t s) 0xffffffff = ucast s"
proof -
  have "(0xffffffff :: u64) = mask 32" by (simp add: mask_eq_exp_minus_1)
  moreover have "and (tcp_tag t s) (mask 32) = ucast s"
    unfolding tcp_tag_def
    by (rule bit_word_eqI) (auto simp: bit_simps bit_mask_iff dest: bit_imp_le_length)
  ultimately show ?thesis by metis
qed

lemma unat_ucast_u64: "unat (ucast (t :: u32) :: u64) = unat t"
proof -
  have "unat t < 2 ^ 64" using unsigned_less [of t, where 'a = nat] by simp
  then show ?thesis by (simp add: unsigned_ucast_eq take_bit_nat_eq_self)
qed

lemma tcp_tag_inject [simp]: "tcp_tag t s = tcp_tag t' s' \<longleftrightarrow> t = t' \<and> s = s'"
proof
  assume eq: "tcp_tag t s = tcp_tag t' s'"
  have "unat t = unat t'" by (metis eq tcp_tag_upper unat_ucast_u64)
  moreover have "unat s = unat s'" by (metis eq tcp_tag_lower unat_ucast_u64)
  ultimately show "t = t' \<and> s = s'" by (simp only: word_unat_eq_iff)
qed simp

lemma ucast_ucast_u32: "ucast (ucast (s :: u32) :: u64) = s"
  by (rule bit_word_eqI) (auto simp: bit_simps)

lemma ucast_lower: "ucast (and (tcp_tag t s) 0xffffffff) = (s :: u32)"
  by (simp only: tcp_tag_lower ucast_ucast_u32)

section \<open>The buffer\<close>

definition buffer_ok :: "buffer \<Rightarrow> bool" where
  "buffer_ok b \<longleftrightarrow> bf_cursor b \<le> length (bf_buffer b)"

lemma buffer_read_spec:
  assumes "buffer_ok b" "buffer_read is_poll cap b = (out, b')"
  shows "out = take cap (buffer_remaining b)" "buffer_ok b'"
    "buffer_remaining b' = (if is_poll then buffer_remaining b else drop (length out) (buffer_remaining b))"
proof -
  have n: "remaining_bytes b = length (buffer_remaining b)"
    by (simp add: remaining_bytes_def buffer_remaining_def)
  from assms(2) have "out = take (min (remaining_bytes b) cap) (buffer_remaining b)"
    by (simp add: buffer_read_def Let_def buffer_remaining_def)
  then show out: "out = take cap (buffer_remaining b)" by (simp add: n min_def)
  show "buffer_ok b'" "buffer_remaining b' = (if is_poll then buffer_remaining b else drop (length out) (buffer_remaining b))"
    using assms unfolding out
    by (auto simp: buffer_read_def Let_def buffer_ok_def buffer_remaining_def remaining_bytes_def
        min_def add.commute split: if_splits)
qed

lemma buffer_write_spec:
  assumes "buffer_ok b"
  shows "buffer_remaining (buffer_write src b) = buffer_remaining b @ buffer_remaining src"
    "buffer_ok (buffer_write src b)"
  using assms by (simp_all add: buffer_write_def buffer_ok_def buffer_remaining_def)

lemma buffer_simps [simp]:
  "buffer_ok buffer_new" "buffer_ok (buffer_from_vec bs)"
  "buffer_remaining buffer_new = []" "buffer_remaining (buffer_from_vec bs) = bs"
  by (simp_all add: buffer_ok_def buffer_new_def buffer_from_vec_def buffer_remaining_def)

section \<open>Reading at the mailbox\<close>

text \<open>\<open>poll_read\<close> of a stream whose peer is live, in terms of the mailbox behind its socket.\<close>

definition stream_read ::
    "bool \<Rightarrow> 'w \<Rightarrow> nat \<Rightarrow> tcp_stream \<Rightarrow> (wire_data, 'w) mailbox \<Rightarrow>
     (u8 list io_result poll \<times> tcp_stream \<times> (wire_data, 'w) mailbox) run" where
  "stream_read is_poll cx cap st mb =
     bind_run (assert_run (cap \<noteq> 0) AssertFailed) (\<lambda>_.
       case buffer_read is_poll cap (st_buffer st) of
         (out, b) \<Rightarrow>
           let st = st\<lparr>st_buffer := b\<rparr>; tag = next_recv_tag (st_state st) in
           if out \<noteq> [] then Ret (Ready (Ok out), st, mb)
           else (case mailbox_recv_ready (Some cx) tag mb of
             (ready, mb) \<Rightarrow>
               if \<not> ready then Ret (Pending, st, mb)
               else (case mailbox_recv_sync tag mb of
                 (None, mb) \<Rightarrow> Ret (Ready (Err WouldBlock), st, mb)
               | (Some m, mb) \<Rightarrow> bind_run (absorb is_poll cap tag (msg_data m, msg_from m) st)
                   (\<lambda>(out, st). Ret (Ready (Ok out), st, mb)))))"

definition set_mailbox :: "nat \<Rightarrow> (wire_data, 'w) mailbox \<Rightarrow> ('g, 'f, 'w) net_sim \<Rightarrow> ('g, 'f, 'w) net_sim" where
  "set_mailbox i mb ns = ns\<lparr>ns_network := (ns_network ns)\<lparr>nw_mailboxes :=
     (nw_mailboxes (ns_network ns))(i \<mapsto> mb)\<rparr>\<rparr>"

text \<open>The first branch of the read: what the buffer gives, or nothing.\<close>

lemma absorb_payload:
  assumes "snd got = ts_remote_sock (st_state st)" "fst got = message_payload (ts_recv_seq (st_state st)) bs"
    and "buffer_ok (st_buffer st)"
  shows "\<exists>b. absorb is_poll cap (next_recv_tag (st_state st)) got st =
      Ret (take cap bs, \<lparr>st_state = increment_recv_tag (st_state st), st_buffer = b\<rparr>) \<and> buffer_ok b \<and>
    buffer_remaining b = buffer_remaining (st_buffer st) @ (if is_poll then bs else drop cap bs)"
proof -
  obtain out b where rd: "buffer_read is_poll cap (buffer_from_vec bs) = (out, b)" by fastforce
  note sp = buffer_read_spec [OF _ rd, simplified]
  have "absorb is_poll cap (next_recv_tag (st_state st)) got st =
      Ret (take cap bs, \<lparr>st_state = increment_recv_tag (st_state st), st_buffer = buffer_write b (st_buffer st)\<rparr>)"
    using assms(1,2) sp(1)
    by (simp add: absorb_def Let_def message_new_def message_payload_def new_tcp_data_def
        unwrap_payload_def rd next_recv_tag_def tcp_tag_lower increment_recv_tag_def)
  moreover have "drop (length out) bs = drop cap bs" using sp(1) by (simp add: min_def)
  ultimately show ?thesis using buffer_write_spec [OF assms(3), of b] sp by auto
qed

section \<open>One direction of a connection\<close>

text \<open>
  The writer's tags, the messages under way, the mailbox of the reader's socket, and the reader.
  The events are what the two programs see.
\<close>

record 'w conn =
  cn_writer :: tcp_state
  cn_flight :: "wire_data message list"
  cn_mb :: "(wire_data, 'w) mailbox"
  cn_reader :: tcp_stream

datatype conn_event = Wrote "u8 list" | WriteFailed | ReadOut "u8 list" | Quiet

definition conn_message :: "socket_addr \<Rightarrow> u64 \<Rightarrow> u8 list \<Rightarrow> wire_data message" where
  "conn_message src tag bs =
     \<lparr>msg_tag = tag, msg_data = message_payload (ucast (and tag 0xffffffff)) bs, msg_from = src\<rparr>"

text \<open>
  The steps: a write that is sent or refused, the arrival of any message under way, the arrival of
  a message and the wait of a receiver of another session on the same socket, and a read or peek.
\<close>

inductive conn_step :: "'w conn \<Rightarrow> conn_event \<Rightarrow> 'w conn \<Rightarrow> bool" where
  cs_write: "next_send_tag (cn_writer c) = (tag, s) \<Longrightarrow>
    conn_step c (Wrote bs) (c\<lparr>cn_writer := s,
      cn_flight := cn_flight c @ [conn_message (ts_remote_sock (st_state (cn_reader c))) tag bs]\<rparr>)"
| cs_fail: "next_send_tag (cn_writer c) = (tag, s) \<Longrightarrow> conn_step c WriteFailed (c\<lparr>cn_writer := s\<rparr>)"
| cs_deliver: "m \<in> set (cn_flight c) \<Longrightarrow> deliver alive m (cn_mb c) = (ws, r, mb) \<Longrightarrow>
    conn_step c Quiet (c\<lparr>cn_flight := remove1 m (cn_flight c), cn_mb := mb\<rparr>)"
| cs_other: "drop_bit 32 (msg_tag m) \<noteq> ucast (ts_local_tcp_id (st_state (cn_reader c))) \<Longrightarrow>
    deliver alive m (cn_mb c) = (ws, r, mb) \<Longrightarrow> conn_step c Quiet (c\<lparr>cn_mb := mb\<rparr>)"
| cs_other_recv: "drop_bit 32 tag \<noteq> ucast (ts_local_tcp_id (st_state (cn_reader c))) \<Longrightarrow>
    mailbox_recv rx tag (cn_mb c) = (m, mb) \<Longrightarrow> conn_step c Quiet (c\<lparr>cn_mb := mb\<rparr>)"
| cs_read: "stream_read is_poll cx cap (cn_reader c) (cn_mb c) = Ret (res, st, mb) \<Longrightarrow>
    conn_step c (case res of Ready (Ok out) \<Rightarrow> if is_poll then Quiet else ReadOut out | _ \<Rightarrow> Quiet)
      (c\<lparr>cn_reader := st, cn_mb := mb\<rparr>)"

inductive conn_run :: "'w conn \<Rightarrow> conn_event list \<Rightarrow> 'w conn \<Rightarrow> bool" where
  cr_nil: "conn_run c [] c"
| cr_snoc: "conn_run c tr c1 \<Longrightarrow> conn_step c1 e c2 \<Longrightarrow> conn_run c (tr @ [e]) c2"

text \<open>The two ends agree, and nothing of this session is around yet.\<close>

definition conn_start :: "'w conn \<Rightarrow> bool" where
  "conn_start c \<longleftrightarrow>
     (let rd = st_state (cn_reader c); t = ts_local_tcp_id rd in
      ts_remote_tcp_id (cn_writer c) = t \<and> ts_send_seq (cn_writer c) = ts_recv_seq rd \<and>
      cn_flight c = [] \<and> st_buffer (cn_reader c) = buffer_new \<and>
      \<not> (\<exists>m \<in> set (mb_msgs (cn_mb c)). drop_bit 32 (msg_tag m) = (ucast t :: u64)) \<and>
      \<not> (\<exists>x \<in> set (mb_registered (cn_mb c)). drop_bit 32 (fst x) = (ucast t :: u64)))"

definition bytes_read :: "conn_event list \<Rightarrow> u8 list" where
  "bytes_read tr = concat (map (\<lambda>e. case e of ReadOut bs \<Rightarrow> bs | _ \<Rightarrow> []) tr)"

definition bytes_written :: "conn_event list \<Rightarrow> u8 list" where
  "bytes_written tr = concat (map (\<lambda>e. case e of Wrote bs \<Rightarrow> bs | _ \<Rightarrow> []) tr)"

text \<open>The writes of a history, a refused one as \<open>None\<close>.\<close>

definition writes :: "conn_event list \<Rightarrow> u8 list option list" where
  "writes tr = concat (map (\<lambda>e. case e of Wrote bs \<Rightarrow> [Some bs] | WriteFailed \<Rightarrow> [None] | _ \<Rightarrow> []) tr)"

lemma history_simps [simp]:
  "bytes_read [] = []" "bytes_written [] = []" "writes [] = []"
  "bytes_read (tr @ [ReadOut bs]) = bytes_read tr @ bs"
  "bytes_read (tr @ [Wrote bs]) = bytes_read tr"
  "bytes_read (tr @ [WriteFailed]) = bytes_read tr" "bytes_read (tr @ [Quiet]) = bytes_read tr"
  "writes (tr @ [ReadOut bs]) = writes tr" "writes (tr @ [Wrote bs]) = writes tr @ [Some bs]"
  "writes (tr @ [WriteFailed]) = writes tr @ [None]" "writes (tr @ [Quiet]) = writes tr"
  by (simp_all add: bytes_read_def bytes_written_def writes_def)

lemma bytes_written_writes:
  "bytes_written tr = concat (map (\<lambda>w. case w of Some bs \<Rightarrow> bs | None \<Rightarrow> []) (writes tr))"
  unfolding bytes_written_def writes_def
  by (induction tr) (auto split: conn_event.splits)

text \<open>The message with sequence number \<open>s0 + j\<close>, and those from \<open>k\<close> on that were sent.\<close>

definition nth_message :: "u32 \<Rightarrow> u32 \<Rightarrow> socket_addr \<Rightarrow> u8 list option list \<Rightarrow> nat \<Rightarrow> wire_data message" where
  "nth_message t s0 src E j = conn_message src (tcp_tag t (s0 + of_nat j)) (the (E ! j))"

definition outstanding :: "u32 \<Rightarrow> u32 \<Rightarrow> socket_addr \<Rightarrow> u8 list option list \<Rightarrow> nat \<Rightarrow> wire_data message multiset" where
  "outstanding t s0 src E k =
     mset (map (nth_message t s0 src E) (filter (\<lambda>j. E ! j \<noteq> None) [k..<length E]))"

definition of_session :: "u32 \<Rightarrow> wire_data message multiset \<Rightarrow> wire_data message multiset" where
  "of_session t M = {#m \<in># M. drop_bit 32 (msg_tag m) = (ucast t :: u64)#}"

definition conn_inv :: "u32 \<Rightarrow> u32 \<Rightarrow> socket_addr \<Rightarrow> conn_event list \<Rightarrow> nat \<Rightarrow> 'w conn \<Rightarrow> bool" where
  "conn_inv t s0 src tr k c \<longleftrightarrow>
     (let E = writes tr; rd = st_state (cn_reader c) in
      ts_remote_tcp_id (cn_writer c) = t \<and> ts_send_seq (cn_writer c) = s0 + of_nat (length E) \<and>
      ts_local_tcp_id rd = t \<and> ts_recv_seq rd = s0 + of_nat k \<and> ts_remote_sock rd = src \<and>
      k \<le> length E \<and> None \<notin> set (take k E) \<and> buffer_ok (st_buffer (cn_reader c)) \<and>
      bytes_read tr @ buffer_remaining (st_buffer (cn_reader c)) = concat (map the (take k E)) \<and>
      of_session t (mset (cn_flight c) + mset (mb_msgs (cn_mb c))) = outstanding t s0 src E k \<and>
      (\<forall>x \<in> set (mb_registered (cn_mb c)). drop_bit 32 (fst x) \<noteq> (ucast t :: u64)))"

lemma nth_message_parts [simp]:
  "msg_tag (nth_message t s0 src E j) = tcp_tag t (s0 + of_nat j)"
  "msg_from (nth_message t s0 src E j) = src"
  "msg_data (nth_message t s0 src E j) = message_payload (s0 + of_nat j) (the (E ! j))"
  by (simp_all add: nth_message_def conn_message_def ucast_lower)

lemma of_session_simps [simp]:
  "of_session t {#} = {#}"
  "of_session t (M + N) = of_session t M + of_session t N"
  "of_session t (add_mset m M) =
     (if drop_bit 32 (msg_tag m) = (ucast t :: u64) then add_mset m (of_session t M) else of_session t M)"
  by (simp_all add: of_session_def)

lemma of_session_empty:
  "of_session t (mset ms) = {#} \<longleftrightarrow> (\<forall>m \<in> set ms. drop_bit 32 (msg_tag m) \<noteq> (ucast t :: u64))"
  by (induction ms) auto

lemma outstanding_snoc:
  assumes "k \<le> length E"
  shows "outstanding t s0 src (E @ [w]) k =
    (case w of Some bs \<Rightarrow> {#conn_message src (tcp_tag t (s0 + of_nat (length E))) bs#} | None \<Rightarrow> {#})
      + outstanding t s0 src E k"
proof -
  have "map (nth_message t s0 src (E @ [w])) (filter (\<lambda>j. (E @ [w]) ! j \<noteq> None) [k..<length E]) =
      map (nth_message t s0 src E) (filter (\<lambda>j. E ! j \<noteq> None) [k..<length E])"
    by (intro map_cong filter_cong) (auto simp: nth_append nth_message_def)
  with assms show ?thesis by (auto simp: outstanding_def nth_message_def split: option.split)
qed

lemma seq_inject:
  assumes "j < 2 ^ 32" "k < 2 ^ 32" "(s0 :: u32) + of_nat j = s0 + of_nat k"
  shows "j = k"
proof -
  have "unat (of_nat j :: u32) = unat (of_nat k :: u32)" using assms(3) by simp
  with assms(1,2) show ?thesis by (simp add: unat_of_nat)
qed

text \<open>The message with the reader's next sequence number is the right one.\<close>

lemma outstanding_next:
  assumes "k \<le> length E" "length E \<le> 2 ^ 32" "m \<in># outstanding t s0 src E k"
    and "msg_tag m = tcp_tag t (s0 + of_nat k)"
  shows "k < length E \<and> E ! k \<noteq> None \<and> m = nth_message t s0 src E k \<and>
    outstanding t s0 src E k = add_mset m (outstanding t s0 src E (Suc k))"
proof -
  obtain j where j: "k \<le> j" "j < length E" "E ! j \<noteq> None" "m = nth_message t s0 src E j"
    using assms(3) by (auto simp: outstanding_def)
  with assms have "j = k" by (intro seq_inject [of j k s0]) auto
  with j show ?thesis by (simp add: outstanding_def upt_conv_Cons)
qed

lemma deliver_other:
  assumes "deliver alive m mb = (ws, r, mb')"
    and "\<forall>x \<in> set (mb_registered mb). drop_bit 32 (fst x) \<noteq> (ucast t :: u64)"
  shows "of_session t (mset (mb_msgs mb')) = of_session t (add_mset m (mset (mb_msgs mb)))"
    "\<forall>x \<in> set (mb_registered mb'). drop_bit 32 (fst x) \<noteq> (ucast t :: u64)"
proof -
  obtain mb1 reg where off: "offer alive (msg_tag m) 0 (mb_registered mb) = (r, reg)"
    and mb': "mb' = mb1\<lparr>mb_registered := reg,
      mb_msgs := (if r = None then mb_msgs mb @ [m] else mb_msgs mb)\<rparr>"
    using deliver_parts [OF assms(1)] .
  note sp = offer_spec [OF off, simplified]
  have sub: "set reg \<subseteq> set (mb_registered mb)" by (rule offer_subset [OF off])
  show "of_session t (mset (mb_msgs mb')) = of_session t (add_mset m (mset (mb_msgs mb)))"
  proof (cases r)
    case None
    then show ?thesis by (simp add: mb')
  next
    case (Some s)
    with sp have "(msg_tag m, s) \<in> set (mb_registered mb)" by simp
    with assms(2) have "drop_bit 32 (msg_tag m) \<noteq> (ucast t :: u64)" by fastforce
    with Some show ?thesis by (simp add: mb')
  qed
  show "\<forall>x \<in> set (mb_registered mb'). drop_bit 32 (fst x) \<noteq> (ucast t :: u64)"
    using assms(2) sub by (auto simp: mb')
qed

lemma recv_other:
  assumes "mailbox_recv rx tag mb = (m, mb')" "drop_bit 32 tag \<noteq> (ucast t :: u64)"
    and "\<forall>x \<in> set (mb_registered mb). drop_bit 32 (fst x) \<noteq> (ucast t :: u64)"
  shows "of_session t (mset (mb_msgs mb')) = of_session t (mset (mb_msgs mb))"
    "\<forall>x \<in> set (mb_registered mb'). drop_bit 32 (fst x) \<noteq> (ucast t :: u64)"
proof -
  obtain r mb1 where rs: "mailbox_recv_sync tag mb = (r, mb1)" by fastforce
  have reg: "mb_registered mb1 = mb_registered mb"
    using rs by (auto simp: mailbox_recv_sync_def split: option.splits)
  have mb': "mb' = (if r = None then mb1\<lparr>mb_registered := mb_registered mb1 @ [(tag, rx)]\<rparr> else mb1)"
    using assms(1) rs by (auto simp: mailbox_recv_def split: option.splits)
  show "of_session t (mset (mb_msgs mb')) = of_session t (mset (mb_msgs mb))"
    using recv_sync_spec [OF rs] assms(2) by (auto simp: mb' split: option.splits)
  show "\<forall>x \<in> set (mb_registered mb'). drop_bit 32 (fst x) \<noteq> (ucast t :: u64)"
    using assms(2,3) by (auto simp: mb' reg)
qed

text \<open>What a read does, in three cases: bytes of the buffer, nothing, or the next message.\<close>

lemma stream_read_cases:
  assumes "stream_read is_poll cx cap st mb = Ret (res, st', mb')" "buffer_ok (st_buffer st)"
  obtains (Buffered) out where "out \<noteq> []" "res = Ready (Ok out)" "mb' = mb" "st_state st' = st_state st"
      "buffer_ok (st_buffer st')"
      "out @ (if is_poll then [] else buffer_remaining (st_buffer st')) =
         (if is_poll then take cap (buffer_remaining (st_buffer st')) else buffer_remaining (st_buffer st))"
      "is_poll \<Longrightarrow> buffer_remaining (st_buffer st') = buffer_remaining (st_buffer st)"
  | (Waiting) ws where "res = Pending" "mb' = mb\<lparr>mb_wakers := ws\<rparr>" "st_state st' = st_state st"
      "buffer_ok (st_buffer st')" "buffer_remaining (st_buffer st) = []" "buffer_remaining (st_buffer st') = []"
      "\<not> (\<exists>m \<in> set (mb_msgs mb). msg_tag m = next_recv_tag (st_state st))"
  | (Message) b m out where "mailbox_recv_sync (next_recv_tag (st_state st)) mb = (Some m, mb')"
      "buffer_remaining (st_buffer st) = []" "buffer_ok b" "buffer_remaining b = []"
      "absorb is_poll cap (next_recv_tag (st_state st)) (msg_data m, msg_from m) (st\<lparr>st_buffer := b\<rparr>) = Ret (out, st')"
      "res = Ready (Ok out)"
proof -
  obtain out b where rd: "buffer_read is_poll cap (st_buffer st) = (out, b)" by fastforce
  note sp = buffer_read_spec [OF assms(2) rd]
  have cap: "cap \<noteq> 0" using assms(1) by (simp add: stream_read_def)
  let ?tag = "next_recv_tag (st_state st)"
  show thesis
  proof (cases "out = []")
    case False
    then have "res = Ready (Ok out)" "st' = st\<lparr>st_buffer := b\<rparr>" "mb' = mb"
      using assms(1) cap by (simp_all add: stream_read_def rd Let_def)
    with False sp show ?thesis by (intro Buffered [of out]) (auto simp: min_def)
  next
    case True
    with sp cap have e: "buffer_remaining (st_buffer st) = []" "buffer_remaining b = []" by simp_all
    obtain ready mb1 where rr: "mailbox_recv_ready (Some cx) ?tag mb = (ready, mb1)" by fastforce
    show ?thesis
    proof (cases ready)
      case False
      with rr have "mb1 = mb\<lparr>mb_wakers := mb_wakers mb @ [(?tag, cx)]\<rparr>"
        "\<not> (\<exists>m \<in> set (mb_msgs mb). msg_tag m = ?tag)"
        by (auto simp: mailbox_recv_ready_def list_ex_iff Let_def)
      then show ?thesis using assms(1) cap True False e sp(2)
        by (intro Waiting [of "mb_wakers mb @ [(?tag, cx)]"]) (auto simp: stream_read_def rd rr Let_def)
    next
      case ready: True
      with rr have mb1: "mb1 = mb" and ex: "\<exists>m \<in> set (mb_msgs mb). ?tag = msg_tag m"
        by (auto simp: mailbox_recv_ready_def list_ex_iff Let_def)
      obtain r mb2 where rs: "mailbox_recv_sync ?tag mb = (r, mb2)" by fastforce
      with recv_sync_spec [OF rs] ex obtain m where r: "r = Some m" by (cases r) auto
      from assms(1) cap True ready rs r obtain o1 where
        "absorb is_poll cap ?tag (msg_data m, msg_from m) (st\<lparr>st_buffer := b\<rparr>) = Ret (o1, st')"
        "res = Ready (Ok o1)" "mb2 = mb'"
        by (auto simp: stream_read_def rd rr mb1 Let_def run_simps)
      with e sp(2) rs r show ?thesis by (intro Message) auto
    qed
  qed
qed

lemma conn_inv_start:
  assumes "conn_start c"
  shows "conn_inv (ts_local_tcp_id (st_state (cn_reader c))) (ts_recv_seq (st_state (cn_reader c)))
    (ts_remote_sock (st_state (cn_reader c))) [] 0 c"
  using assms
  by (auto simp: conn_start_def conn_inv_def Let_def outstanding_def of_session_def filter_mset_eq_conv)

lemma of_session_remove:
  assumes "m \<in> set ms"
  shows "of_session t (mset (remove1 m ms)) + of_session t (add_mset m N) =
    of_session t (mset ms) + of_session t N"
proof -
  have "mset ms = add_mset m (mset (remove1 m ms))" using assms by simp
  then have "of_session t (mset ms) = of_session t (add_mset m (mset (remove1 m ms)))" by metis
  then show ?thesis by simp
qed

text \<open>Each step keeps the invariant.\<close>

lemma conn_inv_read:
  assumes inv: "conn_inv t s0 src tr k c" and len: "length (writes tr) \<le> 2 ^ 32"
    and rd: "stream_read is_poll cx cap (cn_reader c) (cn_mb c) = Ret (res, st, mb)"
  shows "\<exists>k'. conn_inv t s0 src (tr @ [case res of Ready (Ok out) \<Rightarrow> if is_poll then Quiet else ReadOut out | _ \<Rightarrow> Quiet]) k'
    (c\<lparr>cn_reader := st, cn_mb := mb\<rparr>)"
proof -
  let ?E = "writes tr" and ?rd = "cn_reader c" and ?mb = "cn_mb c"
  from inv have parts: "ts_local_tcp_id (st_state ?rd) = t" "ts_recv_seq (st_state ?rd) = s0 + of_nat k"
    "ts_remote_sock (st_state ?rd) = src" "k \<le> length ?E" "None \<notin> set (take k ?E)"
    "buffer_ok (st_buffer ?rd)"
    "bytes_read tr @ buffer_remaining (st_buffer ?rd) = concat (map the (take k ?E))"
    "of_session t (mset (cn_flight c)) + of_session t (mset (mb_msgs ?mb)) = outstanding t s0 src ?E k"
    "\<forall>x \<in> set (mb_registered ?mb). drop_bit 32 (fst x) \<noteq> (ucast t :: u64)"
    by (simp_all add: conn_inv_def Let_def)
  from rd parts(6) show ?thesis
  proof (cases rule: stream_read_cases)
    case (Buffered out)
    with inv show ?thesis by (intro exI [of _ k]) (cases is_poll; simp add: conn_inv_def Let_def flip: parts(7))
  next
    case (Waiting ws)
    with inv show ?thesis by (intro exI [of _ k]) (simp add: conn_inv_def Let_def)
  next
    case (Message b m out)
    have tag: "next_recv_tag (st_state ?rd) = tcp_tag t (s0 + of_nat k)"
      using parts by (simp add: next_recv_tag_def)
    have ms: "msg_tag m = tcp_tag t (s0 + of_nat k)" "mset (mb_msgs ?mb) = add_mset m (mset (mb_msgs mb))"
      and reg: "mb_registered mb = mb_registered ?mb"
      using recv_sync_spec [OF Message(1)] Message(1) tag
      by (auto simp: mailbox_recv_sync_def split: option.splits)
    have "m \<in># outstanding t s0 src ?E k"
      using ms by (subst parts(8) [symmetric]) (simp add: tcp_tag_upper)
    from outstanding_next [OF parts(4) len this ms(1)]
    have nx: "k < length ?E" "?E ! k \<noteq> None" "m = nth_message t s0 src ?E k"
      and out: "outstanding t s0 src ?E k = add_mset m (outstanding t s0 src ?E (Suc k))" by blast+
    obtain bs where bs: "?E ! k = Some bs" using nx(2) by auto
    let ?st = "?rd\<lparr>st_buffer := b\<rparr>"
    obtain b' where ab: "absorb is_poll cap (next_recv_tag (st_state ?st)) (msg_data m, msg_from m) ?st =
        Ret (take cap bs, \<lparr>st_state = increment_recv_tag (st_state ?st), st_buffer = b'\<rparr>)"
      and b': "buffer_ok b'" "buffer_remaining b' = buffer_remaining b @ (if is_poll then bs else drop cap bs)"
      using absorb_payload [of "(msg_data m, msg_from m)" ?st bs is_poll cap] Message(3) nx(3) parts bs by auto
    have st: "out = take cap bs" "st = \<lparr>st_state = increment_recv_tag (st_state ?rd), st_buffer = b'\<rparr>"
      using Message(5) ab by simp_all
    have tk: "take (Suc k) ?E = take k ?E @ [Some bs]" using nx(1) bs by (simp add: take_Suc_conv_app_nth)
    have "conn_inv t s0 src (tr @ [if is_poll then Quiet else ReadOut out]) (Suc k) (c\<lparr>cn_reader := st, cn_mb := mb\<rparr>)"
      using inv parts ms reg out nx(1) b' Message(2,4) tk
      by (cases is_poll) (auto simp: conn_inv_def Let_def st increment_recv_tag_def tcp_tag_upper)
    then show ?thesis using Message(6) by auto
  qed
qed

lemma conn_inv_step:
  assumes inv: "conn_inv t s0 src tr k c" and len: "length (writes tr) \<le> 2 ^ 32" and step: "conn_step c e c'"
  shows "\<exists>k'. conn_inv t s0 src (tr @ [e]) k' c'"
  using step
proof cases
  case (cs_write tag s bs)
  have "tag = tcp_tag t (s0 + of_nat (length (writes tr)))"
    using cs_write inv by (simp add: next_send_tag_def conn_inv_def Let_def)
  then show ?thesis using cs_write inv
    by (intro exI [of _ k]) (auto simp: conn_inv_def Let_def next_send_tag_def outstanding_snoc tcp_tag_upper
        conn_message_def)
next
  case (cs_fail tag s)
  then show ?thesis using inv
    by (intro exI [of _ k]) (auto simp: conn_inv_def Let_def next_send_tag_def outstanding_snoc)
next
  case (cs_deliver m alive ws r mb)
  with inv have "\<forall>x \<in> set (mb_registered (cn_mb c)). drop_bit 32 (fst x) \<noteq> (ucast t :: u64)"
    by (simp add: conn_inv_def Let_def)
  from deliver_other [OF cs_deliver(4) this] of_session_remove [OF cs_deliver(3)] show ?thesis
    using cs_deliver(1,2) inv by (intro exI [of _ k]) (simp add: conn_inv_def Let_def)
next
  case (cs_other m alive ws r mb)
  with inv have "\<forall>x \<in> set (mb_registered (cn_mb c)). drop_bit 32 (fst x) \<noteq> (ucast t :: u64)"
    by (simp add: conn_inv_def Let_def)
  from deliver_other [OF cs_other(4) this] show ?thesis
    using cs_other(1-3) inv by (intro exI [of _ k]) (simp add: conn_inv_def Let_def)
next
  case (cs_other_recv tag rx m mb)
  with inv have "drop_bit 32 tag \<noteq> (ucast t :: u64)"
    "\<forall>x \<in> set (mb_registered (cn_mb c)). drop_bit 32 (fst x) \<noteq> (ucast t :: u64)"
    by (simp_all add: conn_inv_def Let_def)
  from recv_other [OF cs_other_recv(4) this] show ?thesis
    using cs_other_recv(1,2) inv by (intro exI [of _ k]) (simp add: conn_inv_def Let_def)
next
  case (cs_read is_poll cx cap res st mb)
  show ?thesis using conn_inv_read [OF inv len cs_read(3)] cs_read(1,2) by simp
qed

lemma writes_mono: "length (writes tr) \<le> length (writes (tr @ [e]))"
  by (simp add: writes_def)

lemma conn_inv_run:
  assumes "conn_run c0 tr c" "conn_start c0" "length (writes tr) \<le> 2 ^ 32"
  shows "\<exists>k. conn_inv (ts_local_tcp_id (st_state (cn_reader c0))) (ts_recv_seq (st_state (cn_reader c0)))
    (ts_remote_sock (st_state (cn_reader c0))) tr k c"
  using assms
proof (induction rule: conn_run.induct)
  case (cr_nil c)
  then show ?case using conn_inv_start by blast
next
  case (cr_snoc c tr c1 e c2)
  have len: "length (writes tr) \<le> 2 ^ 32" using writes_mono [of tr e] cr_snoc.prems(2) by linarith
  with cr_snoc conn_inv_step [OF _ len cr_snoc.hyps(2)] show ?case by blast
qed

lemma concat_the:
  assumes "None \<notin> set ws"
  shows "concat (map (\<lambda>w. case w of Some bs \<Rightarrow> bs | None \<Rightarrow> []) ws) = concat (map the ws)"
  using assms by (induction ws) (auto split: option.splits)

lemma absorb_Ret:
  assumes "absorb is_poll cap tag got st = Ret (out, st')" "buffer_ok (st_buffer st)"
  obtains bs where "out = take cap bs" "buffer_ok (st_buffer st')"
    and "buffer_remaining (st_buffer st') = buffer_remaining (st_buffer st) @ (if is_poll then bs else drop cap bs)"
proof -
  from assms(1) obtain bs b where rd: "buffer_read is_poll cap (buffer_from_vec bs) = (out, b)"
    and st': "st_buffer st' = buffer_write b (st_buffer st)"
    by (auto simp: absorb_def Let_def run_simps)
  note sp = buffer_read_spec [OF _ rd, simplified]
  have "drop (length out) bs = drop cap bs" using sp(1) by (simp add: min_def)
  with sp buffer_write_spec [OF assms(2), of b] show ?thesis by (intro that [of bs]) (auto simp: st')
qed

section \<open>Properties\<close>

text \<open>C2: a TCP stream neither loses, repeats nor reorders bytes: whatever order the network delivers
  in, whatever other sessions share the socket, and whether writes fail or data is peeked at, the
  bytes read so far are a prefix of the bytes written so far, for up to 2^32 writes.\<close>

theorem tcp_reads_prefix:
  assumes "conn_start c0" "conn_run c0 tr c" "length (writes tr) \<le> 2 ^ 32"
  shows "prefix (bytes_read tr) (bytes_written tr)"
proof -
  from conn_inv_run [OF assms(2,1,3)] obtain k where
    k: "None \<notin> set (take k (writes tr))"
      "bytes_read tr @ buffer_remaining (st_buffer (cn_reader c)) = concat (map the (take k (writes tr)))"
    by (auto simp: conn_inv_def Let_def)
  let ?f = "\<lambda>w. case w of Some bs \<Rightarrow> bs | None \<Rightarrow> []"
  have "bytes_written tr = concat (map ?f (take k (writes tr))) @ concat (map ?f (drop k (writes tr)))"
    unfolding bytes_written_writes by (metis append_take_drop_id concat_append map_append)
  with k concat_the [OF k(1)] show ?thesis by (metis append.assoc prefixI)
qed

definition demo_conn :: "nat conn" where
  "demo_conn = \<lparr>cn_writer = tcp_state_new 0 1 2 (IPv4 2, 80), cn_flight = [], cn_mb = mailbox_default,
     cn_reader = tcp_stream_new (tcp_state_new 1 2 1 (IPv4 1, 9))\<rparr>"

lemma demo_conn_start: "conn_start demo_conn"
  by (simp add: conn_start_def demo_conn_def tcp_state_new_def tcp_stream_new_def mailbox_default_def)

lemma conn_run_two:
  assumes "conn_run c tr c1" "conn_step c1 e c2" "conn_step c2 e' c3"
  shows "conn_run c (tr @ [e, e']) c3"
  using cr_snoc [OF cr_snoc [OF assms(1,2)] assms(3)] by simp

text \<open>An example run: two writes, delivered in the opposite order, then read.\<close>

definition demo_conn1 :: "nat conn" where
  "demo_conn1 = demo_conn\<lparr>cn_writer := (cn_writer demo_conn)\<lparr>ts_send_seq := 2\<rparr>,
     cn_flight := [conn_message (IPv4 1, 9) (tcp_tag 2 0) [1, 2], conn_message (IPv4 1, 9) (tcp_tag 2 1) [3]]\<rparr>"

definition demo_conn2 :: "nat conn" where
  "demo_conn2 = demo_conn1\<lparr>cn_flight := [],
     cn_mb := mailbox_default\<lparr>mb_msgs := [conn_message (IPv4 1, 9) (tcp_tag 2 1) [3],
       conn_message (IPv4 1, 9) (tcp_tag 2 0) [1, 2]]\<rparr>\<rparr>"

lemma demo_conn_writes: "conn_run demo_conn [Wrote [1, 2], Wrote [3]] demo_conn1"
proof -
  let ?c = "demo_conn\<lparr>cn_writer := (cn_writer demo_conn)\<lparr>ts_send_seq := 1\<rparr>,
     cn_flight := [conn_message (IPv4 1, 9) (tcp_tag 2 0) [1, 2]]\<rparr>"
  have "conn_step demo_conn (Wrote [1, 2]) ?c"
    using cs_write [of demo_conn "tcp_tag 2 0" "(cn_writer demo_conn)\<lparr>ts_send_seq := 1\<rparr>" "[1, 2]"]
    by (simp add: demo_conn_def next_send_tag_def tcp_state_new_def tcp_stream_new_def)
  moreover have "conn_step ?c (Wrote [3]) demo_conn1"
    using cs_write [of ?c "tcp_tag 2 1" "(cn_writer demo_conn)\<lparr>ts_send_seq := 2\<rparr>" "[3]"]
    by (simp add: demo_conn_def demo_conn1_def next_send_tag_def tcp_state_new_def tcp_stream_new_def)
  ultimately show ?thesis using conn_run_two [OF cr_nil] by fastforce
qed

lemma demo_conn_delivered: "conn_run demo_conn [Wrote [1, 2], Wrote [3], Quiet, Quiet] demo_conn2"
proof -
  let ?m0 = "conn_message (IPv4 1, 9) (tcp_tag 2 0) [1, 2]" and ?m1 = "conn_message (IPv4 1, 9) (tcp_tag 2 1) [3]"
  let ?mb1 = "mailbox_default\<lparr>mb_msgs := [?m1]\<rparr>"
  have d: "deliver (\<lambda>_. True) m mb = ([], None, mb\<lparr>mb_msgs := mb_msgs mb @ [m]\<rparr>)"
    if "mb_registered mb = []" "mb_wakers mb = []" for m and mb :: "(wire_data, nat) mailbox"
    using that by (cases mb) (simp add: deliver_def wake_where_def offer.simps)
  have "?m0 \<noteq> ?m1" by (simp add: conn_message_def)
  then have "conn_step demo_conn1 Quiet (demo_conn1\<lparr>cn_flight := [?m0], cn_mb := ?mb1\<rparr>)"
    using cs_deliver [of ?m1 demo_conn1 "\<lambda>_. True" "[]" None ?mb1] d [of mailbox_default ?m1]
    by (simp add: demo_conn1_def demo_conn_def mailbox_default_def)
  moreover have "conn_step (demo_conn1\<lparr>cn_flight := [?m0], cn_mb := ?mb1\<rparr>) Quiet demo_conn2"
    using cs_deliver [of ?m0 "demo_conn1\<lparr>cn_flight := [?m0], cn_mb := ?mb1\<rparr>" "\<lambda>_. True" "[]" None
        "?mb1\<lparr>mb_msgs := [?m1, ?m0]\<rparr>"] d [of ?mb1 ?m0]
    by (simp add: demo_conn2_def mailbox_default_def)
  ultimately show ?thesis using conn_run_two [OF demo_conn_writes] by fastforce
qed

lemma demo_conn_reads:
  "\<exists>st mb. stream_read False 0 1 (cn_reader demo_conn2) (cn_mb demo_conn2) = Ret (Ready (Ok [1]), st, mb)"
proof -
  have n: "unat (1 :: u64) = 1" by simp
  show ?thesis
    by (simp add: demo_conn2_def demo_conn1_def demo_conn_def stream_read_def tcp_stream_new_def
        tcp_state_new_def buffer_new_def buffer_read_def remaining_bytes_def next_recv_tag_def
        mailbox_recv_ready_def mailbox_recv_sync_def mailbox_default_def conn_message_def absorb_def
        increment_recv_tag_def message_payload_def new_tcp_data_def message_new_def unwrap_payload_def
        buffer_from_vec_def ucast_lower tcp_tag_lower)
qed

theorem tcp_reads_prefix_witness:
  "\<exists>c. conn_run demo_conn [Wrote [1, 2], Wrote [3], Quiet, Quiet, ReadOut [1]] c \<and>
     prefix [1 :: u8] (bytes_written [Wrote [1, 2], Wrote [3], Quiet, Quiet, ReadOut [1]])"
proof -
  obtain st mb where "stream_read False 0 1 (cn_reader demo_conn2) (cn_mb demo_conn2) = Ret (Ready (Ok [1]), st, mb)"
    using demo_conn_reads by blast
  from cs_read [OF this] have "conn_run demo_conn ([Wrote [1, 2], Wrote [3], Quiet, Quiet] @ [ReadOut [1]])
      (demo_conn2\<lparr>cn_reader := st, cn_mb := mb\<rparr>)"
    by (intro cr_snoc [OF demo_conn_delivered]) simp
  with tcp_reads_prefix [OF demo_conn_start this] show ?thesis
    by (auto simp: writes_def bytes_read_def)
qed

text \<open>Once everything written has reached the mailbox, the reader finds the next message there.\<close>

lemma recv_sync_next:
  assumes "of_session t (mset (mb_msgs mb)) = outstanding t s0 src E k" "length E \<le> 2 ^ 32"
    and "k < length E" "E ! k \<noteq> None"
  shows "\<exists>mb'. mailbox_recv_sync (tcp_tag t (s0 + of_nat k)) mb = (Some (nth_message t s0 src E k), mb')"
    and "mailbox_recv_ready (Some cx) (tcp_tag t (s0 + of_nat k)) mb = (True, mb)"
proof -
  have "nth_message t s0 src E k \<in># outstanding t s0 src E k"
    using assms(3,4) by (simp add: outstanding_def upt_conv_Cons)
  then have "nth_message t s0 src E k \<in> set (mb_msgs mb)"
    by (simp add: assms(1) [symmetric] of_session_def)
  then have ex: "\<exists>m \<in> set (mb_msgs mb). tcp_tag t (s0 + of_nat k) = msg_tag m"
    by (metis nth_message_parts(1))
  obtain r mb' where rs: "mailbox_recv_sync (tcp_tag t (s0 + of_nat k)) mb = (r, mb')" by fastforce
  with recv_sync_spec [OF rs] ex obtain m where r: "r = Some m" by (cases r) auto
  with recv_sync_spec [OF rs]
  have m: "msg_tag m = tcp_tag t (s0 + of_nat k)" "mset (mb_msgs mb) = add_mset m (mset (mb_msgs mb'))"
    by simp_all
  from m(2) have "m \<in> set (mb_msgs mb)" by (metis set_mset_add_mset_insert set_mset_mset insertI1)
  with m(1) have "m \<in># outstanding t s0 src E k"
    by (simp add: assms(1) [symmetric] of_session_def tcp_tag_upper)
  from outstanding_next [OF less_imp_le [OF assms(3)] assms(2) this m(1)]
  have "m = nth_message t s0 src E k" by blast
  with rs r show "\<exists>mb'. mailbox_recv_sync (tcp_tag t (s0 + of_nat k)) mb = (Some (nth_message t s0 src E k), mb')"
    by blast
  show "mailbox_recv_ready (Some cx) (tcp_tag t (s0 + of_nat k)) mb = (True, mb)"
    using ex by (auto simp: mailbox_recv_ready_def list_ex_iff)
qed



text \<open>On a live connection a read into a non-empty buffer gives no bytes, which the reader takes
  for the end of the stream, only where the writer wrote an empty buffer.\<close>

theorem tcp_empty_read:
  assumes "conn_start c0" "conn_run c0 tr c" "length (writes tr) \<le> 2 ^ 32"
    and "stream_read False cx cap (cn_reader c) (cn_mb c) = Ret (Ready (Ok []), st, mb)"
  shows "Some [] \<in> set (writes tr)"
proof -
  let ?t = "ts_local_tcp_id (st_state (cn_reader c0))" and ?s0 = "ts_recv_seq (st_state (cn_reader c0))"
  let ?src = "ts_remote_sock (st_state (cn_reader c0))" and ?E = "writes tr" and ?rd = "cn_reader c"
  from conn_inv_run [OF assms(2,1,3)] obtain k where inv: "conn_inv ?t ?s0 ?src tr k c" by blast
  then have ok: "buffer_ok (st_buffer ?rd)" and k: "k \<le> length ?E"
    and ms: "of_session ?t (mset (cn_flight c) + mset (mb_msgs (cn_mb c))) = outstanding ?t ?s0 ?src ?E k"
    and rd: "ts_local_tcp_id (st_state ?rd) = ?t" "ts_recv_seq (st_state ?rd) = ?s0 + of_nat k"
      "ts_remote_sock (st_state ?rd) = ?src"
    by (simp_all add: conn_inv_def Let_def)
  from assms(4) have cap: "cap \<noteq> 0" by (simp add: stream_read_def)
  from assms(4) ok show ?thesis
  proof (cases rule: stream_read_cases)
    case (Message b m out)
    have tag: "next_recv_tag (st_state ?rd) = tcp_tag ?t (?s0 + of_nat k)" by (simp add: next_recv_tag_def rd)
    with recv_sync_spec [OF Message(1)]
    have m: "msg_tag m = tcp_tag ?t (?s0 + of_nat k)" "mset (mb_msgs (cn_mb c)) = add_mset m (mset (mb_msgs mb))"
      by simp_all
    have "m \<in># outstanding ?t ?s0 ?src ?E k" by (subst ms [symmetric]) (simp add: m tcp_tag_upper)
    from outstanding_next [OF k assms(3) this m(1)]
    have nx: "k < length ?E" "?E ! k \<noteq> None" "m = nth_message ?t ?s0 ?src ?E k" by blast+
    then have "out = take cap (the (?E ! k))"
      using absorb_payload [of "(msg_data m, msg_from m)" "?rd\<lparr>st_buffer := b\<rparr>" "the (?E ! k)" False cap]
        Message(3,5) by (auto simp: rd)
    with Message(6) cap have "the (?E ! k) = []" by simp
    with nx show ?thesis by (metis nth_mem option.collapse)
  qed auto
qed

text \<open>The witness: a message without bytes is such an end.\<close>

theorem tcp_empty_read_witness:
  "\<exists>c st mb. conn_run demo_conn [Wrote [], Quiet] c \<and> cn_flight c = [] \<and>
     stream_read False (0 :: nat) 8 (cn_reader c) (cn_mb c) = Ret (Ready (Ok []), st, mb) \<and>
     Some [] \<in> set (writes [Wrote [], Quiet])"
proof -
  let ?m = "conn_message (IPv4 1, 9) (tcp_tag 2 0) []"
  let ?c1 = "demo_conn\<lparr>cn_writer := (cn_writer demo_conn)\<lparr>ts_send_seq := 1\<rparr>, cn_flight := [?m]\<rparr>"
  let ?c = "?c1\<lparr>cn_flight := [], cn_mb := mailbox_default\<lparr>mb_msgs := [?m]\<rparr>\<rparr>"
  have s1: "conn_step demo_conn (Wrote []) ?c1"
    using cs_write [of demo_conn "tcp_tag 2 0" "(cn_writer demo_conn)\<lparr>ts_send_seq := 1\<rparr>" "[]"]
    by (simp add: demo_conn_def next_send_tag_def tcp_state_new_def tcp_stream_new_def)
  have "conn_step ?c1 Quiet ?c"
    using cs_deliver [of ?m ?c1 "\<lambda>_. True" "[]" None "mailbox_default\<lparr>mb_msgs := [?m]\<rparr>"]
    by (simp add: demo_conn_def deliver_def wake_where_def offer.simps mailbox_default_def)
  with s1 have run: "conn_run demo_conn [Wrote [], Quiet] ?c" using conn_run_two [OF cr_nil] by fastforce
  have rd: "\<exists>st mb. stream_read False (0 :: nat) 8 (cn_reader ?c) (cn_mb ?c) = Ret (Ready (Ok []), st, mb)"
    by (simp add: demo_conn_def stream_read_def tcp_stream_new_def
        tcp_state_new_def buffer_new_def buffer_read_def remaining_bytes_def next_recv_tag_def
        mailbox_recv_ready_def mailbox_recv_sync_def mailbox_default_def conn_message_def absorb_def
        increment_recv_tag_def message_payload_def new_tcp_data_def message_new_def unwrap_payload_def
        buffer_from_vec_def ucast_lower tcp_tag_lower)
  then obtain st mb where "stream_read False (0 :: nat) 8 (cn_reader ?c) (cn_mb ?c) = Ret (Ready (Ok []), st, mb)"
    by blast
  with tcp_empty_read [OF demo_conn_start run _ this] run show ?thesis by (fastforce simp: writes_def)
qed

text \<open>C32: \<open>poll_read\<close> on a live connection is the read of the bytes at the socket's own mailbox:
  it changes nothing else of the simulator.\<close>

theorem poll_read_refines:
  assumes "ns_endpoints ns (ts_ep (st_state st)) = Some ep"
    and "is_peer_live cur ep (Some (ts_remote_sock (st_state st))) (ts_remote_tcp_id (st_state st)) ns = Ret True"
    and "socket_of cur (snd (ep_addr ep), ep_proto ep) (ns_network ns) = Some i"
    and "nw_mailboxes (ns_network ns) i = Some mb"
  shows "poll_read is_poll cx cur cap st ns =
    bind_run (stream_read is_poll cx cap st mb) (\<lambda>(r, st', mb'). Ret (r, st', set_mailbox i mb' ns))"
proof -
  obtain nd where nd: "nodes (ns_network ns) cur = Some nd"
    "nd_sockets nd (snd (ep_addr ep), ep_proto ep) = Some i"
    using assms(3) by (auto simp: socket_of_def split: option.splits)
  have at: "with_network (at_socket cur (snd (ep_addr ep), ep_proto ep) f) (set_mailbox i m ns) =
      Ret (fst (f m), set_mailbox i (snd (f m)) ns)"
    for f :: "(wire_data, 'c) mailbox \<Rightarrow> 'x \<times> (wire_data, 'c) mailbox" and m
    using nd by (simp add: with_network_def at_socket_def at_mailbox_def set_mailbox_def split_def)
  have same: "set_mailbox i mb ns = ns" using assms(4) by (simp add: set_mailbox_def fun_upd_idem)
  note at0 = at [of _ mb, unfolded same]
  show ?thesis
    using assms(1,2)
    by (simp add: poll_read_def stream_read_def get_endpoint_def ep_recv_ready_def recv_ready_def
        recv_from_raw_sync_def recv_sync_def at at0 same Let_def bind_run_assoc split_def
        split: option.split)
qed

theorem poll_read_refines_witness:
  "poll_read False (5 :: nat) 1 8 (tcp_stream_new (tcp_state_new 0 2 1 (IPv4 1, 7)))
     (demo_ns\<lparr>ns_network := (ns_network demo_ns)\<lparr>nodes := [1 \<mapsto> demo_nd\<lparr>live_tcp_ids := {1}\<rparr>]\<rparr>\<rparr>) =
   bind_run (stream_read False 5 8 (tcp_stream_new (tcp_state_new 0 2 1 (IPv4 1, 7))) mailbox_default)
     (\<lambda>(r, st', mb'). Ret (r, st', set_mailbox 0 mb'
       (demo_ns\<lparr>ns_network := (ns_network demo_ns)\<lparr>nodes := [1 \<mapsto> demo_nd\<lparr>live_tcp_ids := {1}\<rparr>]\<rparr>\<rparr>)))"
  by (rule poll_read_refines [where ep = "the (ns_endpoints demo_ns 0)"])
    (simp_all add: demo_ns_def tcp_stream_new_def tcp_state_new_def is_peer_live_def is_tcp_session_live_def
      get_node_for_addr_def socket_of_def network_new_def demo_nd_def SOCK_DGRAM_def)



text \<open>Peeking is reading without taking: what \<open>peek\<close> hands out is what the next read of the same
  size hands out, from the buffer alone.\<close>

theorem peek_then_read:
  assumes "buffer_ok (st_buffer st)" "out \<noteq> []"
    and "stream_read True cx cap st mb = Ret (Ready (Ok out), st1, mb1)"
  shows "\<exists>st2. stream_read False cx' cap st1 mb2 = Ret (Ready (Ok out), st2, mb2) \<and>
    buffer_remaining (st_buffer st1) = out @ buffer_remaining (st_buffer st2)"
proof -
  have cap: "cap \<noteq> 0" using assms(3) by (simp add: stream_read_def)
  from assms(3,1) have "out = take cap (buffer_remaining (st_buffer st1)) \<and> buffer_ok (st_buffer st1)"
  proof (cases rule: stream_read_cases)
    case (Message b m out')
    have ok: "buffer_ok (st_buffer (st\<lparr>st_buffer := b\<rparr>))" using Message(3) by simp
    from absorb_Ret [OF Message(5) ok] Message(4,6) show ?thesis by auto
  qed auto
  moreover obtain o2 b where rd: "buffer_read False cap (st_buffer st1) = (o2, b)" by fastforce
  ultimately have o: "out = take cap (buffer_remaining (st_buffer st1))" "o2 = out"
    "buffer_remaining b = drop (length out) (buffer_remaining (st_buffer st1))"
    using buffer_read_spec [OF _ rd] by simp_all
  have "take (length out) (buffer_remaining (st_buffer st1)) = out" by (subst (2) o(1)) (simp add: o(1) min_def)
  then have "buffer_remaining (st_buffer st1) = out @ buffer_remaining b"
    unfolding o(3) by (metis append_take_drop_id)
  moreover have "stream_read False cx' cap st1 mb2 = Ret (Ready (Ok out), st1\<lparr>st_buffer := b\<rparr>, mb2)"
    using rd cap assms(2) o(2) by (simp add: stream_read_def Let_def)
  ultimately show ?thesis by simp
qed

theorem peek_then_read_witness:
  "\<exists>st1 st2. stream_read True (0 :: nat) 2 ((cn_reader demo_conn)\<lparr>st_buffer := buffer_from_vec [1, 2, 3]\<rparr>) mailbox_default =
       Ret (Ready (Ok [1, 2]), st1, mailbox_default) \<and>
     stream_read False 1 2 st1 mailbox_default = Ret (Ready (Ok [1, 2]), st2, mailbox_default)"
proof -
  let ?st = "(cn_reader demo_conn)\<lparr>st_buffer := buffer_from_vec [1, 2, 3]\<rparr>"
  have "stream_read True (0 :: nat) 2 ?st mailbox_default = Ret (Ready (Ok [1, 2]), ?st, mailbox_default)"
    by (simp add: stream_read_def buffer_read_def buffer_from_vec_def remaining_bytes_def Let_def)
  from this peek_then_read [OF _ _ this, of 1 mailbox_default] show ?thesis by auto
qed

end
