(* ===== verification/Tcp_Socket.thy ===== *)
theory Tcp_Socket
  imports Tcp_Facts
begin

text \<open>
  Listeners and sockets that are bound before they connect or listen, \<open>TcpListener\<close> and
  \<open>TcpSocket\<close> of \<open>msim-tokio/src/sim/net.rs\<close>, over the intercepted socket calls. What they call of
  \<open>std::net\<close> and of the real tokio is the sequence of socket calls these are documented to make.
\<close>

section \<open>Listeners\<close>

definition SO_REUSEADDR :: int where "SO_REUSEADDR = 2"

text \<open>A descriptor is closed; its socket's reference to an endpoint is the only one here.\<close>

definition close_fd :: "node_id \<Rightarrow> fd \<Rightarrow> ('g, 'f, 'w) net_sim \<Rightarrow> ('g, 'f, 'w) net_sim run" where
  "close_fd cur fd ns =
     (case sys_close cur fd ns of
        (_, None, ns) \<Rightarrow> Ret ns
      | (_, Some i, ns) \<Rightarrow> endpoint_drop False i ns)"

text \<open>\<open>std::net::TcpListener::bind\<close>: \<open>socket\<close>, \<open>setsockopt\<close>, \<open>bind\<close> and \<open>listen\<close>.\<close>

definition std_tcp_bind ::
    "node_id \<Rightarrow> fd \<Rightarrow> socket_addr \<Rightarrow> ('g, 'f, 'w) net_sim \<Rightarrow> (fd io_result \<times> ('g, 'f, 'w) net_sim) run" where
  "std_tcp_bind cur newfd addr ns =
     bind_run (sys_socket cur (if is_ipv6 addr then AF_INET6 else AF_INET) SOCK_STREAM newfd ns) (\<lambda>(_, ns).
     bind_run (sys_setsockopt SOL_SOCKET SO_REUSEADDR) (\<lambda>_.
     bind_run (sys_bind cur newfd addr ns) (\<lambda>((ret, err), ns).
       if ret \<noteq> 0 then bind_run (close_fd cur newfd ns) (\<lambda>ns. Ret (Err (kind_of_errno err), ns))
       else bind_run (sys_listen cur newfd ns) (\<lambda>((ret, err), ns).
         if ret \<noteq> 0 then bind_run (close_fd cur newfd ns) (\<lambda>ns. Ret (Err (kind_of_errno err), ns))
         else Ret (Ok newfd, ns)))))"

definition tcp_bind_addr ::
    "node_id \<Rightarrow> fd \<times> socket_addr \<Rightarrow> ('g, 'f, 'w) net_sim \<Rightarrow>
     ((fd \<times> nat) io_result \<times> ('g, 'f, 'w) net_sim) run" where
  "tcp_bind_addr cur fa ns =
     bind_run (std_tcp_bind cur (fst fa) (snd fa) ns) (\<lambda>(r, ns).
       case r of Err e \<Rightarrow> Ret (Err e, ns) | Ok fd \<Rightarrow> Ret (listener_from_std cur fd ns, ns))"

text \<open>Each address with the descriptor that a socket for it gets.\<close>

definition tcp_listener_bind ::
    "node_id \<Rightarrow> (fd \<times> socket_addr) list \<Rightarrow> ('g, 'f, 'w) net_sim \<Rightarrow>
     ((fd \<times> nat) io_result \<times> ('g, 'f, 'w) net_sim) run" where
  "tcp_listener_bind cur addrs = bind_first (tcp_bind_addr cur) addrs None"

section \<open>Sockets\<close>

text \<open>\<open>TcpSocket\<close>: a descriptor and the endpoint it is bound to.\<close>

record tcp_socket =
  tk_fd :: fd
  tk_bind_addr :: "nat option"

text \<open>\<open>bind\<close> replaces an earlier endpoint and drops that reference, which is part of the result.\<close>

definition tcp_socket_bind ::
    "node_id \<Rightarrow> socket_addr \<Rightarrow> tcp_socket \<Rightarrow> ('g, 'f, 'w) net_sim \<Rightarrow>
     (unit io_result \<times> nat option \<times> tcp_socket \<times> ('g, 'f, 'w) net_sim) run" where
  "tcp_socket_bind cur addr tk ns =
     bind_run (endpoint_bind_sync cur SOCK_STREAM addr ns) (\<lambda>(r, ns).
       case r of
         Err e \<Rightarrow> Ret (Err e, None, tk, ns)
       | Ok i \<Rightarrow> Ret (Ok (), tk_bind_addr tk, tk\<lparr>tk_bind_addr := Some i\<rparr>, ns))"

definition tcp_socket_local_addr :: "tcp_socket \<Rightarrow> ('g, 'f, 'w) net_sim \<Rightarrow> socket_addr io_result run" where
  "tcp_socket_local_addr tk ns =
     (case tk_bind_addr tk of
        None \<Rightarrow> Ret (Err NotConnected)
      | Some i \<Rightarrow> bind_run (get_endpoint i ns) (\<lambda>ep. Ret (Ok (ep_addr ep))))"

definition tcp_socket_from_std_stream :: "node_id \<Rightarrow> fd \<Rightarrow> ('g, 'f, 'w) net_sim \<Rightarrow> tcp_socket" where
  "tcp_socket_from_std_stream cur fd ns =
     \<lparr>tk_fd = fd,
      tk_bind_addr = (case try_get_endpoint_from_socket cur fd ns of Ok e \<Rightarrow> e | Err _ \<Rightarrow> None)\<rparr>"

definition tcp_socket_from_raw_fd :: "node_id \<Rightarrow> fd \<Rightarrow> ('g, 'f, 'w) net_sim \<Rightarrow> tcp_socket run" where
  "tcp_socket_from_raw_fd cur fd ns =
     (case try_get_endpoint_from_socket cur fd ns of
        Err _ \<Rightarrow> Panic UnwrapNone
      | Ok e \<Rightarrow> Ret \<lparr>tk_fd = fd, tk_bind_addr = e\<rparr>)"

text \<open>\<open>new_v4\<close>: the real tokio opens the socket. \<open>newfd\<close> is its descriptor.\<close>

definition tcp_socket_new_v4 ::
    "node_id \<Rightarrow> fd \<Rightarrow> ('g, 'f, 'w) net_sim \<Rightarrow> (tcp_socket \<times> ('g, 'f, 'w) net_sim) run" where
  "tcp_socket_new_v4 cur newfd ns =
     bind_run (sys_socket cur AF_INET SOCK_STREAM newfd ns) (\<lambda>(_, ns).
     bind_run (tcp_socket_from_raw_fd cur newfd ns) (\<lambda>tk. Ret (tk, ns)))"

text \<open>\<open>into_raw_fd\<close> keeps the descriptor open and drops the reference to the endpoint.\<close>

definition tcp_socket_into_raw_fd :: "tcp_socket \<Rightarrow> fd \<times> nat option" where
  "tcp_socket_into_raw_fd tk = (tk_fd tk, tk_bind_addr tk)"

text \<open>
  \<open>listen\<close>: the real tokio calls \<open>listen\<close> on the descriptor, and closes it when that fails. The
  second component of the result is the reference dropped by \<open>into_raw_fd\<close>.
\<close>

definition tcp_socket_listen ::
    "node_id \<Rightarrow> tcp_socket \<Rightarrow> ('g, 'f, 'w) net_sim \<Rightarrow>
     ((fd \<times> nat) io_result \<times> nat option \<times> ('g, 'f, 'w) net_sim) run" where
  "tcp_socket_listen cur tk ns =
     (case tcp_socket_into_raw_fd tk of
        (fd, dropped) \<Rightarrow>
          bind_run (sys_listen cur fd ns) (\<lambda>((ret, err), ns).
            if ret \<noteq> 0 then bind_run (close_fd cur fd ns) (\<lambda>ns. Ret (Err (kind_of_errno err), dropped, ns))
            else Ret (listener_from_std cur fd ns, dropped, ns)))"

text \<open>\<open>connect\<close> up to its first send; the socket itself is not used, and dropped at the end.\<close>

definition tcp_socket_connect ::
    "('g, 'f) rng_ops \<Rightarrow> node_id \<Rightarrow> socket_addr \<Rightarrow> tcp_socket \<Rightarrow> ('g, 'f, 'w) net_sim \<Rightarrow>
     ((sleep \<times> tcp_state) io_result \<times> 'w list \<times> ('g, 'f, 'w) net_sim) run" where
  "tcp_socket_connect ops cur peer tk ns = connect_begin ops cur peer ns"

definition tcp_socket_drop ::
    "bool \<Rightarrow> node_id \<Rightarrow> tcp_socket \<Rightarrow> ('g, 'f, 'w) net_sim \<Rightarrow>
     nat option list \<times> ('g, 'f, 'w) net_sim" where
  "tcp_socket_drop killed cur tk ns =
     (case owned_fd_drop killed cur (tk_fd tk) ns of (_, ep, ns) \<Rightarrow> ([ep, tk_bind_addr tk], ns))"

text \<open>\<open>lookup_host\<close> first sleeps for ten microseconds.\<close>

definition lookup_host :: "'cb time_state \<Rightarrow> (sleep \<times> 'cb time_state) run" where
  "lookup_host = time_sleep 10000"

section \<open>What binding a socket is good for\<close>

text \<open>The address that \<open>bind\<close> gave to a socket is lost: \<open>listen\<close> on it always fails, because the
  descriptor itself was never bound, and \<open>connect\<close> leaves from another port.\<close>

lemma connect_begin_addr:
  assumes "connect_begin ops cur peer ns = Ret (Ok (sl, s), ws, ns')"
  obtains ip port nw1 ep where "bind cur SOCK_STREAM (local_for_peer peer) (ns_network ns) = Ret (Ok (ip, port), nw1)"
    "ns_endpoints ns' (ts_ep s) = Some ep" "ep_addr ep = (ip, port)"
proof -
  from assms obtain i ns1 ep0 t ns2 ns3 where
    b: "endpoint_connect_sync cur SOCK_STREAM peer ns = Ret (Ok i, ns1)"
    and ep0: "get_endpoint i ns1 = Ret ep0" and al: "allocate_local_tcp_id i ns1 = Ret (t, ns2)"
    and sd: "send_to_raw ops cur ep0 (ts_remote_sock s) 0 (message_tcp_id t) ns2 = Ret (Ok sl, ns3)"
    and s: "ts_ep s = i" "ns' = ns3"
    by (auto simp: connect_begin_def tcp_state_new_def run_simps)
  obtain ip port nw1 where bd: "bind cur SOCK_STREAM (local_for_peer peer) (ns_network ns) = Ret (Ok (ip, port), nw1)"
    and n1: "ns_endpoints ns1 i = Some \<lparr>ep_node = cur, ep_addr = (ip, port), ep_proto = SOCK_STREAM,
        ep_peer = Some peer, ep_live_tcp_ids = {}\<rparr>"
    using b unfolding endpoint_connect_sync_def by (rule endpoint_bind_Ok) (auto intro: that)
  from al n1 obtain ep where n2: "ns_endpoints ns2 i = Some ep" "ep_addr ep = (ip, port)"
    by (auto simp: allocate_local_tcp_id_def get_endpoint_def next_tcp_id_def Let_def call_simps run_simps)
  moreover have "ns_endpoints ns3 = ns_endpoints ns2"
    using sd by (auto simp: send_to_raw_def send_to_raw_sync_def rand_delay_def call_simps run_simps)
  ultimately show thesis using that bd s by simp
qed

text \<open>The address given to \<open>TcpSocket::bind\<close> is lost: \<open>listen\<close> on a socket that was opened and
  bound fails and closes it, because its descriptor was never bound, and \<open>connect\<close> leaves from
  another port.\<close>

theorem socket_bind_is_lost:
  assumes "tcp_socket_bind cur addr tk ns = Ret (Ok (), old, tk', ns1)"
    and "ns_sockets ns (cur, tk_fd tk) = Some ss" "ss_endpoint ss = None" "ss_ty ss = SOCK_STREAM"
  shows "\<exists>i ep. tk_bind_addr tk' = Some i \<and> ns_endpoints ns1 i = Some ep \<and>
    (\<exists>ns2. tcp_socket_listen cur tk' ns1 = Ret (Err Uncategorized, Some i, ns2) \<and>
       ns_sockets ns2 (cur, tk_fd tk') = None) \<and>
    (\<forall>ops peer sl s ws ns2. tcp_socket_connect ops cur peer tk' ns1 = Ret (Ok (sl, s), ws, ns2) \<longrightarrow>
       (\<exists>ep'. ns_endpoints ns2 (ts_ep s) = Some ep' \<and> snd (ep_addr ep') \<noteq> snd (ep_addr ep)))"
proof -
  from assms(1) obtain i where b: "endpoint_bind cur SOCK_STREAM addr None ns = Ret (Ok i, ns1)"
    and tk': "tk' = tk\<lparr>tk_bind_addr := Some i\<rparr>"
    by (auto simp: tcp_socket_bind_def endpoint_bind_sync_def run_simps)
  obtain ip port nw1 where bd: "bind cur SOCK_STREAM addr (ns_network ns) = Ret (Ok (ip, port), nw1)"
    and n1: "ns1 = ns\<lparr>ns_network := nw1, ns_endpoints := (ns_endpoints ns)(i \<mapsto>
        \<lparr>ep_node = cur, ep_addr = (ip, port), ep_proto = SOCK_STREAM, ep_peer = None, ep_live_tcp_ids = {}\<rparr>),
        ns_next_ep := i + 1\<rparr>"
    by (rule endpoint_bind_Ok [OF b])
  have l: "\<exists>ns2. tcp_socket_listen cur tk' ns1 = Ret (Err Uncategorized, Some i, ns2) \<and>
      ns_sockets ns2 (cur, tk_fd tk') = None"
    using assms(2-4)
    by (simp add: tcp_socket_listen_def tcp_socket_into_raw_fd_def tk' n1 sys_listen_def or_errno_def with_socket_def
        c_fail_def close_fd_def sys_close_def close_socket_def kind_of_errno_def)
  have c: "\<exists>ep'. ns_endpoints ns2 (ts_ep s) = Some ep' \<and> snd (ep_addr ep') \<noteq> port"
    if "tcp_socket_connect ops cur peer tk' ns1 = Ret (Ok (sl, s), ws, ns2)" for ops peer sl s ws ns2
    using that unfolding tcp_socket_connect_def
  proof (rule connect_begin_addr)
    fix ip' port' nw2 ep
    assume bd2: "bind cur SOCK_STREAM (local_for_peer peer) (ns_network ns1) = Ret (Ok (ip', port'), nw2)"
      and ep: "ns_endpoints ns2 (ts_ep s) = Some ep" "ep_addr ep = (ip', port')"
    have "sock_map nw1 (cur, (port, SOCK_STREAM)) \<noteq> None" by (simp add: bind_sock_map(2) [OF bd])
    moreover have "sock_map nw1 (cur, (port', SOCK_STREAM)) = None" using bind_sock_map(1) [OF bd2] by (simp add: n1)
    ultimately have "port' \<noteq> port" by auto
    with ep show ?thesis by simp
  qed
  let ?ep = "\<lparr>ep_node = cur, ep_addr = (ip, port), ep_proto = SOCK_STREAM, ep_peer = None, ep_live_tcp_ids = {}\<rparr>"
  have "tk_bind_addr tk' = Some i" "ns_endpoints ns1 i = Some ?ep" "snd (ep_addr ?ep) = port"
    by (simp_all add: tk' n1)
  then show ?thesis using l c by metis
qed

theorem socket_bind_is_lost_witness:
  "\<exists>tk ns1 ns2. tcp_socket_bind 1 (IPv4 1, 80) \<lparr>tk_fd = 3, tk_bind_addr = None\<rparr> demo_ns =
       Ret (Ok (), None, tk, ns1) \<and>
     tcp_socket_listen 1 tk ns1 = Ret (Err Uncategorized, Some 1, ns2)"
proof -
  obtain ns1 where b: "tcp_socket_bind 1 (IPv4 1, 80) \<lparr>tk_fd = 3, tk_bind_addr = None\<rparr> demo_ns =
      Ret (Ok (), None, \<lparr>tk_fd = 3, tk_bind_addr = Some 1\<rparr>, ns1)"
    by (simp add: tcp_socket_bind_def endpoint_bind_sync_def endpoint_bind_def with_network_def bind_def
        demo_ns_def network_new_def resolve_ip_def resolve_port_def new_endpoint_def demo_nd_def
        SOCK_STREAM_def Let_def)
  have "ns_sockets demo_ns (1, 3) = Some \<lparr>ss_ty = SOCK_STREAM, ss_endpoint = None, ss_listening = False\<rparr>"
    by (simp add: demo_ns_def)
  with socket_bind_is_lost [OF b] b show ?thesis by fastforce
qed

end
