(* ===== verification/Udp_Socket.thy ===== *)
theory Udp_Socket
  imports Tcp Socket_Facts
begin

text \<open>
  UDP sockets for tokio programs (\<open>msim-tokio/src/sim/udp.rs\<close>) and the readiness of file
  descriptors (\<open>AsyncFd\<close> in \<open>msim-tokio/src/sim/io.rs\<close>). The many methods whose body is \<open>todo!()\<close>
  or \<open>unimplemented!()\<close> panic; \<open>send_to\<close> and the unknown interests stand for them.
\<close>

section \<open>UDP sockets\<close>

datatype interest = READABLE | WRITABLE | OtherInterest

record udp_socket =
  us_fd :: fd
  us_ep :: nat
  us_default_dest :: "socket_addr option"

definition udp_new :: "fd \<Rightarrow> nat \<Rightarrow> udp_socket" where
  "udp_new fd i = \<lparr>us_fd = fd, us_ep = i, us_default_dest = None\<rparr>"

definition udp_from_std :: "node_id \<Rightarrow> fd \<Rightarrow> ('g, 'f, 'w) net_sim \<Rightarrow> udp_socket io_result" where
  "udp_from_std cur fd ns =
     (case get_endpoint_from_socket cur fd ns of Err e \<Rightarrow> Err e | Ok i \<Rightarrow> Ok (udp_new fd i))"

text \<open>
  \<open>std::net::UdpSocket::bind\<close>: the calls \<open>socket\<close> and \<open>bind\<close>, both intercepted; when the second fails
  the descriptor is closed and \<open>errno\<close> is the error. \<open>newfd\<close> is the new descriptor.
\<close>

definition std_udp_bind ::
    "node_id \<Rightarrow> fd \<Rightarrow> socket_addr \<Rightarrow> ('g, 'f, 'w) net_sim \<Rightarrow> (fd io_result \<times> ('g, 'f, 'w) net_sim) run" where
  "std_udp_bind cur newfd addr ns =
     bind_run (sys_socket cur (if is_ipv6 addr then AF_INET6 else AF_INET) SOCK_DGRAM newfd ns) (\<lambda>(_, ns).
     bind_run (sys_bind cur newfd addr ns) (\<lambda>((ret, err), ns).
       if ret = 0 then Ret (Ok newfd, ns)
       else Ret (Err (kind_of_errno err), snd (snd (sys_close cur newfd ns)))))"

definition udp_bind_addr ::
    "node_id \<Rightarrow> fd \<times> socket_addr \<Rightarrow> ('g, 'f, 'w) net_sim \<Rightarrow> (udp_socket io_result \<times> ('g, 'f, 'w) net_sim) run" where
  "udp_bind_addr cur fa ns =
     bind_run (std_udp_bind cur (fst fa) (snd fa) ns) (\<lambda>(r, ns).
       case r of Err e \<Rightarrow> Ret (Err e, ns) | Ok fd \<Rightarrow> Ret (udp_from_std cur fd ns, ns))"

text \<open>Each address with the descriptor that a socket for it gets.\<close>

definition udp_bind ::
    "node_id \<Rightarrow> (fd \<times> socket_addr) list \<Rightarrow> ('g, 'f, 'w) net_sim \<Rightarrow>
     (udp_socket io_result \<times> ('g, 'f, 'w) net_sim) run" where
  "udp_bind cur addrs = bind_first (udp_bind_addr cur) addrs None"

definition udp_into_std :: "udp_socket \<Rightarrow> fd" where
  "udp_into_std us = us_fd us"

definition udp_local_addr :: "udp_socket \<Rightarrow> ('g, 'f, 'w) net_sim \<Rightarrow> socket_addr io_result run" where
  "udp_local_addr us ns = bind_run (get_endpoint (us_ep us) ns) (\<lambda>ep. Ret (local_addr ep))"

definition udp_peer_addr :: "udp_socket \<Rightarrow> ('g, 'f, 'w) net_sim \<Rightarrow> socket_addr io_result run" where
  "udp_peer_addr us ns = bind_run (get_endpoint (us_ep us) ns) (\<lambda>ep. Ret (peer_addr ep))"

definition udp_connect :: "socket_addr list \<Rightarrow> udp_socket \<Rightarrow> unit io_result \<times> udp_socket" where
  "udp_connect addrs us =
     (case addrs of
        [] \<Rightarrow> (Err InvalidInput, us)
      | a # _ \<Rightarrow> (Ok (), us\<lparr>us_default_dest := Some a\<rparr>))"

definition udp_ready :: "interest \<Rightarrow> interest io_result run" where
  "udp_ready i = (case i of OtherInterest \<Rightarrow> Panic Todo | _ \<Rightarrow> Ret (Ok i))"

definition udp_writable :: "unit io_result run" where
  "udp_writable = bind_run (udp_ready WRITABLE) (\<lambda>_. Ret (Ok ()))"

definition udp_readable :: "unit io_result run" where
  "udp_readable = bind_run (udp_ready READABLE) (\<lambda>_. Ret (Ok ()))"

definition udp_poll_send_ready :: "unit io_result poll" where
  "udp_poll_send_ready = Ready (Ok ())"

text \<open>The readiness of an endpoint for datagrams, as \<open>poll_recv_ready\<close> and \<open>AsyncFd\<close> ask for it.\<close>

definition poll_udp_ready ::
    "'w \<Rightarrow> node_id \<Rightarrow> nat \<Rightarrow> ('g, 'f, 'w) net_sim \<Rightarrow> (unit io_result poll \<times> ('g, 'f, 'w) net_sim) run" where
  "poll_udp_ready cx cur i ns =
     bind_run (get_endpoint i ns) (\<lambda>ep.
       case udp_tag ep of
         Err e \<Rightarrow> Ret (Ready (Err e), ns)
       | Ok tag \<Rightarrow>
           bind_run (ep_recv_ready (Some cx) cur ep tag ns) (\<lambda>(ready, ns).
             Ret (if ready then Ready (Ok ()) else Pending, ns)))"

definition udp_poll_recv_ready ::
    "'w \<Rightarrow> node_id \<Rightarrow> udp_socket \<Rightarrow> ('g, 'f, 'w) net_sim \<Rightarrow>
     (unit io_result poll \<times> ('g, 'f, 'w) net_sim) run" where
  "udp_poll_recv_ready cx cur us ns = poll_udp_ready cx cur (us_ep us) ns"

definition udp_send_to :: "socket_addr list \<Rightarrow> nat io_result run" where
  "udp_send_to addrs = (case addrs of [] \<Rightarrow> Ret (Err InvalidInput) | _ \<Rightarrow> Panic Todo)"

text \<open>\<open>try_io\<close>: the operation \<open>f\<close> runs only when the socket is ready for it.\<close>

definition udp_try_io ::
    "interest \<Rightarrow> (('g, 'f, 'w) net_sim \<Rightarrow> ('a io_result \<times> ('g, 'f, 'w) net_sim) run) \<Rightarrow> node_id \<Rightarrow>
     udp_socket \<Rightarrow> ('g, 'f, 'w) net_sim \<Rightarrow> ('a io_result \<times> ('g, 'f, 'w) net_sim) run" where
  "udp_try_io i f cur us ns =
     bind_run (get_endpoint (us_ep us) ns) (\<lambda>ep.
       case udp_tag ep of
         Err e \<Rightarrow> Ret (Err e, ns)
       | Ok tag \<Rightarrow>
           bind_run (case i of
               READABLE \<Rightarrow> ep_recv_ready None cur ep tag ns
             | WRITABLE \<Rightarrow> Ret (True, ns)
             | OtherInterest \<Rightarrow> Panic Todo) (\<lambda>(ready, ns).
             if ready then f ns else Ret (Err WouldBlock, ns)))"

section \<open>AsyncFd\<close>

record async_fd =
  af_inner :: "fd option"
  af_next_write :: u64

definition async_fd_new :: "fd \<Rightarrow> interest \<Rightarrow> async_fd io_result" where
  "async_fd_new fd i = Ok \<lparr>af_inner = Some fd, af_next_write = 0\<rparr>"

definition async_fd_get_ref :: "async_fd \<Rightarrow> fd run" where
  "async_fd_get_ref af = expect UnwrapNone (af_inner af)"

definition async_fd_into_inner :: "async_fd \<Rightarrow> fd run" where
  "async_fd_into_inner af = expect UnwrapNone (af_inner af)"

definition async_poll_read_ready ::
    "'w \<Rightarrow> node_id \<Rightarrow> async_fd \<Rightarrow> ('g, 'f, 'w) net_sim \<Rightarrow>
     (unit io_result poll \<times> ('g, 'f, 'w) net_sim) run" where
  "async_poll_read_ready cx cur af ns =
     bind_run (async_fd_get_ref af) (\<lambda>fd.
       case get_endpoint_from_socket cur fd ns of
         Err e \<Rightarrow> Ret (Ready (Err e), ns)
       | Ok i \<Rightarrow> poll_udp_ready cx cur i ns)"

text \<open>
  Writing is ready again less than 50 nanoseconds after it was last; until then the task is woken
  by a timer of its node. \<open>wake\<close> is what the timer runs.
\<close>

definition async_poll_write_ready ::
    "('g, 'f) rng_ops \<Rightarrow> 'cb \<Rightarrow> node_id \<Rightarrow> async_fd \<Rightarrow> 'cb time_state \<Rightarrow> 'g \<Rightarrow>
     (unit io_result poll \<times> async_fd \<times> 'cb time_state \<times> 'g) run" where
  "async_poll_write_ready ops wake cur af tm g =
     bind_run (time_elapsed tm) (\<lambda>(e, tm).
     bind_run (assert_run (e < 2 ^ 64) UnwrapNone) (\<lambda>_.
       let now = of_nat e; ready = af_next_write af in
       if ready \<le> now then
         bind_run (gen_range ops 0 50 g) (\<lambda>(d, g).
         bind_run (assert_run (e + d < 2 ^ 64) Overflow) (\<lambda>_.
           Ret (Ready (Ok ()), af\<lparr>af_next_write := of_nat (e + d)\<rparr>, tm, g)))
       else
         bind_run (now_instant tm) (\<lambda>(i, tm).
         bind_run (instant_add i (unat (ready - now))) (\<lambda>deadline.
           Ret (Pending, af, add_timer_for_node cur deadline wake tm, g)))))"

text \<open>\<open>try_io\<close> of a readiness guard: an operation that would block is told apart from the rest.\<close>

definition guard_try_io :: "'a io_result \<Rightarrow> unit + 'a io_result" where
  "guard_try_io r = (case r of Err WouldBlock \<Rightarrow> Inl () | _ \<Rightarrow> Inr r)"

section \<open>Properties\<close>

lemma poll_write_elapsed:
  assumes "async_poll_write_ready ops wake cur af tm g = Ret x"
  obtains tm1 where "time_elapsed tm = Ret (elapsed_time (th_clock tm), tm1)" "th_timer tm1 = th_timer tm"
    "elapsed_time (th_clock tm1) = elapsed_time (th_clock tm)"
    "base_instant (th_clock tm1) = base_instant (th_clock tm)"
    "unat (of_nat (elapsed_time (th_clock tm)) :: u64) = elapsed_time (th_clock tm)"
proof -
  have "elapsed_time (th_clock tm) < 2 ^ 64"
    using assms
    by (auto simp: async_poll_write_ready_def time_elapsed_def clock_elapsed_def check_abort_def
        split: if_splits)
  then show ?thesis
    using assms that
    by (auto simp: async_poll_write_ready_def time_elapsed_def clock_elapsed_def check_abort_def
        unat_of_nat split: if_splits)
qed

text \<open>Writing to an \<open>AsyncFd\<close> is paced: it is ready exactly when the time it was deferred to has
  come; then it is deferred again, by less than 50 nanoseconds; and a task that finds it not ready
  leaves a timer of its node that fires exactly at that time, when the next poll will be ready.\<close>

theorem write_readiness_paced:
  assumes "rng_ok ops" and "async_poll_write_ready ops wake cur af tm g = Ret (r, af', tm', g')"
  shows "elapsed_time (th_clock tm') = elapsed_time (th_clock tm) \<and>
    (case r of
       Ready _ \<Rightarrow> unat (af_next_write af) \<le> elapsed_time (th_clock tm) \<and>
         elapsed_time (th_clock tm) \<le> unat (af_next_write af') \<and>
         unat (af_next_write af') < elapsed_time (th_clock tm) + 50 \<and> th_timer tm' = th_timer tm
     | Pending \<Rightarrow> elapsed_time (th_clock tm) < unat (af_next_write af) \<and> af' = af \<and>
         th_timer tm' = timer_add cur (unat (af_next_write af)) wake (th_timer tm))"
proof -
  let ?e = "elapsed_time (th_clock tm)" and ?n = "unat (af_next_write af)"
  obtain tm1 where tm1: "time_elapsed tm = Ret (?e, tm1)" "th_timer tm1 = th_timer tm"
    "elapsed_time (th_clock tm1) = ?e" "base_instant (th_clock tm1) = base_instant (th_clock tm)"
    and now: "unat (of_nat ?e :: u64) = ?e"
    by (rule poll_write_elapsed [OF assms(2)])
  show ?thesis
  proof (cases "af_next_write af \<le> of_nat ?e")
    case True
    then have le: "?n \<le> ?e"
      by (simp add: word_le_nat_alt now)
    obtain d where d: "gen_range ops 0 50 g = Ret (d, g')" "?e + d < 2 ^ 64"
      and out: "r = Ready (Ok ())" "af' = af\<lparr>af_next_write := of_nat (?e + d)\<rparr>" "tm' = tm1"
      using assms(2) True tm1(1) by (auto simp: async_poll_write_ready_def Let_def)
    have "d < 50"
      using assms(1) d(1) unfolding rng_ok_def gen_range_def
      by (metis fst_conv run.inject(1) zero_less_numeral)
    then show ?thesis
      using le out tm1 d(2) by (simp add: unat_of_nat del: of_nat_add)
  next
    case False
    then have lt: "?e < ?n"
      by (simp add: word_le_nat_alt now)
    have diff: "unat (af_next_write af - of_nat ?e) = ?n - ?e"
      using lt by (subst unat_sub) (simp_all add: word_le_nat_alt now)
    obtain tm2 where tm2: "now_instant tm1 = Ret (base_instant (th_clock tm) + int ?e, tm2)"
      "th_timer tm2 = th_timer tm" "elapsed_time (th_clock tm2) = ?e"
      "base_instant (th_clock tm2) = base_instant (th_clock tm)"
      and out: "r = Pending" "af' = af"
        "tm' = add_timer_for_node cur (base_instant (th_clock tm) + int ?n) wake tm2"
      using assms(2) False tm1 lt
      by (auto simp: async_poll_write_ready_def Let_def now_instant_def clock_now_instant_def
          check_abort_def instant_simps diff split: if_splits)
    then show ?thesis
      using lt by (simp add: add_timer_for_node_def instant_diff_nat)
  qed
qed

text \<open>\<open>readable\<close> does not wait for a datagram: whenever \<open>poll_recv_ready\<close> would wait, because none
  has arrived, \<open>readable\<close> is done at once all the same, and a \<open>try_io\<close> for reading then only says
  that it would block, without calling the operation and without leaving a waker.\<close>

theorem readable_does_not_wait:
  assumes "udp_poll_recv_ready cx cur us ns = Ret (Pending, ns')"
  shows "udp_readable = Ret (Ok ()) \<and> udp_try_io READABLE f cur us ns = Ret (Err WouldBlock, ns)"
proof -
  obtain ep tag where ep: "get_endpoint (us_ep us) ns = Ret ep" and tag: "udp_tag ep = Ok tag"
    and ready: "ep_recv_ready (Some cx) cur ep tag ns = Ret (False, ns')"
    using assms by (auto simp: udp_poll_recv_ready_def poll_udp_ready_def run_simps split: if_splits)
  have "ep_recv_ready None cur ep tag ns = Ret (False, ns)"
    using ready
    by (auto simp: ep_recv_ready_def with_network_def recv_ready_def at_socket_def at_mailbox_def
        mailbox_recv_ready_def Let_def run_simps fun_upd_idem split: if_splits)
  then show ?thesis
    by (simp add: udp_readable_def udp_ready_def udp_try_io_def ep tag)
qed

section \<open>The properties at work\<close>

lemma write_readiness_paced_witness:
  "\<exists>tm g. async_poll_write_ready demo_rng (7 :: nat) 0 \<lparr>af_inner = Some 4, af_next_write = 10\<rparr> demo_time 5 =
      Ret (Pending, \<lparr>af_inner = Some 4, af_next_write = 10\<rparr>, tm, g) \<and>
    th_timer tm = timer_add 0 10 7 (th_timer demo_time)"
proof -
  obtain tm g where w: "async_poll_write_ready demo_rng (7 :: nat) 0 \<lparr>af_inner = Some 4, af_next_write = 10\<rparr>
      demo_time 5 = Ret (Pending, \<lparr>af_inner = Some 4, af_next_write = 10\<rparr>, tm, g)"
    by (simp add: async_poll_write_ready_def demo_time_def time_elapsed_def clock_elapsed_def
        check_abort_def clock_new_def ABORT_COUNTER_START_def now_instant_def clock_now_instant_def
        instant_simps instant_ok_def Let_def)
  then show ?thesis
    using write_readiness_paced [OF demo_rng_ok w] by simp
qed

lemma readable_does_not_wait_witness:
  "udp_try_io READABLE (\<lambda>ns. Ret (Ok (1 :: nat), ns)) 1 (udp_new 4 0) demo_ns = Ret (Err WouldBlock, demo_ns)"
proof -
  obtain ns' where "udp_poll_recv_ready 5 1 (udp_new 4 0) demo_ns = Ret (Pending, ns')"
    by (simp add: udp_poll_recv_ready_def poll_udp_ready_def get_endpoint_def demo_ns_def udp_new_def
        udp_tag_def ep_recv_ready_def with_network_def recv_ready_def at_socket_def at_mailbox_def
        network_new_def demo_nd_def SOCK_DGRAM_def mailbox_recv_ready_def mailbox_default_def Let_def)
  from readable_does_not_wait [OF this] show ?thesis by (rule conjunct2)
qed

end
