(* ===== verification/Stream_Calls.thy ===== *)
theory Stream_Calls
  imports Tcp_Socket Udp_Socket
begin

text \<open>
  The calls a program makes on connections, put together from their parts: the connected calls of
  \<open>Endpoint\<close> (\<open>msim/src/sim/net/mod.rs\<close>), the addresses, options and owned halves of streams and
  sockets (\<open>msim-tokio/src/sim/net.rs\<close>), and waiting for readiness with \<open>AsyncFd\<close> and its guards
  (\<open>msim-tokio/src/sim/io.rs\<close>). And a connection seen from both halves: closing one half is invisible
  to the peer.
\<close>

section \<open>Connected endpoints\<close>

text \<open>\<open>Endpoint::connect\<close> sleeps first; \<open>connect_sync\<close> is what it does afterwards.\<close>

definition endpoint_connect_start ::
    "('g, 'f) rng_ops \<Rightarrow> ('g, 'f, 'w) net_sim \<Rightarrow> (sleep \<times> ('g, 'f, 'w) net_sim) run" where
  "endpoint_connect_start ops ns = rand_delay ops ns"

text \<open>\<open>send_to\<close> and \<open>send\<close>: \<open>dsts\<close> are the addresses that the destination resolves to.\<close>

definition endpoint_send_to ::
    "('g, 'f) rng_ops \<Rightarrow> node_id \<Rightarrow> endpoint \<Rightarrow> socket_addr list \<Rightarrow> u64 \<Rightarrow> wire_data payload \<Rightarrow>
     ('g, 'f, 'w) net_sim \<Rightarrow> (sleep io_result \<times> ('g, 'f, 'w) net_sim) run" where
  "endpoint_send_to ops cur ep dsts tag data ns =
     (case dsts of [] \<Rightarrow> Panic UnwrapNone | dst # _ \<Rightarrow> send_to_raw ops cur ep dst tag data ns)"

definition endpoint_send ::
    "('g, 'f) rng_ops \<Rightarrow> node_id \<Rightarrow> endpoint \<Rightarrow> u64 \<Rightarrow> wire_data payload \<Rightarrow>
     ('g, 'f, 'w) net_sim \<Rightarrow> (sleep io_result \<times> ('g, 'f, 'w) net_sim) run" where
  "endpoint_send ops cur ep tag data ns =
     (case peer_addr ep of Err e \<Rightarrow> Ret (Err e, ns) | Ok peer \<Rightarrow> endpoint_send_to ops cur ep [peer] tag data ns)"

definition endpoint_send_raw ::
    "('g, 'f) rng_ops \<Rightarrow> node_id \<Rightarrow> endpoint \<Rightarrow> u64 \<Rightarrow> wire_data payload \<Rightarrow>
     ('g, 'f, 'w) net_sim \<Rightarrow> (sleep io_result \<times> ('g, 'f, 'w) net_sim) run" where
  "endpoint_send_raw ops cur ep tag data ns =
     (case peer_addr ep of Err e \<Rightarrow> Ret (Err e, ns) | Ok peer \<Rightarrow> send_to_raw ops cur ep peer tag data ns)"

text \<open>The end of \<open>recv\<close>: the message received, copied into a buffer of the given length.\<close>

definition endpoint_recv_finish ::
    "nat \<Rightarrow> endpoint \<Rightarrow> wire_data payload \<times> socket_addr \<Rightarrow> u8 list io_result run" where
  "endpoint_recv_finish len ep got =
     (case peer_addr ep of
        Err e \<Rightarrow> Ret (Err e)
      | Ok peer \<Rightarrow>
          bind_run (copy_to_buffer len (fst got)) (\<lambda>bs.
          bind_run (assert_run (snd got = peer) AssertFailed) (\<lambda>_. Ret (Ok bs))))"

section \<open>Streams and their halves\<close>

definition stream_peer_addr :: "tcp_stream \<Rightarrow> ('g, 'f, 'w) net_sim \<Rightarrow> socket_addr io_result run" where
  "stream_peer_addr st ns = bind_run (get_endpoint (ts_ep (st_state st)) ns) (\<lambda>ep. Ret (peer_addr ep))"

definition stream_local_addr :: "tcp_stream \<Rightarrow> ('g, 'f, 'w) net_sim \<Rightarrow> socket_addr io_result run" where
  "stream_local_addr st ns = bind_run (get_endpoint (ts_ep (st_state st)) ns) (\<lambda>ep. Ret (local_addr ep))"

definition stream_nodelay :: "tcp_stream \<Rightarrow> bool io_result" where
  "stream_nodelay st = Ok (ts_nodelay (st_state st))"

definition poll_flush :: "tcp_stream \<Rightarrow> unit io_result poll" where
  "poll_flush st = Ready (Ok ())"

definition poll_shutdown :: "tcp_stream \<Rightarrow> unit io_result poll" where
  "poll_shutdown st = Ready (Ok ())"

definition listener_local_addr :: "nat \<Rightarrow> ('g, 'f, 'w) net_sim \<Rightarrow> socket_addr io_result run" where
  "listener_local_addr i ns = bind_run (get_endpoint i ns) (\<lambda>ep. Ret (local_addr ep))"

text \<open>\<open>into_std\<close> keeps the descriptor and drops the reference to the endpoint.\<close>

definition listener_into_std :: "fd \<times> nat \<Rightarrow> fd io_result \<times> nat" where
  "listener_into_std l = (Ok (fst l), snd l)"

text \<open>The halves share the stream; it is dropped with the second of them.\<close>

record tcp_halves =
  th_stream :: tcp_stream
  th_read :: bool
  th_write :: bool

datatype half = ReadHalf | WriteHalf

definition split_owned :: "tcp_stream \<Rightarrow> tcp_halves" where
  "split_owned st = \<lparr>th_stream = st, th_read = True, th_write = True\<rparr>"

definition half_drop ::
    "node_id \<Rightarrow> half \<Rightarrow> tcp_halves \<Rightarrow> ('g, 'f, 'w) net_sim \<Rightarrow> ('w list \<times> tcp_halves \<times> ('g, 'f, 'w) net_sim) run" where
  "half_drop cur x h ns =
     (let h = (case x of ReadHalf \<Rightarrow> h\<lparr>th_read := False\<rparr> | WriteHalf \<Rightarrow> h\<lparr>th_write := False\<rparr>) in
      if th_read h \<or> th_write h then Ret ([], h, ns)
      else bind_run (tcp_state_drop cur (st_state (th_stream h)) ns) (\<lambda>(ws, ns). Ret (ws, h, ns)))"

definition half_poll_read ::
    "'w \<Rightarrow> node_id \<Rightarrow> nat \<Rightarrow> tcp_halves \<Rightarrow> ('g, 'f, 'w) net_sim \<Rightarrow>
     (u8 list io_result poll \<times> tcp_halves \<times> ('g, 'f, 'w) net_sim) run" where
  "half_poll_read cx cur cap h ns =
     bind_run (poll_read False cx cur cap (th_stream h) ns) (\<lambda>(r, st, ns). Ret (r, h\<lparr>th_stream := st\<rparr>, ns))"

definition half_poll_write ::
    "('g, 'f) rng_ops \<Rightarrow> node_id \<Rightarrow> u8 list \<Rightarrow> tcp_halves \<Rightarrow> ('g, 'f, 'w) net_sim \<Rightarrow>
     (nat io_result poll \<times> tcp_halves \<times> ('g, 'f, 'w) net_sim) run" where
  "half_poll_write ops cur buf h ns =
     bind_run (poll_write ops cur buf (th_stream h) ns) (\<lambda>(r, st, ns). Ret (r, h\<lparr>th_stream := st\<rparr>, ns))"

definition half_peek ::
    "'w \<Rightarrow> node_id \<Rightarrow> nat \<Rightarrow> tcp_halves \<Rightarrow> ('g, 'f, 'w) net_sim \<Rightarrow>
     (u8 list io_result poll \<times> tcp_halves \<times> ('g, 'f, 'w) net_sim) run" where
  "half_peek cx cur cap h ns =
     bind_run (peek cx cur cap (th_stream h) ns) (\<lambda>(r, st, ns). Ret (r, h\<lparr>th_stream := st\<rparr>, ns))"

section \<open>Options of sockets\<close>

text \<open>Setting an option succeeds and does nothing; reading one gives a constant.\<close>

datatype socket_option =
    Keepalive bool | Nodelay bool | Reuseaddr bool | Reuseport bool | SendBufferSize u32
  | RecvBufferSize u32 | Linger "duration option"

definition tcp_socket_set :: "socket_option \<Rightarrow> tcp_socket \<Rightarrow> unit io_result \<times> tcp_socket" where
  "tcp_socket_set x tk = (Ok (), tk)"

definition tcp_socket_options :: "tcp_socket \<Rightarrow> socket_option list" where
  "tcp_socket_options tk =
     [Keepalive False, Nodelay False, Reuseaddr False, Reuseport False, SendBufferSize 212992,
      RecvBufferSize 212992, Linger None]"

definition tcp_socket_take_error :: "tcp_socket \<Rightarrow> io_kind option io_result" where
  "tcp_socket_take_error tk = Ok None"

section \<open>Readiness\<close>

definition ALL_INTEREST :: interest where
  "ALL_INTEREST = OtherInterest"

definition async_fd_with_interest :: "fd \<Rightarrow> interest \<Rightarrow> async_fd io_result" where
  "async_fd_with_interest fd i = async_fd_new fd i"

definition async_fd_open :: "fd \<Rightarrow> async_fd io_result" where
  "async_fd_open fd = async_fd_with_interest fd ALL_INTEREST"

definition async_fd_take_inner :: "async_fd \<Rightarrow> fd option \<times> async_fd" where
  "async_fd_take_inner af = (af_inner af, af\<lparr>af_inner := None\<rparr>)"

text \<open>\<open>readiness\<close>: one poll of the wait, by the interest; \<open>readable\<close> and \<open>writable\<close> are its two cases.\<close>

definition async_readiness ::
    "('g, 'f) rng_ops \<Rightarrow> 'w \<Rightarrow> 'cb \<Rightarrow> node_id \<Rightarrow> interest \<Rightarrow> async_fd \<Rightarrow> ('g, 'f, 'w) net_sim \<Rightarrow> 'cb time_state \<Rightarrow> 'g \<Rightarrow>
     (unit io_result poll \<times> async_fd \<times> ('g, 'f, 'w) net_sim \<times> 'cb time_state \<times> 'g) run" where
  "async_readiness ops cx wake cur i af ns tm g =
     (case i of
        READABLE \<Rightarrow> bind_run (async_poll_read_ready cx cur af ns) (\<lambda>(r, ns). Ret (r, af, ns, tm, g))
      | WRITABLE \<Rightarrow> bind_run (async_poll_write_ready ops wake cur af tm g) (\<lambda>(r, af, tm, g). Ret (r, af, ns, tm, g))
      | OtherInterest \<Rightarrow> Panic Todo)"

text \<open>\<open>try_io\<close> of either guard: clearing the readiness does nothing.\<close>

definition guard_clear_ready :: "async_fd \<Rightarrow> async_fd" where
  "guard_clear_ready af = af"

definition mut_guard_try_io :: "(async_fd \<Rightarrow> 'a io_result \<times> async_fd) \<Rightarrow> async_fd \<Rightarrow> (unit + 'a io_result) \<times> async_fd" where
  "mut_guard_try_io f af =
     (case f af of (r, af) \<Rightarrow>
        (guard_try_io r, case r of Err WouldBlock \<Rightarrow> guard_clear_ready af | _ \<Rightarrow> af))"

section \<open>What the halves and the options do\<close>

text \<open>
  A stream split into its halves reads and writes as it did before; shutting it down, or dropping
  the half that writes while the other is kept, sends nothing: in tokio both end the stream for the
  peer, whose next read returns zero bytes; here the network is as before, and so is what the peer
  reads.
\<close>

theorem closing_a_half_is_not_seen:
  assumes "th_read h" "half_drop cur WriteHalf h ns = Ret (ws, h', ns')"
  shows "ws = [] \<and> ns' = ns \<and> th_stream h' = th_stream h"
  using assms by (auto simp: half_drop_def Let_def split: if_splits)

text \<open>The stream goes with the second half, whichever that is.\<close>

theorem second_half_closes:
  assumes "x \<noteq> y" "half_drop cur x (split_owned st) ns = Ret (ws, h, ns')"
  shows "half_drop cur y h ns' = bind_run (tcp_state_drop cur (st_state st) ns) (\<lambda>(ws, ns).
    Ret (ws, \<lparr>th_stream = st, th_read = False, th_write = False\<rparr>, ns))"
  using assms by (cases x; cases y) (auto simp: half_drop_def split_owned_def Let_def)

text \<open>A connected endpoint that receives from another address panics instead of ignoring it.\<close>

theorem stranger_panics:
  assumes "ep_peer ep = Some peer" "from \<noteq> peer" "pl_data p = RawBytes bs"
  shows "endpoint_recv_finish len ep (p, from) = Panic AssertFailed \<and>
    recv_from_connected ep (p, from) = Panic AssertFailed"
  using assms by (simp add: endpoint_recv_finish_def recv_from_connected_def peer_addr_def copy_to_buffer_def)

end
