(* ===== verification/Task_Node.thy ===== *)
theory Task_Node
  imports Mailbox
begin

text \<open>
  The state of the executor of \<open>msim/src/sim/task.rs\<close> and of its blocking pool,
  \<open>msim/src/sim/task/blocking.rs\<close>, and the operations of \<open>TaskHandle\<close>, \<open>TaskNodeHandle\<close> and
  \<open>runtime::Handle\<close> on them.

  A task is the number of its \<open>Runnable\<close>, a job the number of its closure. Each start of a node is
  an incarnation, an \<open>Arc<TaskInfo>\<close>: its number points into the store of infos. What the
  simulated program does is a parameter, the record \<open>env\<close>: which calls a task or job makes when it
  runs, what its destructors wake, who awaits a task, who waits for the \<open>killed\<close> flag of an incarnation, and what the
  registered simulators do with a node. Its own state is \<open>'p\<close>.
\<close>

section \<open>Incarnations of nodes\<close>

definition usize_max :: nat where "usize_max = 2 ^ 64 - 1"

record graceful_shutdown =
  gs_restart_after :: "duration option"
  gs_deadline :: instant

record task_info =
  ti_node :: node_id
  ti_name :: string
  ti_paused :: bool
  ti_killed :: bool
  ti_polls_left :: nat
  ti_shutdown :: "graceful_shutdown option"

definition task_info_new :: "node_id \<Rightarrow> string \<Rightarrow> task_info" where
  "task_info_new n name =
     \<lparr>ti_node = n, ti_name = name, ti_paused = False, ti_killed = False, ti_polls_left = usize_max,
      ti_shutdown = None\<rparr>"

definition is_shutting_down :: "task_info \<Rightarrow> bool" where
  "is_shutting_down ti \<longleftrightarrow> ti_polls_left ti \<noteq> usize_max"

record node_entry =
  ne_info :: nat
  ne_paused :: "nat list"
  ne_init :: "nat option"

section \<open>The blocking pool\<close>

text \<open>
  Only one thread runs at a time, so a turn is one step of the model. A pool thread is idle or
  parked at a yield point of the job in \<open>qs_current\<close>, given by its number and its incarnation.
\<close>

record blocking_latency =
  bl_start :: "duration \<times> duration"
  bl_finish :: "duration \<times> duration"

definition blocking_latency_default :: blocking_latency where
  "blocking_latency_default = \<lparr>bl_start = (0, 1000000), bl_finish = (0, 5000000)\<rparr>"

record pool =
  bp_queue :: "(nat \<times> nat) chan"
  qs_current :: "(nat \<times> nat) option list"
  qs_abort_requested :: "bool list"
  qs_dequeued :: nat
  qs_pending_panics :: "(node_id \<times> duration option) list"
  bp_started :: bool
  bp_latency :: "blocking_latency option"

definition pool_new :: "string option \<Rightarrow> pool run" where
  "pool_new var =
     bind_run (case var of Some s \<Rightarrow> expect UnwrapNone (parse_u64 s) | None \<Rightarrow> Ret 32) (\<lambda>n.
     bind_run (assert_run (n < 2 ^ 32) UnwrapNone) (\<lambda>_.
     bind_run (assert_run (0 < n) AssertFailed) (\<lambda>_.
       Ret \<lparr>bp_queue = channel, qs_current = replicate n None, qs_abort_requested = replicate n False,
            qs_dequeued = 0, qs_pending_panics = [], bp_started = False,
            bp_latency = Some blocking_latency_default\<rparr>)))"

section \<open>The executor\<close>

text \<open>
  Two kinds of tasks are the simulator's own: the one that restarts a node after a delay, and the
  wrapper of a blocking job, which waits, hands the job to the pool, awaits its result and waits
  again.
\<close>

datatype restart_stage = RestartNew duration | RestartSleep sleep

datatype blocking_stage = BStart duration | BSleep sleep | BAwait | BFinish sleep

datatype sys_task =
    SysRestart node_id restart_stage
  | SysBlocking nat nat "duration option" blocking_stage

text \<open>What a timer event does: nothing, wake one of the simulator's own tasks, or the program's.\<close>

datatype 'c exec_cb = CbNone | CbWake nat | CbUser 'c

record ('g, 'c, 'p) exec =
  ex_queue :: "(nat \<times> nat) chan"
  ex_infos :: "nat \<Rightarrow> task_info"
  ex_next_info :: nat
  ex_nodes :: "node_id \<rightharpoonup> node_entry"
  ex_next_node :: u64
  ex_shutting :: "nat list"
  ex_task_info :: "nat \<rightharpoonup> nat"
  ex_next_task :: nat
  ex_sys :: "nat \<rightharpoonup> sys_task"
  ex_next_job :: nat
  ex_results :: "nat \<rightharpoonup> bool"
  ex_waiters :: "nat \<rightharpoonup> nat"
  ex_pool :: pool
  ex_time :: "'c exec_cb time_state"
  ex_rand :: "'g global_rng"
  ex_prog :: 'p

text \<open>\<open>NodeBuilder\<close>: what a new node is to have.\<close>

record node_builder =
  nb_name :: "string option"
  nb_ip :: "ip_addr option"
  nb_init :: "nat option"

text \<open>The calls a running task or job makes.\<close>

datatype 'c call =
    CSchedule nat | CSpawn nat | CSpawnBlocking nat | CSetLatency "blocking_latency option"
  | CKill node_id | CRestart node_id | CPause node_id | CResume node_id | CDelete node_id
  | CCreate node_builder | CShutdown node_id "duration option" nat duration
  | CTimer node_id instant 'c

datatype task_out = Returned | KillCurrent "duration option" | ShutdownCurrent | Panicked

datatype job_out = JobYield | JobDone | JobPanicked | JobKill "duration option" | JobShutdown

record ('g, 'f, 'c, 'p) env =
  en_ops :: "('g, 'f) rng_ops"
  en_shuffle :: "nat list \<Rightarrow> 'g \<Rightarrow> nat list \<times> 'g"
  en_poll :: "nat \<Rightarrow> ('g, 'c, 'p) exec \<Rightarrow> task_out \<times> 'c call list \<times> 'p"
  en_job :: "nat \<Rightarrow> ('g, 'c, 'p) exec \<Rightarrow> job_out \<times> 'c call list \<times> 'p"
  en_drop :: "nat option \<Rightarrow> nat \<Rightarrow> 'p \<Rightarrow> nat list \<times> 'p"
  en_drop_job :: "nat option \<Rightarrow> nat \<Rightarrow> 'p \<Rightarrow> nat list \<times> 'p"
  en_done :: "nat \<Rightarrow> 'p \<Rightarrow> nat list \<times> 'p"
  en_killed :: "nat \<Rightarrow> 'p \<Rightarrow> nat list \<times> 'p"
  en_fire :: "'c \<Rightarrow> 'p \<Rightarrow> nat list \<times> 'p"
  en_init :: "nat \<Rightarrow> nat \<Rightarrow> 'p \<Rightarrow> 'p"
  en_sim_create :: "node_id \<Rightarrow> ip_addr option \<Rightarrow> 'p \<Rightarrow> 'p run"
  en_sim_reset :: "node_id \<Rightarrow> 'p \<Rightarrow> 'p run"
  en_sim_delete :: "node_id \<Rightarrow> 'p \<Rightarrow> 'p run"

definition executor_new ::
    "pool \<Rightarrow> 'c exec_cb time_state \<Rightarrow> 'g global_rng \<Rightarrow> 'p \<Rightarrow> ('g, 'c, 'p) exec" where
  "executor_new pool time rand p =
     \<lparr>ex_queue = channel, ex_infos = (\<lambda>_. task_info_new 0 ''''), ex_next_info = 0, ex_nodes = Map.empty,
      ex_next_node = 1, ex_shutting = [], ex_task_info = Map.empty, ex_next_task = 0, ex_sys = Map.empty,
      ex_next_job = 0, ex_results = Map.empty, ex_waiters = Map.empty, ex_pool = pool, ex_time = time,
      ex_rand = rand, ex_prog = p\<rparr>"

section \<open>Tasks\<close>

definition info_of :: "nat \<Rightarrow> ('g, 'c, 'p) exec \<Rightarrow> task_info" where
  "info_of i ex = ex_infos ex i"

definition upd_info :: "nat \<Rightarrow> (task_info \<Rightarrow> task_info) \<Rightarrow> ('g, 'c, 'p) exec \<Rightarrow> ('g, 'c, 'p) exec" where
  "upd_info i f ex = ex\<lparr>ex_infos := (ex_infos ex)(i := f (ex_infos ex i))\<rparr>"

definition new_info :: "node_id \<Rightarrow> string \<Rightarrow> ('g, 'c, 'p) exec \<Rightarrow> nat \<times> ('g, 'c, 'p) exec" where
  "new_info n name ex =
     (ex_next_info ex, ex\<lparr>ex_infos := (ex_infos ex)(ex_next_info ex := task_info_new n name),
                          ex_next_info := ex_next_info ex + 1\<rparr>)"

text \<open>The closure that schedules a runnable sends it with its incarnation to the ready queue.\<close>

definition schedule :: "nat \<Rightarrow> ('g, 'c, 'p) exec \<Rightarrow> ('g, 'c, 'p) exec" where
  "schedule t ex =
     (case ex_task_info ex t of
        None \<Rightarrow> ex
      | Some i \<Rightarrow> ex\<lparr>ex_queue := snd (chan_send (t, i) (ex_queue ex))\<rparr>)"

definition schedule_all :: "nat list \<Rightarrow> ('g, 'c, 'p) exec \<Rightarrow> ('g, 'c, 'p) exec" where
  "schedule_all ts ex = fold schedule ts ex"

text \<open>Code of the program that wakes tasks.\<close>

definition prog_wakes ::
    "('p \<Rightarrow> nat list \<times> 'p) \<Rightarrow> ('g, 'c, 'p) exec \<Rightarrow> ('g, 'c, 'p) exec" where
  "prog_wakes f ex = (case f (ex_prog ex) of (ts, p) \<Rightarrow> schedule_all ts (ex\<lparr>ex_prog := p\<rparr>))"

definition drop_runnable ::
    "('g, 'f, 'c, 'p) env \<Rightarrow> nat option \<Rightarrow> nat \<Rightarrow> ('g, 'c, 'p) exec \<Rightarrow> ('g, 'c, 'p) exec" where
  "drop_runnable env ctx t ex = prog_wakes (en_drop env ctx t) (ex\<lparr>ex_sys := (ex_sys ex)(t := None)\<rparr>)"

definition spawn_local :: "nat \<Rightarrow> ('g, 'c, 'p) exec \<Rightarrow> nat \<times> ('g, 'c, 'p) exec" where
  "spawn_local i ex =
     (let t = ex_next_task ex;
          ex = ex\<lparr>ex_next_task := t + 1, ex_task_info := (ex_task_info ex)(t \<mapsto> i)\<rparr>
      in (t, schedule t ex))"

definition spawn_on_main_task :: "('g, 'c, 'p) exec \<Rightarrow> nat \<times> ('g, 'c, 'p) exec" where
  "spawn_on_main_task ex = (case new_info 0 ''main'' ex of (i, ex) \<Rightarrow> spawn_local i ex)"

section \<open>Operations of the pool\<close>

definition pool_spawn :: "nat \<Rightarrow> nat \<Rightarrow> ('g, 'c, 'p) exec \<Rightarrow> ('g, 'c, 'p) exec run" where
  "pool_spawn job i ex =
     (case chan_send (job, i) (bp_queue (ex_pool ex)) of
        (None, q) \<Rightarrow> Ret (ex\<lparr>ex_pool := (ex_pool ex)\<lparr>bp_queue := q\<rparr>\<rparr>)
      | (Some _, _) \<Rightarrow> Panic AssertFailed)"

definition set_latency :: "blocking_latency option \<Rightarrow> ('g, 'c, 'p) exec \<Rightarrow> ('g, 'c, 'p) exec" where
  "set_latency l ex = ex\<lparr>ex_pool := (ex_pool ex)\<lparr>bp_latency := l\<rparr>\<rparr>"

text \<open>A draw from the shared generator; the determinism log may read the clock.\<close>

definition exec_draw ::
    "('g, 'f, 'c, 'p) env \<Rightarrow> ('g \<Rightarrow> ('a \<times> 'g) run) \<Rightarrow> ('g, 'c, 'p) exec \<Rightarrow> ('a \<times> ('g, 'c, 'p) exec) run" where
  "exec_draw env f ex =
     bind_run (rng_with (en_ops env) f (Some (th_clock (ex_time ex))) (ex_rand ex)) (\<lambda>(x, clk, gr).
       Ret (x, ex\<lparr>ex_rand := gr, ex_time := (case clk of Some c \<Rightarrow> (ex_time ex)\<lparr>th_clock := c\<rparr> | None \<Rightarrow> ex_time ex)\<rparr>))"

definition sample_range ::
    "('g, 'f, 'c, 'p) env \<Rightarrow> duration \<times> duration \<Rightarrow> ('g, 'c, 'p) exec \<Rightarrow> (duration \<times> ('g, 'c, 'p) exec) run" where
  "sample_range env r ex =
     (if snd r \<le> fst r then Ret (fst r, ex) else exec_draw env (gen_range (en_ops env) (fst r) (snd r)) ex)"

definition sample_latency ::
    "('g, 'f, 'c, 'p) env \<Rightarrow> ('g, 'c, 'p) exec \<Rightarrow> ((duration \<times> duration) option \<times> ('g, 'c, 'p) exec) run" where
  "sample_latency env ex =
     (case bp_latency (ex_pool ex) of
        None \<Rightarrow> Ret (None, ex)
      | Some l \<Rightarrow>
          bind_run (sample_range env (bl_start l) ex) (\<lambda>(s, ex).
          bind_run (sample_range env (bl_finish l) ex) (\<lambda>(f, ex). Ret (Some (s, f), ex))))"

text \<open>Flag every thread that is in a job of the node.\<close>

definition request_abort_node :: "node_id \<Rightarrow> ('g, 'c, 'p) exec \<Rightarrow> ('g, 'c, 'p) exec" where
  "request_abort_node n ex =
     (let p = ex_pool ex in
      ex\<lparr>ex_pool := p\<lparr>qs_abort_requested :=
        map2 (\<lambda>cur ab. ab \<or> (case cur of Some (_, i) \<Rightarrow> ti_node (info_of i ex) = n | None \<Rightarrow> False))
          (qs_current p) (qs_abort_requested p)\<rparr>\<rparr>)"

text \<open>
  \<open>spawn_blocking\<close>: refused (\<open>None\<close>, a handle already cancelled) once the node shuts down; else
  the wrapper task.
\<close>

definition spawn_blocking ::
    "('g, 'f, 'c, 'p) env \<Rightarrow> nat \<Rightarrow> ('g, 'c, 'p) exec \<Rightarrow> (nat option \<times> ('g, 'c, 'p) exec) run" where
  "spawn_blocking env i ex =
     (if is_shutting_down (info_of i ex) then Ret (None, ex)
      else bind_run (sample_latency env ex) (\<lambda>(l, ex).
        let job = ex_next_job ex; ex = ex\<lparr>ex_next_job := job + 1\<rparr> in
        case l of
          None \<Rightarrow> bind_run (pool_spawn job i ex) (\<lambda>ex.
            case spawn_local i ex of (t, ex) \<Rightarrow>
              Ret (Some t, ex\<lparr>ex_sys := (ex_sys ex)(t \<mapsto> SysBlocking i job None BAwait)\<rparr>))
        | Some (start, finish) \<Rightarrow>
            (case spawn_local i ex of (t, ex) \<Rightarrow>
              Ret (Some t, ex\<lparr>ex_sys := (ex_sys ex)(t \<mapsto> SysBlocking i job (Some finish) (BStart start))\<rparr>))))"

section \<open>Operations on nodes\<close>

text \<open>
  \<open>kill\<close>: the timers of the node are cancelled, its parked runnables dropped in the context of the
  caller \<open>ctx\<close>, a new incarnation takes the place of the old one, whose tasks are woken, and its
  blocking jobs are asked to unwind.
\<close>

definition mark_killed ::
    "('g, 'f, 'c, 'p) env \<Rightarrow> nat \<Rightarrow> ('g, 'c, 'p) exec \<Rightarrow> ('g, 'c, 'p) exec" where
  "mark_killed env i ex = prog_wakes (en_killed env i) (upd_info i (\<lambda>ti. ti\<lparr>ti_killed := True\<rparr>) ex)"

definition task_kill ::
    "('g, 'f, 'c, 'p) env \<Rightarrow> nat option \<Rightarrow> node_id \<Rightarrow> ('g, 'c, 'p) exec \<Rightarrow> ('g, 'c, 'p) exec run" where
  "task_kill env ctx n ex =
     (let ex = ex\<lparr>ex_time := disable_node_and_cancel_timers n (ex_time ex)\<rparr> in
      bind_run (expect NodeNotFound (ex_nodes ex n)) (\<lambda>nd.
        let ex = fold (drop_runnable env ctx) (ne_paused nd) ex in
        case new_info n (ti_name (info_of (ne_info nd) ex)) ex of
          (i, ex) \<Rightarrow>
            let ex = ex\<lparr>ex_nodes := (ex_nodes ex)(n \<mapsto> nd\<lparr>ne_paused := [], ne_info := i\<rparr>)\<rparr>;
                ex = mark_killed env (ne_info nd) ex
            in Ret (request_abort_node n ex)))"

definition begin_graceful_shutdown ::
    "node_id \<Rightarrow> duration option \<Rightarrow> nat \<Rightarrow> duration \<Rightarrow> ('g, 'c, 'p) exec \<Rightarrow> ('g, 'c, 'p) exec run" where
  "begin_graceful_shutdown n restart_after poll_budget max_duration ex =
     bind_run (expect NodeNotFound (ex_nodes ex n)) (\<lambda>nd.
       let i = ne_info nd in
       if is_shutting_down (info_of i ex) then Ret ex
       else
         bind_run (now_instant (ex_time ex)) (\<lambda>(now, tm).
         bind_run (instant_add now max_duration) (\<lambda>dl.
           let ex = upd_info i (\<lambda>ti. ti\<lparr>ti_shutdown := Some \<lparr>gs_restart_after = restart_after, gs_deadline = dl\<rparr>,
                      ti_polls_left := min poll_budget (usize_max - 1)\<rparr>)
                      (ex\<lparr>ex_time := add_timer_for_node 0 dl CbNone tm\<rparr>)
           in Ret (ex\<lparr>ex_shutting := ex_shutting ex @ [i]\<rparr>))))"

definition call_init ::
    "('g, 'f, 'c, 'p) env \<Rightarrow> nat option \<Rightarrow> nat \<Rightarrow> ('g, 'c, 'p) exec \<Rightarrow> ('g, 'c, 'p) exec" where
  "call_init env init i ex =
     (case init of
        None \<Rightarrow> ex
      | Some c \<Rightarrow> (case spawn_local i ex of (t, ex) \<Rightarrow> ex\<lparr>ex_prog := en_init env c t (ex_prog ex)\<rparr>))"

definition task_restart ::
    "('g, 'f, 'c, 'p) env \<Rightarrow> nat option \<Rightarrow> node_id \<Rightarrow> ('g, 'c, 'p) exec \<Rightarrow> ('g, 'c, 'p) exec run" where
  "task_restart env ctx n ex =
     bind_run (task_kill env ctx n ex) (\<lambda>ex.
     bind_run (time_enable_node n (ex_time ex)) (\<lambda>tm.
       let ex = ex\<lparr>ex_time := tm\<rparr> in
       bind_run (expect NodeNotFound (ex_nodes ex n)) (\<lambda>nd. Ret (call_init env (ne_init nd) (ne_info nd) ex))))"

definition task_pause :: "node_id \<Rightarrow> ('g, 'c, 'p) exec \<Rightarrow> ('g, 'c, 'p) exec run" where
  "task_pause n ex =
     bind_run (expect NodeNotFound (ex_nodes ex n)) (\<lambda>nd.
       Ret (upd_info (ne_info nd) (\<lambda>ti. ti\<lparr>ti_paused := True\<rparr>) ex))"

definition task_resume :: "node_id \<Rightarrow> ('g, 'c, 'p) exec \<Rightarrow> ('g, 'c, 'p) exec run" where
  "task_resume n ex =
     bind_run (expect NodeNotFound (ex_nodes ex n)) (\<lambda>nd.
       let ex = upd_info (ne_info nd) (\<lambda>ti. ti\<lparr>ti_paused := False\<rparr>) ex;
           q = fold (\<lambda>t q. snd (chan_send (t, ne_info nd) q)) (ne_paused nd) (ex_queue ex)
       in Ret (ex\<lparr>ex_queue := q, ex_nodes := (ex_nodes ex)(n \<mapsto> nd\<lparr>ne_paused := []\<rparr>)\<rparr>))"

text \<open>The default name is \<open>node-\<close> and the number; \<open>AtomicU64::fetch_add\<close> wraps around.\<close>

definition digit_char :: "nat \<Rightarrow> char" where
  "digit_char d = char_of (48 + d)"

fun show_nat :: "nat \<Rightarrow> string" where
  "show_nat n = (if n < 10 then [digit_char n] else show_nat (n div 10) @ [digit_char (n mod 10)])"

declare show_nat.simps [simp del]

definition task_create_node ::
    "('g, 'f, 'c, 'p) env \<Rightarrow> string option \<Rightarrow> nat option \<Rightarrow> ('g, 'c, 'p) exec \<Rightarrow> (node_id \<times> nat) \<times> ('g, 'c, 'p) exec" where
  "task_create_node env name init ex =
     (let n = ex_next_node ex; ex = ex\<lparr>ex_next_node := n + 1\<rparr>;
          name = (case name of Some s \<Rightarrow> s | None \<Rightarrow> ''node-'' @ show_nat (unat n))
      in case new_info n name ex of
           (i, ex) \<Rightarrow>
             let ex = call_init env init i ex
             in ((n, i), ex\<lparr>ex_nodes := (ex_nodes ex)(n \<mapsto> \<lparr>ne_info = i, ne_paused = [], ne_init = init\<rparr>)\<rparr>))"

definition task_delete_node ::
    "('g, 'f, 'c, 'p) env \<Rightarrow> nat option \<Rightarrow> node_id \<Rightarrow> ('g, 'c, 'p) exec \<Rightarrow> ('g, 'c, 'p) exec run" where
  "task_delete_node env ctx n ex =
     bind_run (task_kill env ctx n ex) (\<lambda>ex.
     bind_run (assert_run (ex_nodes ex n \<noteq> None) AssertFailed) (\<lambda>_.
       Ret (ex\<lparr>ex_nodes := (ex_nodes ex)(n := None)\<rparr>)))"

definition get_node :: "node_id \<Rightarrow> ('g, 'c, 'p) exec \<Rightarrow> nat option" where
  "get_node n ex = map_option ne_info (ex_nodes ex n)"

text \<open>\<open>runtime::Handle\<close>: the same, and every registered simulator is told.\<close>

definition on_sims :: "('p \<Rightarrow> 'p run) \<Rightarrow> ('g, 'c, 'p) exec \<Rightarrow> ('g, 'c, 'p) exec run" where
  "on_sims f ex = bind_run (f (ex_prog ex)) (\<lambda>p. Ret (ex\<lparr>ex_prog := p\<rparr>))"

definition handle_kill ::
    "('g, 'f, 'c, 'p) env \<Rightarrow> nat option \<Rightarrow> node_id \<Rightarrow> ('g, 'c, 'p) exec \<Rightarrow> ('g, 'c, 'p) exec run" where
  "handle_kill env ctx n ex = bind_run (task_kill env ctx n ex) (on_sims (en_sim_reset env n))"

definition handle_restart ::
    "('g, 'f, 'c, 'p) env \<Rightarrow> nat option \<Rightarrow> node_id \<Rightarrow> ('g, 'c, 'p) exec \<Rightarrow> ('g, 'c, 'p) exec run" where
  "handle_restart env ctx n ex = bind_run (task_restart env ctx n ex) (on_sims (en_sim_reset env n))"

definition handle_delete_node ::
    "('g, 'f, 'c, 'p) env \<Rightarrow> nat option \<Rightarrow> node_id \<Rightarrow> ('g, 'c, 'p) exec \<Rightarrow> ('g, 'c, 'p) exec run" where
  "handle_delete_node env ctx n ex = bind_run (task_delete_node env ctx n ex) (on_sims (en_sim_delete env n))"

text \<open>\<open>NodeBuilder\<close>: its name, address and initial task, and the building of the node.\<close>

definition node_builder_new :: node_builder where
  "node_builder_new = \<lparr>nb_name = None, nb_ip = None, nb_init = None\<rparr>"

definition nb_set_name :: "string \<Rightarrow> node_builder \<Rightarrow> node_builder" where
  "nb_set_name s b = b\<lparr>nb_name := Some s\<rparr>"

definition nb_set_init :: "nat \<Rightarrow> node_builder \<Rightarrow> node_builder" where
  "nb_set_init c b = b\<lparr>nb_init := Some c\<rparr>"

definition nb_set_ip :: "ip_addr \<Rightarrow> node_builder \<Rightarrow> node_builder" where
  "nb_set_ip ip b = b\<lparr>nb_ip := Some ip\<rparr>"

definition node_builder_build ::
    "('g, 'f, 'c, 'p) env \<Rightarrow> node_builder \<Rightarrow> ('g, 'c, 'p) exec \<Rightarrow> (node_id \<times> ('g, 'c, 'p) exec) run" where
  "node_builder_build env b ex =
     (case task_create_node env (nb_name b) (nb_init b) ex of
        ((n, _), ex) \<Rightarrow> bind_run (on_sims (en_sim_create env n (nb_ip b)) ex) (\<lambda>ex. Ret (n, ex)))"

end
