(* ===== verification/Executor.thy ===== *)
theory Executor
  imports Task_Node
begin

text \<open>
  Running: the loop \<open>run_all_ready\<close> of \<open>msim/src/sim/task.rs\<close> over the ready queue, the wake rounds
  of the blocking pool (\<open>msim/src/sim/task/blocking.rs\<close>), and \<open>block_on\<close>, which alternates them
  and lets virtual time jump when nothing else can happen. The loops are partial functions: what
  the simulated program does may keep them going forever.
\<close>

section \<open>Calls of the program\<close>

definition or_nothing :: "('a \<times> ('g, 'c, 'p) exec) run \<Rightarrow> ('g, 'c, 'p) exec run" where
  "or_nothing m = bind_run m (\<lambda>(_, ex). Ret ex)"

fun apply_call ::
    "('g, 'f, 'c, 'p) env \<Rightarrow> nat option \<Rightarrow> 'c call \<Rightarrow> ('g, 'c, 'p) exec \<Rightarrow> ('g, 'c, 'p) exec run" where
  "apply_call env ctx (CSchedule t) ex = Ret (schedule t ex)"
| "apply_call env ctx (CSpawn i) ex = Ret (snd (spawn_local i ex))"
| "apply_call env ctx (CSpawnBlocking i) ex = or_nothing (spawn_blocking env i ex)"
| "apply_call env ctx (CSetLatency l) ex = Ret (set_latency l ex)"
| "apply_call env ctx (CKill n) ex = handle_kill env ctx n ex"
| "apply_call env ctx (CRestart n) ex = handle_restart env ctx n ex"
| "apply_call env ctx (CPause n) ex = task_pause n ex"
| "apply_call env ctx (CResume n) ex = task_resume n ex"
| "apply_call env ctx (CDelete n) ex = handle_delete_node env ctx n ex"
| "apply_call env ctx (CCreate b) ex = or_nothing (node_builder_build env b ex)"
| "apply_call env ctx (CShutdown n r b d) ex = begin_graceful_shutdown n r b d ex"
| "apply_call env ctx (CTimer n i c) ex =
     Ret (ex\<lparr>ex_time := add_timer_for_node n i (CbUser c) (ex_time ex)\<rparr>)"

fun apply_calls ::
    "('g, 'f, 'c, 'p) env \<Rightarrow> nat option \<Rightarrow> 'c call list \<Rightarrow> ('g, 'c, 'p) exec \<Rightarrow> ('g, 'c, 'p) exec run" where
  "apply_calls env ctx [] ex = Ret ex"
| "apply_calls env ctx (c # cs) ex = bind_run (apply_call env ctx c ex) (apply_calls env ctx cs)"

text \<open>\<open>shutdown_all_nodes\<close>: the nodes in the order in which the map gives them.\<close>

fun shutdown_all_nodes ::
    "('g, 'f, 'c, 'p) env \<Rightarrow> nat \<Rightarrow> node_id list \<Rightarrow> ('g, 'c, 'p) exec \<Rightarrow> ('g, 'c, 'p) exec run" where
  "shutdown_all_nodes env cur [] ex = Ret ex"
| "shutdown_all_nodes env cur (n # ns) ex =
     (if n = ti_node (info_of cur ex) then shutdown_all_nodes env cur ns ex
      else bind_run (handle_kill env (Some cur) n ex) (shutdown_all_nodes env cur ns))"

section \<open>Restarts after a kill\<close>

text \<open>\<open>handle_task_panic\<close> of a \<open>PanicWrapper\<close>: a task that restarts the node later.\<close>

definition handle_task_panic :: "node_id \<Rightarrow> duration option \<Rightarrow> ('g, 'c, 'p) exec \<Rightarrow> ('g, 'c, 'p) exec" where
  "handle_task_panic n restart_after ex =
     (case restart_after of
        None \<Rightarrow> ex
      | Some d \<Rightarrow>
          (case spawn_on_main_task ex of
             (t, ex) \<Rightarrow> ex\<lparr>ex_sys := (ex_sys ex)(t \<mapsto> SysRestart n (RestartNew d))\<rparr>))"

definition kill_current_node_impl ::
    "('g, 'f, 'c, 'p) env \<Rightarrow> nat \<Rightarrow> ('g, 'c, 'p) exec \<Rightarrow> ('g, 'c, 'p) exec run" where
  "kill_current_node_impl env cur ex = handle_kill env (Some cur) (ti_node (info_of cur ex)) ex"

text \<open>\<open>kill_current_node\<close>: without a given delay, 1000 to 2999 milliseconds.\<close>

definition kill_current_node ::
    "('g, 'f, 'c, 'p) env \<Rightarrow> nat \<Rightarrow> duration option \<Rightarrow> ('g, 'c, 'p) exec \<Rightarrow> (duration \<times> ('g, 'c, 'p) exec) run" where
  "kill_current_node env cur restart_after ex =
     bind_run (case restart_after of
         Some d \<Rightarrow> Ret (d, ex)
       | None \<Rightarrow> bind_run (exec_draw env (gen_range (en_ops env) 1000 3000) ex) (\<lambda>(ms, ex). Ret (ms * 1000000, ex)))
     (\<lambda>(d, ex). bind_run (kill_current_node_impl env cur ex) (\<lambda>ex. Ret (d, ex)))"

text \<open>A poll of the simulator's own sleeps.\<close>

definition poll_sys_sleep ::
    "node_id \<Rightarrow> nat \<Rightarrow> sleep \<Rightarrow> ('g, 'c, 'p) exec \<Rightarrow> (bool \<times> ('g, 'c, 'p) exec) run" where
  "poll_sys_sleep n t sl ex =
     bind_run (sleep_poll n (CbWake t) sl (ex_time ex)) (\<lambda>(r, tm).
       Ret (case r of Ready _ \<Rightarrow> True | Pending \<Rightarrow> False, ex\<lparr>ex_time := tm\<rparr>))"

definition new_sys_sleep :: "duration \<Rightarrow> ('g, 'c, 'p) exec \<Rightarrow> (sleep \<times> ('g, 'c, 'p) exec) run" where
  "new_sys_sleep d ex = bind_run (time_sleep d (ex_time ex)) (\<lambda>(sl, tm). Ret (sl, ex\<lparr>ex_time := tm\<rparr>))"

definition set_sys :: "nat \<Rightarrow> sys_task option \<Rightarrow> ('g, 'c, 'p) exec \<Rightarrow> ('g, 'c, 'p) exec" where
  "set_sys t s ex = ex\<lparr>ex_sys := (ex_sys ex)(t := s)\<rparr>"

definition poll_restart ::
    "('g, 'f, 'c, 'p) env \<Rightarrow> nat \<Rightarrow> nat \<Rightarrow> node_id \<Rightarrow> restart_stage \<Rightarrow> ('g, 'c, 'p) exec \<Rightarrow> ('g, 'c, 'p) exec run" where
  "poll_restart env t i n stage ex =
     bind_run (case stage of RestartNew d \<Rightarrow> new_sys_sleep d ex | RestartSleep sl \<Rightarrow> Ret (sl, ex)) (\<lambda>(sl, ex).
     bind_run (poll_sys_sleep 0 t sl ex) (\<lambda>(ready, ex).
       if \<not> ready then Ret (set_sys t (Some (SysRestart n (RestartSleep sl))) ex)
       else
         let ex = set_sys t None ex in
         if get_node n ex = None then Ret ex else handle_restart env (Some i) n ex))"

text \<open>The output of a wrapper task is there, or the task is cancelled: who awaits it is woken.\<close>

definition sys_done :: "('g, 'f, 'c, 'p) env \<Rightarrow> nat \<Rightarrow> ('g, 'c, 'p) exec \<Rightarrow> ('g, 'c, 'p) exec" where
  "sys_done env t ex = prog_wakes (en_done env t) (set_sys t None ex)"

text \<open>
  The wrapper of a blocking job: \<open>finish\<close> is the delay after the result, if a latency is set. A job
  still waiting when its node shuts down is cancelled.
\<close>

definition poll_blocking_await ::
    "('g, 'f, 'c, 'p) env \<Rightarrow> nat \<Rightarrow> nat \<Rightarrow> nat \<Rightarrow> duration option \<Rightarrow> ('g, 'c, 'p) exec \<Rightarrow> ('g, 'c, 'p) exec run" where
  "poll_blocking_await env t i job finish ex =
     (case ex_results ex job of
        None \<Rightarrow> Ret (set_sys t (Some (SysBlocking i job finish BAwait)) (ex\<lparr>ex_waiters := (ex_waiters ex)(job \<mapsto> t)\<rparr>))
      | Some False \<Rightarrow> Panic TaskPanic
      | Some True \<Rightarrow>
          (case finish of
             None \<Rightarrow> Ret (sys_done env t ex)
           | Some d \<Rightarrow>
               bind_run (new_sys_sleep d ex) (\<lambda>(sl, ex).
               bind_run (poll_sys_sleep (ti_node (info_of i ex)) t sl ex) (\<lambda>(ready, ex).
                 Ret (if ready then sys_done env t ex else set_sys t (Some (SysBlocking i job finish (BFinish sl))) ex)))))"

definition poll_blocking_start ::
    "('g, 'f, 'c, 'p) env \<Rightarrow> nat \<Rightarrow> nat \<Rightarrow> nat \<Rightarrow> duration option \<Rightarrow> sleep \<Rightarrow> ('g, 'c, 'p) exec \<Rightarrow> ('g, 'c, 'p) exec run" where
  "poll_blocking_start env t i job finish sl ex =
     bind_run (poll_sys_sleep (ti_node (info_of i ex)) t sl ex) (\<lambda>(ready, ex).
       if \<not> ready then Ret (set_sys t (Some (SysBlocking i job finish (BSleep sl))) ex)
       else if is_shutting_down (info_of i ex) then Ret (sys_done env t ex)
       else bind_run (pool_spawn job i ex) (poll_blocking_await env t i job finish))"

definition poll_blocking ::
    "('g, 'f, 'c, 'p) env \<Rightarrow> nat \<Rightarrow> nat \<Rightarrow> nat \<Rightarrow> duration option \<Rightarrow> blocking_stage \<Rightarrow> ('g, 'c, 'p) exec \<Rightarrow> ('g, 'c, 'p) exec run" where
  "poll_blocking env t i job finish stage ex =
     (case stage of
        BStart d \<Rightarrow> bind_run (new_sys_sleep d ex) (\<lambda>(sl, ex). poll_blocking_start env t i job finish sl ex)
      | BSleep sl \<Rightarrow> poll_blocking_start env t i job finish sl ex
      | BAwait \<Rightarrow> poll_blocking_await env t i job finish ex
      | BFinish sl \<Rightarrow> bind_run (poll_sys_sleep (ti_node (info_of i ex)) t sl ex) (\<lambda>(ready, ex).
          Ret (if ready then sys_done env t ex else ex)))"

section \<open>The ready queue\<close>

text \<open>\<open>runnable.run()\<close>, and what is done with a panic that escapes it.\<close>

definition run_task ::
    "('g, 'f, 'c, 'p) env \<Rightarrow> nat \<Rightarrow> nat \<Rightarrow> ('g, 'c, 'p) exec \<Rightarrow> ('g, 'c, 'p) exec run" where
  "run_task env t i ex =
     (case ex_sys ex t of
        Some (SysRestart n stage) \<Rightarrow> poll_restart env t i n stage ex
      | Some (SysBlocking _ job finish stage) \<Rightarrow> poll_blocking env t i job finish stage ex
      | None \<Rightarrow>
          (case en_poll env t ex of
             (out, calls, p) \<Rightarrow>
               bind_run (apply_calls env (Some i) calls (ex\<lparr>ex_prog := p\<rparr>)) (\<lambda>ex.
                 case out of
                   Returned \<Rightarrow> Ret ex
                 | KillCurrent r \<Rightarrow> bind_run (kill_current_node env i r ex) (\<lambda>(d, ex).
                     Ret (handle_task_panic (ti_node (info_of i ex)) (Some d) ex))
                 | ShutdownCurrent \<Rightarrow> bind_run (kill_current_node_impl env i ex) (\<lambda>ex.
                     Ret (handle_task_panic (ti_node (info_of i ex)) None ex))
                 | Panicked \<Rightarrow> Panic TaskPanic)))"

definition finish_graceful_shutdown ::
    "('g, 'f, 'c, 'p) env \<Rightarrow> nat \<Rightarrow> ('g, 'c, 'p) exec \<Rightarrow> ('g, 'c, 'p) exec run" where
  "finish_graceful_shutdown env i ex =
     (let ex = ex\<lparr>ex_shutting := filter (\<lambda>j. j \<noteq> i) (ex_shutting ex)\<rparr>;
          n = ti_node (info_of i ex)
      in if get_node n ex \<noteq> Some i then Ret ex
         else
           let restart_after = (case ti_shutdown (info_of i ex) of None \<Rightarrow> None | Some s \<Rightarrow> gs_restart_after s) in
           bind_run (handle_kill env None n ex) (\<lambda>ex. Ret (handle_task_panic n restart_after ex)))"

text \<open>\<open>advance time\<close> by 50 to 99 ns.\<close>

definition advance_a_little ::
    "('g, 'f, 'c, 'p) env \<Rightarrow> ('g, 'c, 'p) exec \<Rightarrow> ('g, 'c, 'p) exec run" where
  "advance_a_little env ex =
     bind_run (exec_draw env (gen_range (en_ops env) 50 100) ex) (\<lambda>(d, ex).
     bind_run (time_advance d (ex_time ex)) (\<lambda>tm. Ret (ex\<lparr>ex_time := tm\<rparr>)))"

text \<open>One pass of the loop: what was done with the runnable received, if any.\<close>

datatype ran = Dropped nat nat | Parked nat nat | Polled nat nat

definition park ::
    "nat \<Rightarrow> nat \<Rightarrow> ('g, 'c, 'p) exec \<Rightarrow> ('g, 'c, 'p) exec run" where
  "park t i ex =
     (let n = ti_node (info_of i ex) in
      bind_run (expect UnwrapNone (ex_nodes ex n)) (\<lambda>nd.
        Ret (ex\<lparr>ex_nodes := (ex_nodes ex)(n \<mapsto> nd\<lparr>ne_paused := ne_paused nd @ [t]\<rparr>)\<rparr>)))"

definition handle_runnable ::
    "('g, 'f, 'c, 'p) env \<Rightarrow> nat \<Rightarrow> nat \<Rightarrow> ('g, 'c, 'p) exec \<Rightarrow> (ran \<times> ('g, 'c, 'p) exec) run" where
  "handle_runnable env t i ex =
     (let ti = info_of i ex in
      if ti_killed ti then Ret (Dropped t i, drop_runnable env (Some i) t ex)
      else if ti_paused ti then bind_run (park t i ex) (\<lambda>ex. Ret (Parked t i, ex))
      else if is_shutting_down ti \<and> ti_polls_left ti = 0 then
        bind_run (finish_graceful_shutdown env i ex) (\<lambda>ex. Ret (Dropped t i, drop_runnable env (Some i) t ex))
      else
        let ex = (if is_shutting_down ti then upd_info i (\<lambda>ti. ti\<lparr>ti_polls_left := ti_polls_left ti - 1\<rparr>) ex else ex)
        in bind_run (run_task env t i ex) (\<lambda>ex.
           bind_run (advance_a_little env ex) (\<lambda>ex. Ret (Polled t i, ex))))"

definition ready_iter ::
    "('g, 'f, 'c, 'p) env \<Rightarrow> ('g, 'c, 'p) exec \<Rightarrow> (ran option \<times> ('g, 'c, 'p) exec) run" where
  "ready_iter env ex =
     bind_run (chan_try_recv_random (en_ops env) (Some (th_clock (ex_time ex))) (ex_rand ex) (ex_queue ex))
       (\<lambda>(r, q, clk, gr).
         let ex = ex\<lparr>ex_queue := q, ex_rand := gr,
           ex_time := (case clk of Some c \<Rightarrow> (ex_time ex)\<lparr>th_clock := c\<rparr> | None \<Rightarrow> ex_time ex)\<rparr> in
         case r of
           Inl _ \<Rightarrow> Ret (None, ex)
         | Inr (t, i) \<Rightarrow> bind_run (handle_runnable env t i ex) (\<lambda>(x, ex). Ret (Some x, ex)))"

partial_function (option) ready_loop ::
    "('g, 'f, 'c, 'p) env \<Rightarrow> ('g, 'c, 'p) exec \<Rightarrow> ('g, 'c, 'p) exec run option" where
  "ready_loop env ex =
     (case ready_iter env ex of
        Panic p \<Rightarrow> Some (Panic p)
      | Ret (None, ex) \<Rightarrow> Some (Ret ex)
      | Ret (Some _, ex) \<Rightarrow> ready_loop env ex)"

text \<open>After the loop, the shutdowns whose deadline has passed are finished.\<close>

fun finish_all ::
    "('g, 'f, 'c, 'p) env \<Rightarrow> nat list \<Rightarrow> ('g, 'c, 'p) exec \<Rightarrow> ('g, 'c, 'p) exec run" where
  "finish_all env [] ex = Ret ex"
| "finish_all env (i # is) ex = bind_run (finish_graceful_shutdown env i ex) (finish_all env is)"

definition expired_shutdowns :: "instant \<Rightarrow> ('g, 'c, 'p) exec \<Rightarrow> nat list" where
  "expired_shutdowns now ex =
     filter (\<lambda>i. case ti_shutdown (info_of i ex) of Some s \<Rightarrow> gs_deadline s \<le> now | None \<Rightarrow> False) (ex_shutting ex)"

definition finish_expired ::
    "('g, 'f, 'c, 'p) env \<Rightarrow> ('g, 'c, 'p) exec \<Rightarrow> ('g, 'c, 'p) exec run" where
  "finish_expired env ex =
     bind_run (now_instant (ex_time ex)) (\<lambda>(now, tm).
       let ex = ex\<lparr>ex_time := tm\<rparr> in finish_all env (expired_shutdowns now ex) ex)"

definition run_all_ready ::
    "('g, 'f, 'c, 'p) env \<Rightarrow> ('g, 'c, 'p) exec \<Rightarrow> ('g, 'c, 'p) exec run option" where
  "run_all_ready env ex =
     (case ready_loop env ex of
        None \<Rightarrow> None
      | Some m \<Rightarrow> Some (bind_run m (finish_expired env)))"

section \<open>Turns of the blocking pool\<close>

definition upd_pool :: "(pool \<Rightarrow> pool) \<Rightarrow> ('g, 'c, 'p) exec \<Rightarrow> ('g, 'c, 'p) exec" where
  "upd_pool f ex = ex\<lparr>ex_pool := f (ex_pool ex)\<rparr>"

definition note_dequeue :: "nat \<Rightarrow> (nat \<times> nat) option \<Rightarrow> pool \<Rightarrow> pool" where
  "note_dequeue me job p =
     p\<lparr>qs_dequeued := qs_dequeued p + 1, qs_current := (qs_current p)[me := job]\<rparr>"

definition note_complete :: "nat \<Rightarrow> pool \<Rightarrow> pool" where
  "note_complete me p =
     p\<lparr>qs_current := (qs_current p)[me := None], qs_abort_requested := (qs_abort_requested p)[me := False]\<rparr>"

text \<open>A result for the wrapper task that awaits it: \<open>None\<close> when the sender was dropped.\<close>

definition job_result :: "nat \<Rightarrow> bool option \<Rightarrow> ('g, 'c, 'p) exec \<Rightarrow> ('g, 'c, 'p) exec" where
  "job_result job r ex =
     (let ex = (case r of None \<Rightarrow> ex | Some b \<Rightarrow> ex\<lparr>ex_results := (ex_results ex)(job \<mapsto> b)\<rparr>)
      in case ex_waiters ex job of None \<Rightarrow> ex | Some t \<Rightarrow> schedule t ex)"

text \<open>
  The job of thread \<open>me\<close> runs until it yields, ends or unwinds. \<open>submit_blocking\<close> catches its
  panics, except that of \<open>kill_current_node\<close>, which is left for the main loop.
\<close>

definition job_unwound ::
    "nat \<Rightarrow> nat \<Rightarrow> nat \<Rightarrow> duration option \<Rightarrow> ('g, 'c, 'p) exec \<Rightarrow> ('g, 'c, 'p) exec" where
  "job_unwound me job i restart_after ex =
     upd_pool (\<lambda>p. p\<lparr>qs_current := (qs_current p)[me := None],
         qs_abort_requested := (qs_abort_requested p)[me := False],
         qs_pending_panics := qs_pending_panics p @ [(ti_node (info_of i ex), restart_after)]\<rparr>)
       (job_result job None ex)"

definition run_job ::
    "('g, 'f, 'c, 'p) env \<Rightarrow> nat \<Rightarrow> nat \<Rightarrow> nat \<Rightarrow> ('g, 'c, 'p) exec \<Rightarrow> ('g, 'c, 'p) exec run" where
  "run_job env me job i ex =
     (case en_job env job ex of
        (out, calls, p) \<Rightarrow>
          bind_run (apply_calls env (Some i) calls (ex\<lparr>ex_prog := p\<rparr>)) (\<lambda>ex.
            case out of
              JobYield \<Rightarrow> Ret ex
            | JobDone \<Rightarrow> Ret (upd_pool (note_complete me) (job_result job (Some True) ex))
            | JobPanicked \<Rightarrow> Ret (upd_pool (note_complete me) (job_result job (Some False) ex))
            | JobKill r \<Rightarrow>
                bind_run (kill_current_node env i r ex) (\<lambda>(d, ex). Ret (job_unwound me job i (Some d) ex))
            | JobShutdown \<Rightarrow>
                bind_run (kill_current_node_impl env i ex) (\<lambda>ex. Ret (job_unwound me job i None ex))))"

text \<open>\<open>run_one\<close>: an idle thread takes a job.\<close>

definition run_one ::
    "('g, 'f, 'c, 'p) env \<Rightarrow> nat \<Rightarrow> ('g, 'c, 'p) exec \<Rightarrow> ('g, 'c, 'p) exec run" where
  "run_one env me ex =
     bind_run (chan_try_recv_random (en_ops env) (Some (th_clock (ex_time ex))) (ex_rand ex) (bp_queue (ex_pool ex)))
       (\<lambda>(r, q, clk, gr).
         let ex = upd_pool (\<lambda>p. p\<lparr>bp_queue := q\<rparr>) (ex\<lparr>ex_rand := gr,
           ex_time := (case clk of Some c \<Rightarrow> (ex_time ex)\<lparr>th_clock := c\<rparr> | None \<Rightarrow> ex_time ex)\<rparr>) in
         case r of
           Inl _ \<Rightarrow> Ret ex
         | Inr (job, i) \<Rightarrow>
             if ti_killed (info_of i ex) then
               Ret (job_result job None
                 (prog_wakes (en_drop_job env (Some i) job) (upd_pool (note_dequeue me None) ex)))
             else if ti_paused (info_of i ex) then
               Ret (upd_pool (\<lambda>p. p\<lparr>bp_queue := snd (chan_send (job, i) (bp_queue p))\<rparr>) ex)
             else run_job env me job i (upd_pool (note_dequeue me (Some (job, i))) ex))"

text \<open>
  A turn of thread \<open>me\<close>, to run or to abort. A parked thread that is told to abort unwinds its
  job; an idle one ignores it.
\<close>

datatype turn = RunTurn | AbortTurn

definition thread_turn ::
    "('g, 'f, 'c, 'p) env \<Rightarrow> turn \<Rightarrow> nat \<Rightarrow> ('g, 'c, 'p) exec \<Rightarrow> ('g, 'c, 'p) exec run" where
  "thread_turn env kind me ex =
     (case (qs_current (ex_pool ex) ! me, kind) of
        (None, AbortTurn) \<Rightarrow> Ret ex
      | (None, RunTurn) \<Rightarrow> run_one env me ex
      | (Some (job, i), RunTurn) \<Rightarrow> run_job env me job i ex
      | (Some (job, i), AbortTurn) \<Rightarrow>
          Ret (job_result job None (prog_wakes (en_drop_job env (Some i) job)
            (upd_pool (\<lambda>p. p\<lparr>qs_current := (qs_current p)[me := None]\<rparr>) ex))))"

section \<open>Wake rounds\<close>

text \<open>The candidates: threads to abort, unpaused jobs, and as many idle threads as jobs are queued.\<close>

fun select_threads :: "('g, 'c, 'p) exec \<Rightarrow> nat \<Rightarrow> nat list \<Rightarrow> nat list" where
  "select_threads ex budget [] = []"
| "select_threads ex budget (i # is) =
     (if qs_abort_requested (ex_pool ex) ! i then i # select_threads ex budget is
      else case qs_current (ex_pool ex) ! i of
             Some (_, info) \<Rightarrow>
               if ti_paused (info_of info ex) then select_threads ex budget is
               else i # select_threads ex budget is
           | None \<Rightarrow>
               if 0 < budget then i # select_threads ex (budget - 1) is
               else select_threads ex budget is)"

definition pick_turn :: "nat \<Rightarrow> ('g, 'c, 'p) exec \<Rightarrow> turn option" where
  "pick_turn i ex =
     (let p = ex_pool ex in
      if qs_abort_requested p ! i then Some AbortTurn
      else case qs_current p ! i of
             Some (_, info) \<Rightarrow> if ti_paused (info_of info ex) then None else Some RunTurn
           | None \<Rightarrow> if ch_queue (bp_queue p) = [] then None else Some RunTurn)"

definition take_turn :: "turn \<Rightarrow> nat \<Rightarrow> ('g, 'c, 'p) exec \<Rightarrow> ('g, 'c, 'p) exec" where
  "take_turn t i ex =
     (if t = AbortTurn
      then upd_pool (\<lambda>p. p\<lparr>qs_abort_requested := (qs_abort_requested p)[i := False]\<rparr>) ex else ex)"

definition grant_turn ::
    "('g, 'f, 'c, 'p) env \<Rightarrow> nat \<Rightarrow> ('g, 'c, 'p) exec \<Rightarrow> ('g, 'c, 'p) exec run" where
  "grant_turn env i ex =
     (case pick_turn i ex of
        None \<Rightarrow> Ret ex
      | Some t \<Rightarrow> bind_run (thread_turn env t i (take_turn t i ex)) (advance_a_little env))"

fun grant_turns ::
    "('g, 'f, 'c, 'p) env \<Rightarrow> nat list \<Rightarrow> ('g, 'c, 'p) exec \<Rightarrow> ('g, 'c, 'p) exec run" where
  "grant_turns env [] ex = Ret ex"
| "grant_turns env (i # is) ex = bind_run (grant_turn env i ex) (grant_turns env is)"

record round_stats =
  rs_dequeued :: nat
  rs_pending :: bool
  rs_panics :: "(node_id \<times> duration option) list"

definition pool_pending :: "pool \<Rightarrow> bool" where
  "pool_pending p \<longleftrightarrow> list_ex (\<lambda>c. c \<noteq> None) (qs_current p) \<or> ch_queue (bp_queue p) \<noteq> []"

definition round_end :: "nat \<Rightarrow> ('g, 'c, 'p) exec \<Rightarrow> round_stats \<times> ('g, 'c, 'p) exec" where
  "round_end dequeued ex =
     (\<lparr>rs_dequeued = dequeued, rs_pending = pool_pending (ex_pool ex), rs_panics = qs_pending_panics (ex_pool ex)\<rparr>,
      upd_pool (\<lambda>p. p\<lparr>qs_pending_panics := []\<rparr>) ex)"

definition wake_round ::
    "('g, 'f, 'c, 'p) env \<Rightarrow> ('g, 'c, 'p) exec \<Rightarrow> (round_stats \<times> ('g, 'c, 'p) exec) run" where
  "wake_round env ex =
     (if \<not> bp_started (ex_pool ex) \<and> ch_queue (bp_queue (ex_pool ex)) = []
      then Ret (\<lparr>rs_dequeued = 0, rs_pending = False, rs_panics = []\<rparr>, ex)
      else
        let ex = upd_pool (\<lambda>p. p\<lparr>bp_started := True\<rparr>) ex; p = ex_pool ex;
            order = select_threads ex (length (ch_queue (bp_queue p))) [0..<length (qs_current p)]
        in if order = [] then Ret (round_end 0 ex)
           else
             bind_run (exec_draw env (\<lambda>g. Ret (en_shuffle env order g)) (upd_pool (\<lambda>p. p\<lparr>qs_dequeued := 0\<rparr>) ex))
               (\<lambda>(order, ex). bind_run (grant_turns env order ex) (\<lambda>ex.
                 Ret (round_end (qs_dequeued (ex_pool ex)) ex))))"

section \<open>The main loop\<close>

text \<open>The callbacks that a jump of the clock fires.\<close>

definition fire_event ::
    "('g, 'f, 'c, 'p) env \<Rightarrow> 'c exec_cb event \<Rightarrow> ('g, 'c, 'p) exec \<Rightarrow> ('g, 'c, 'p) exec" where
  "fire_event env e ex =
     (case ev_callback e of
        None \<Rightarrow> ex
      | Some CbNone \<Rightarrow> ex
      | Some (CbWake t) \<Rightarrow> schedule t ex
      | Some (CbUser c) \<Rightarrow> prog_wakes (en_fire env c) ex)"

definition exec_advance ::
    "('g, 'f, 'c, 'p) env \<Rightarrow> ('g, 'c, 'p) exec \<Rightarrow> (bool \<times> ('g, 'c, 'p) exec) run" where
  "exec_advance env ex =
     bind_run (advance_to_next_event (ex_time ex)) (\<lambda>(going, es, tm).
       Ret (going, fold (fire_event env) es (ex\<lparr>ex_time := tm\<rparr>)))"

definition handle_panics :: "(node_id \<times> duration option) list \<Rightarrow> ('g, 'c, 'p) exec \<Rightarrow> ('g, 'c, 'p) exec" where
  "handle_panics ps ex = fold (\<lambda>(n, r). handle_task_panic n r) ps ex"

definition MAX_STALLED_ROUNDS :: nat where "MAX_STALLED_ROUNDS = 10000"

text \<open>The part of \<open>block_on\<close> after the main task was found pending: the new count of stalls.\<close>

definition stall_check ::
    "('g, 'f, 'c, 'p) env \<Rightarrow> round_stats \<Rightarrow> nat \<Rightarrow> ('g, 'c, 'p) exec \<Rightarrow> (nat \<times> ('g, 'c, 'p) exec) run" where
  "stall_check env stats stalled ex =
     (if 0 < rs_dequeued stats \<or> ch_queue (ex_queue ex) \<noteq> [] then Ret (0, ex)
      else bind_run (exec_advance env ex) (\<lambda>(going, ex).
        if going then Ret (0, ex)
        else if rs_pending stats then
          bind_run (assert_run (stalled + 1 < MAX_STALLED_ROUNDS) Deadlocked) (\<lambda>_. Ret (stalled + 1, ex))
        else Panic NoEvents))"

definition check_time_limit :: "duration option \<Rightarrow> ('g, 'c, 'p) exec \<Rightarrow> ('g, 'c, 'p) exec run" where
  "check_time_limit limit ex =
     (case limit of
        None \<Rightarrow> Ret ex
      | Some l \<Rightarrow> bind_run (time_elapsed (ex_time ex)) (\<lambda>(e, tm).
          bind_run (assert_run (e < l) TimeLimitExceeded) (\<lambda>_. Ret (ex\<lparr>ex_time := tm\<rparr>))))"

definition after_ready ::
    "('g, 'f, 'c, 'p) env \<Rightarrow> duration option \<Rightarrow> nat \<Rightarrow> ('g, 'c, 'p) exec \<Rightarrow> (nat \<times> ('g, 'c, 'p) exec) run" where
  "after_ready env limit stalled ex =
     bind_run (wake_round env ex) (\<lambda>(stats, ex).
     bind_run (stall_check env stats stalled (handle_panics (rs_panics stats) ex)) (\<lambda>(stalled, ex).
     bind_run (check_time_limit limit ex) (\<lambda>ex. Ret (stalled, ex))))"

text \<open>\<open>output\<close> tells whether the main task has ended, and with what.\<close>

partial_function (option) block_on_loop ::
    "('g, 'f, 'c, 'p) env \<Rightarrow> ('p \<Rightarrow> 'v option) \<Rightarrow> duration option \<Rightarrow> nat \<Rightarrow> ('g, 'c, 'p) exec \<Rightarrow>
     ('v \<times> ('g, 'c, 'p) exec) run option" where
  "block_on_loop env output limit stalled ex =
     (case run_all_ready env ex of
        None \<Rightarrow> None
      | Some (Panic p) \<Rightarrow> Some (Panic p)
      | Some (Ret ex) \<Rightarrow>
          (case output (ex_prog ex) of
             Some v \<Rightarrow> Some (Ret (v, ex))
           | None \<Rightarrow>
               (case after_ready env limit stalled ex of
                  Panic p \<Rightarrow> Some (Panic p)
                | Ret (stalled, ex) \<Rightarrow> block_on_loop env output limit stalled ex)))"

definition exec_block_on ::
    "('g, 'f, 'c, 'p) env \<Rightarrow> ('p \<Rightarrow> 'v option) \<Rightarrow> duration option \<Rightarrow> ('g, 'c, 'p) exec \<Rightarrow>
     ('v \<times> ('g, 'c, 'p) exec) run option" where
  "exec_block_on env output limit ex = block_on_loop env output limit 0 (snd (spawn_on_main_task ex))"

end
