(* ===== verification/Quantum.thy ===== *)
theory Quantum
  imports Executor
begin

text \<open>
  The handshake of the blocking pool, \<open>ThreadQuantum\<close> of \<open>msim/src/sim/task/blocking.rs\<close>: the main
  thread and the pool threads are operating system threads, and a mutex, one condition variable
  per pool thread and one for the main thread make them take turns. Here every thread has a program
  counter, and a step is one critical section of one thread, or its work outside of them, in any
  interleaving. A condition variable may also wake its thread for no reason.

  The state of the simulation is the one of \<open>Executor\<close>; what a thread does in its turn is
  \<open>thread_turn\<close>, which \<open>Executor\<close> takes as one step of the main loop. That this is right is the
  theorem \<open>wake_round_serial\<close> of \<open>Quantum_Facts\<close>.
\<close>

section \<open>Turns and program counters\<close>

text \<open>The enumeration \<open>Turn\<close>.\<close>

datatype turn_word = TurnIdle | TurnRun nat | TurnAbort nat | TurnShutdown

fun turn_word_of :: "turn \<Rightarrow> nat \<Rightarrow> turn_word" where
  "turn_word_of RunTurn i = TurnRun i"
| "turn_word_of AbortTurn i = TurnAbort i"

text \<open>
  A pool thread is about to take the lock in \<open>wait_turn\<close>, asleep on its condition variable, awake
  but without the lock, in its turn (what \<open>wait_turn\<close> returned), done with the work of its turn but
  not with \<open>end_turn\<close>, or it has left \<open>run_blocking_thread\<close>. It is in a job, parked in
  \<open>yield_turn\<close>, where the pool's \<open>qs_current\<close> says so, else at the top of its loop.
\<close>

datatype thread_pc = Entering | Asleep | Awake | InTurn turn | InExit | Ending | Exited

text \<open>
  The main thread is in the loop of \<open>wake_round\<close> with the threads still to be granted a turn (none:
  it is outside), in \<open>wait_while\<close> for the end of a turn, asleep or awake, or in \<open>shutdown\<close>, where it
  joins the threads.
\<close>

datatype main_pc = Granting "nat list" | MainAsleep "nat list" | MainAwake "nat list" | Joining | Joined

record ('g, 'c, 'p) quantum =
  qn_turn :: turn_word
  qn_main :: main_pc
  qn_threads :: "thread_pc list"
  qn_exec :: "('g, 'c, 'p) exec"

definition quantum_new :: "('g, 'c, 'p) exec \<Rightarrow> ('g, 'c, 'p) quantum" where
  "quantum_new ex = \<lparr>qn_turn = TurnIdle, qn_main = Granting [], qn_threads = [], qn_exec = ex\<rparr>"

section \<open>Critical sections\<close>

definition set_pc :: "nat \<Rightarrow> thread_pc \<Rightarrow> ('g, 'c, 'p) quantum \<Rightarrow> ('g, 'c, 'p) quantum" where
  "set_pc i pc q = q\<lparr>qn_threads := (qn_threads q)[i := pc]\<rparr>"

definition notified :: "thread_pc \<Rightarrow> thread_pc" where
  "notified pc = (if pc = Asleep then Awake else pc)"

definition notify_thread :: "nat \<Rightarrow> ('g, 'c, 'p) quantum \<Rightarrow> ('g, 'c, 'p) quantum" where
  "notify_thread i q = set_pc i (notified (qn_threads q ! i)) q"

definition notify_main :: "('g, 'c, 'p) quantum \<Rightarrow> ('g, 'c, 'p) quantum" where
  "notify_main q =
     (case qn_main q of MainAsleep is \<Rightarrow> q\<lparr>qn_main := MainAwake is\<rparr> | _ \<Rightarrow> q)"

text \<open>One round of the loop of \<open>wait_turn\<close>: the lock is taken, and given back by \<open>wait\<close> or \<open>return\<close>.\<close>

definition wait_turn :: "nat \<Rightarrow> turn_word \<Rightarrow> thread_pc" where
  "wait_turn me t =
     (case t of
        TurnShutdown \<Rightarrow> InExit
      | TurnRun i \<Rightarrow> if i = me then InTurn RunTurn else Asleep
      | TurnAbort i \<Rightarrow> if i = me then InTurn AbortTurn else Asleep
      | TurnIdle \<Rightarrow> Asleep)"

definition end_turn :: "('g, 'c, 'p) quantum \<Rightarrow> ('g, 'c, 'p) quantum" where
  "end_turn q = (if qn_turn q \<noteq> TurnShutdown then notify_main (q\<lparr>qn_turn := TurnIdle\<rparr>) else q)"

text \<open>The start of the threads, by the first round that finds a job in the queue.\<close>

definition ensure_started :: "('g, 'c, 'p) quantum \<Rightarrow> ('g, 'c, 'p) quantum" where
  "ensure_started q =
     (if bp_started (ex_pool (qn_exec q)) then q
      else q\<lparr>qn_threads := replicate (length (qs_current (ex_pool (qn_exec q)))) Entering,
             qn_exec := upd_pool (\<lambda>p. p\<lparr>bp_started := True\<rparr>) (qn_exec q)\<rparr>)"

text \<open>
  The main thread grants thread \<open>i\<close> a turn and, since the turn is not idle then, falls asleep in
  \<open>wait_while\<close>, which gives the lock back.
\<close>

definition main_grant :: "turn \<Rightarrow> nat \<Rightarrow> nat list \<Rightarrow> ('g, 'c, 'p) quantum \<Rightarrow> ('g, 'c, 'p) quantum" where
  "main_grant k i is q =
     notify_thread i (q\<lparr>qn_turn := turn_word_of k i, qn_exec := take_turn k i (qn_exec q),
       qn_main := MainAsleep is\<rparr>)"

text \<open>\<open>shutdown\<close>: every thread is notified, then the main thread waits for their ends.\<close>

definition pool_shutdown :: "('g, 'c, 'p) quantum \<Rightarrow> ('g, 'c, 'p) quantum" where
  "pool_shutdown q =
     (if qn_threads q = [] then q\<lparr>qn_main := Joined\<rparr>
      else q\<lparr>qn_turn := TurnShutdown, qn_threads := map notified (qn_threads q), qn_main := Joining\<rparr>)"

section \<open>Steps\<close>

text \<open>
  The events: the main thread works outside of wake rounds (it comes back with any state of the
  executor and any order of threads for the next round), it starts the threads, it acts in a
  round, a pool thread acts, a thread wakes for no reason, and the pool is shut down.
\<close>

datatype quantum_event =
  MainWorks | MainStarts | MainActs | ThreadActs nat | WakesUp | MainShutsDown | MainJoins

inductive quantum_step ::
    "('g, 'f, 'c, 'p) env \<Rightarrow> quantum_event \<Rightarrow> ('g, 'c, 'p) quantum \<Rightarrow> ('g, 'c, 'p) quantum \<Rightarrow> bool"
    for env where
  works: "qn_main q = Granting [] \<Longrightarrow> set is \<subseteq> {..<length (qn_threads q)} \<Longrightarrow>
    quantum_step env MainWorks q (q\<lparr>qn_exec := ex, qn_main := Granting is\<rparr>)"
| starts: "qn_main q = Granting [] \<Longrightarrow> qn_threads q = [] \<Longrightarrow>
    quantum_step env MainStarts q (ensure_started q)"
| skips: "qn_main q = Granting (i # is) \<Longrightarrow> pick_turn i (qn_exec q) = None \<Longrightarrow>
    quantum_step env MainActs q (q\<lparr>qn_main := Granting is\<rparr>)"
| grants: "qn_main q = Granting (i # is) \<Longrightarrow> pick_turn i (qn_exec q) = Some k \<Longrightarrow>
    quantum_step env MainActs q (main_grant k i is q)"
| waits: "qn_main q = MainAwake is \<Longrightarrow> qn_turn q \<noteq> TurnIdle \<Longrightarrow>
    quantum_step env MainActs q (q\<lparr>qn_main := MainAsleep is\<rparr>)"
| resumes: "qn_main q = MainAwake is \<Longrightarrow> qn_turn q = TurnIdle \<Longrightarrow>
    advance_a_little env (qn_exec q) = Ret ex \<Longrightarrow>
    quantum_step env MainActs q (q\<lparr>qn_exec := ex, qn_main := Granting is\<rparr>)"
| looks: "i < length (qn_threads q) \<Longrightarrow> qn_threads q ! i \<in> {Entering, Awake} \<Longrightarrow>
    quantum_step env (ThreadActs i) q (set_pc i (wait_turn i (qn_turn q)) q)"
| turns: "i < length (qn_threads q) \<Longrightarrow> qn_threads q ! i = InTurn k \<Longrightarrow>
    thread_turn env k i (qn_exec q) = Ret ex \<Longrightarrow>
    quantum_step env (ThreadActs i) q (set_pc i Ending (q\<lparr>qn_exec := ex\<rparr>))"
| ends: "i < length (qn_threads q) \<Longrightarrow> qn_threads q ! i = Ending \<Longrightarrow>
    quantum_step env (ThreadActs i) q (set_pc i Entering (end_turn q))"
| unwinds: "i < length (qn_threads q) \<Longrightarrow> qn_threads q ! i = InExit \<Longrightarrow>
    qs_current (ex_pool (qn_exec q)) ! i \<noteq> None \<Longrightarrow> thread_turn env AbortTurn i (qn_exec q) = Ret ex \<Longrightarrow>
    quantum_step env (ThreadActs i) q (set_pc i Ending (q\<lparr>qn_exec := ex\<rparr>))"
| leaves: "i < length (qn_threads q) \<Longrightarrow> qn_threads q ! i = InExit \<Longrightarrow>
    qs_current (ex_pool (qn_exec q)) ! i = None \<Longrightarrow>
    quantum_step env (ThreadActs i) q (set_pc i Exited q)"
| thread_wakes: "i < length (qn_threads q) \<Longrightarrow> qn_threads q ! i = Asleep \<Longrightarrow>
    quantum_step env WakesUp q (set_pc i Awake q)"
| main_wakes: "qn_main q = MainAsleep is \<Longrightarrow>
    quantum_step env WakesUp q (q\<lparr>qn_main := MainAwake is\<rparr>)"
| shuts_down: "qn_main q = Granting [] \<Longrightarrow>
    quantum_step env MainShutsDown q (pool_shutdown q)"
| joins: "qn_main q = Joining \<Longrightarrow> set (qn_threads q) \<subseteq> {Exited} \<Longrightarrow>
    quantum_step env MainJoins q (q\<lparr>qn_main := Joined\<rparr>)"

inductive_cases quantum_step_cases: "quantum_step env e q q'"

inductive quantum_run ::
    "('g, 'f, 'c, 'p) env \<Rightarrow> ('g, 'c, 'p) quantum \<Rightarrow> quantum_event list \<Rightarrow> ('g, 'c, 'p) quantum \<Rightarrow> bool"
    for env where
  run_stop: "quantum_run env q [] q"
| run_step: "quantum_run env q es q' \<Longrightarrow> quantum_step env e q' q'' \<Longrightarrow> quantum_run env q (es @ [e]) q''"

end
