(* ===== verification/Executor_Facts.thy ===== *)
theory Executor_Facts
  imports Executor
begin

text \<open>
  What the executor guarantees whatever the simulated program does: a killed incarnation is never
  polled again, a graceful shutdown grants no more polls than its budget, a restart starts one fresh
  incarnation, the main loop gives up only when nothing can happen any more, and the threads of
  the blocking pool are woken as described.
\<close>

section \<open>What no operation undoes\<close>

text \<open>
  From one state to a later one: an incarnation keeps its node, stays killed once killed, stays in
  its graceful shutdown once begun, and its remaining polls only go down.
\<close>

definition info_step :: "task_info \<Rightarrow> task_info \<Rightarrow> bool" where
  "info_step a b \<longleftrightarrow> ti_node b = ti_node a \<and> (ti_killed a \<longrightarrow> ti_killed b) \<and>
     (ti_polls_left a < usize_max \<longrightarrow> ti_polls_left b \<le> ti_polls_left a)"

definition info_le :: "('g, 'c, 'p) exec \<Rightarrow> ('g, 'c, 'p) exec \<Rightarrow> bool" where
  "info_le ex ex' \<longleftrightarrow> ex_next_info ex \<le> ex_next_info ex' \<and>
     (\<forall>i < ex_next_info ex. info_step (info_of i ex) (info_of i ex'))"

lemma info_step_refl [simp, intro]: "info_step a a"
  by (simp add: info_step_def)

lemma info_step_trans: "info_step a b \<Longrightarrow> info_step b c \<Longrightarrow> info_step a c"
  by (auto simp: info_step_def)

lemma info_le_trans [trans]: "info_le a b \<Longrightarrow> info_le b c \<Longrightarrow> info_le a c"
  unfolding info_le_def by (meson info_step_trans le_trans order_less_le_trans)

lemma info_le_same:
  "ex_infos ex' = ex_infos ex \<Longrightarrow> ex_next_info ex' = ex_next_info ex \<Longrightarrow> info_le ex ex'"
  by (simp add: info_le_def info_of_def)

lemma info_le_refl [simp, intro]: "info_le ex ex"
  by (rule info_le_same) simp_all

named_theorems info_le_intros \<open>operations that respect the order of states\<close>

text \<open>Operations that leave the incarnations alone.\<close>

lemma schedule_infos [simp]:
  "ex_infos (schedule t ex) = ex_infos ex" "ex_next_info (schedule t ex) = ex_next_info ex"
  by (simp_all add: schedule_def split: option.split)

lemma schedule_all_infos [simp]:
  "ex_infos (schedule_all ts ex) = ex_infos ex" "ex_next_info (schedule_all ts ex) = ex_next_info ex"
  unfolding schedule_all_def by (induction ts arbitrary: ex) simp_all

lemma prog_wakes_infos [simp]:
  "ex_infos (prog_wakes f ex) = ex_infos ex" "ex_next_info (prog_wakes f ex) = ex_next_info ex"
  by (simp_all add: prog_wakes_def split: prod.split)

lemma drop_runnable_infos [simp]:
  "ex_infos (drop_runnable env ctx t ex) = ex_infos ex"
  "ex_next_info (drop_runnable env ctx t ex) = ex_next_info ex"
  by (simp_all add: drop_runnable_def)

lemma drop_runnables_infos [simp]:
  "ex_infos (fold (drop_runnable env ctx) ts ex) = ex_infos ex"
  "ex_next_info (fold (drop_runnable env ctx) ts ex) = ex_next_info ex"
  by (induction ts arbitrary: ex) simp_all

lemma spawn_local_infos [simp]:
  "ex_infos (snd (spawn_local i ex)) = ex_infos ex"
  "ex_next_info (snd (spawn_local i ex)) = ex_next_info ex"
  by (simp_all add: spawn_local_def Let_def)

lemma call_init_infos [simp]:
  "ex_infos (call_init env init i ex) = ex_infos ex"
  "ex_next_info (call_init env init i ex) = ex_next_info ex"
  by (simp_all add: call_init_def spawn_local_def Let_def split: option.split)

lemma request_abort_infos [simp]:
  "ex_infos (request_abort_node n ex) = ex_infos ex"
  "ex_next_info (request_abort_node n ex) = ex_next_info ex"
  by (simp_all add: request_abort_node_def Let_def)

lemma misc_infos [simp]:
  "ex_infos (set_sys t s ex) = ex_infos ex" "ex_next_info (set_sys t s ex) = ex_next_info ex"
  "ex_infos (upd_pool g ex) = ex_infos ex" "ex_next_info (upd_pool g ex) = ex_next_info ex"
  "ex_infos (set_latency l ex) = ex_infos ex" "ex_next_info (set_latency l ex) = ex_next_info ex"
  by (simp_all add: set_sys_def upd_pool_def set_latency_def)

lemma job_result_infos [simp]:
  "ex_infos (job_result job r ex) = ex_infos ex" "ex_next_info (job_result job r ex) = ex_next_info ex"
  by (simp_all add: job_result_def Let_def split: option.split)

lemma sys_done_infos [simp]:
  "ex_infos (sys_done env t ex) = ex_infos ex" "ex_next_info (sys_done env t ex) = ex_next_info ex"
  by (simp_all add: sys_done_def)

definition same_infos :: "('g, 'c, 'p) exec \<Rightarrow> ('g, 'c, 'p) exec \<Rightarrow> bool" where
  "same_infos ex ex' \<longleftrightarrow> ex_infos ex' = ex_infos ex \<and> ex_next_info ex' = ex_next_info ex"

lemma exec_draw_infos: "exec_draw env f ex = Ret (x, ex') \<Longrightarrow> same_infos ex ex'"
  by (auto simp: exec_draw_def same_infos_def run_simps split: option.splits)

lemma pool_spawn_infos: "pool_spawn job i ex = Ret ex' \<Longrightarrow> same_infos ex ex'"
  by (auto simp: pool_spawn_def same_infos_def chan_send_def split: if_splits)

lemma sample_range_infos: "sample_range env r ex = Ret (x, ex') \<Longrightarrow> same_infos ex ex'"
  by (auto simp: sample_range_def same_infos_def run_simps dest: exec_draw_infos [unfolded same_infos_def])

lemma sample_latency_infos: "sample_latency env ex = Ret (x, ex') \<Longrightarrow> same_infos ex ex'"
  by (auto simp: sample_latency_def same_infos_def run_simps dest!: sample_range_infos [unfolded same_infos_def])

lemma spawn_blocking_infos: "spawn_blocking env i ex = Ret (x, ex') \<Longrightarrow> same_infos ex ex'"
  by (auto simp: spawn_blocking_def same_infos_def spawn_local_def run_simps Let_def
      dest!: sample_latency_infos [unfolded same_infos_def] pool_spawn_infos [unfolded same_infos_def])

lemma sys_sleep_infos:
  "poll_sys_sleep n t sl ex = Ret (b, ex') \<Longrightarrow> same_infos ex ex'"
  "new_sys_sleep d ex = Ret (sl', ex') \<Longrightarrow> same_infos ex ex'"
  by (auto simp: poll_sys_sleep_def new_sys_sleep_def same_infos_def run_simps)

lemma advance_infos: "advance_a_little env ex = Ret ex' \<Longrightarrow> same_infos ex ex'"
  by (auto simp: advance_a_little_def same_infos_def run_simps dest!: exec_draw_infos [unfolded same_infos_def])

lemma park_infos: "park t i ex = Ret ex' \<Longrightarrow> same_infos ex ex'"
  by (auto simp: park_def same_infos_def Let_def)

lemma poll_blocking_infos:
  "poll_blocking_await env t i job fin ex = Ret ex' \<Longrightarrow> same_infos ex ex'"
  "poll_blocking_start env t i job fin sl ex = Ret ex' \<Longrightarrow> same_infos ex ex'"
  "poll_blocking env t i job fin stage ex = Ret ex' \<Longrightarrow> same_infos ex ex'"
proof -
  show a: "poll_blocking_await env t i job fin ex = Ret ex' \<Longrightarrow> same_infos ex ex'" for ex
    by (auto simp: poll_blocking_await_def same_infos_def run_simps
        dest!: sys_sleep_infos [unfolded same_infos_def] split: option.splits bool.splits)
  show s: "poll_blocking_start env t i job fin sl ex = Ret ex' \<Longrightarrow> same_infos ex ex'" for ex sl
    by (auto simp: poll_blocking_start_def same_infos_def run_simps
        dest!: sys_sleep_infos [unfolded same_infos_def] pool_spawn_infos [unfolded same_infos_def]
          a [unfolded same_infos_def])
  show "poll_blocking env t i job fin stage ex = Ret ex' \<Longrightarrow> same_infos ex ex'"
    by (auto simp: poll_blocking_def same_infos_def run_simps
        dest!: sys_sleep_infos [unfolded same_infos_def] s [unfolded same_infos_def]
          a [unfolded same_infos_def] split: blocking_stage.splits)
qed

lemma same_info_le: "same_infos ex ex' \<Longrightarrow> info_le ex ex'"
  by (simp add: same_infos_def info_le_same)

text \<open>What \<open>kill\<close> does to the incarnations and to the table of nodes.\<close>

lemma schedule_nodes [simp]: "ex_nodes (schedule t ex) = ex_nodes ex"
  by (simp add: schedule_def split: option.split)

lemma schedule_all_nodes [simp]: "ex_nodes (schedule_all ts ex) = ex_nodes ex"
  unfolding schedule_all_def by (induction ts arbitrary: ex) simp_all

lemma prog_wakes_nodes [simp]: "ex_nodes (prog_wakes f ex) = ex_nodes ex"
  by (simp add: prog_wakes_def split: prod.split)

lemma drop_runnable_nodes [simp]: "ex_nodes (drop_runnable env ctx t ex) = ex_nodes ex"
  by (simp add: drop_runnable_def)

lemma drop_runnables_nodes [simp]: "ex_nodes (fold (drop_runnable env ctx) ts ex) = ex_nodes ex"
  by (induction ts arbitrary: ex) simp_all

lemma spawn_local_nodes [simp]: "ex_nodes (snd (spawn_local i ex)) = ex_nodes ex"
  by (simp add: spawn_local_def Let_def)

lemma call_init_nodes [simp]: "ex_nodes (call_init env init i ex) = ex_nodes ex"
  by (simp add: call_init_def spawn_local_def Let_def split: option.split)

lemma request_abort_nodes [simp]: "ex_nodes (request_abort_node n ex) = ex_nodes ex"
  by (simp add: request_abort_node_def Let_def)

lemma task_kill_spec:
  assumes "task_kill env ctx n ex = Ret ex'"
  obtains nd where "ex_nodes ex n = Some nd" "ex_next_info ex' = ex_next_info ex + 1"
    "ex_infos ex' = (let f = (ex_infos ex)(ex_next_info ex := task_info_new n (ti_name (info_of (ne_info nd) ex)))
                     in f(ne_info nd := (f (ne_info nd))\<lparr>ti_killed := True\<rparr>))"
    "ex_nodes ex' = (ex_nodes ex)(n \<mapsto> nd\<lparr>ne_paused := [], ne_info := ex_next_info ex\<rparr>)"
proof -
  from assms obtain nd where nd: "ex_nodes ex n = Some nd"
    by (auto simp: task_kill_def Let_def)
  then show thesis using assms
    by (intro that [of nd])
      (auto simp: task_kill_def Let_def new_info_def mark_killed_def upd_info_def info_of_def)
qed

lemma task_kill_le: "task_kill env ctx n ex = Ret ex' \<Longrightarrow> info_le ex ex'"
  by (erule task_kill_spec)
    (auto simp: info_le_def info_of_def info_step_def Let_def is_shutting_down_def)

lemma upd_info_le:
  "info_step (info_of i ex) (f (info_of i ex)) \<Longrightarrow> info_le ex (upd_info i f ex)"
  by (simp add: info_le_def upd_info_def info_of_def)

lemma new_info_le: "info_le ex (snd (new_info n name ex))"
  by (auto simp: info_le_def new_info_def info_of_def)

lemma begin_graceful_shutdown_le:
  assumes "begin_graceful_shutdown n r b d ex = Ret ex'"
  shows "info_le ex ex'"
proof -
  from assms obtain nd where "ex_nodes ex n = Some nd" by (auto simp: begin_graceful_shutdown_def)
  with assms show ?thesis
    by (auto simp: begin_graceful_shutdown_def Let_def run_simps info_le_def upd_info_def info_of_def
        info_step_def is_shutting_down_def)
qed

lemma task_pause_le: "task_pause n ex = Ret ex' \<Longrightarrow> info_le ex ex'"
  by (auto simp: task_pause_def is_shutting_down_def info_step_def intro!: upd_info_le)

lemma task_resume_le: "task_resume n ex = Ret ex' \<Longrightarrow> info_le ex ex'"
  by (auto simp: task_resume_def Let_def info_le_def upd_info_def info_of_def info_step_def is_shutting_down_def
      split: if_splits)

lemma task_create_le: "info_le ex (snd (task_create_node env name init ex))"
  by (simp add: task_create_node_def Let_def new_info_def info_le_def info_of_def)

lemma task_restart_le:
  assumes "task_restart env ctx n ex = Ret ex'"
  shows "info_le ex ex'"
proof -
  from assms obtain ex1 where k: "task_kill env ctx n ex = Ret ex1" and "same_infos ex1 ex'"
    by (auto simp: task_restart_def same_infos_def run_simps)
  then show ?thesis using task_kill_le same_info_le info_le_trans by blast
qed

lemma task_delete_le:
  assumes "task_delete_node env ctx n ex = Ret ex'"
  shows "info_le ex ex'"
proof -
  from assms obtain ex1 where k: "task_kill env ctx n ex = Ret ex1" and "same_infos ex1 ex'"
    by (auto simp: task_delete_node_def same_infos_def run_simps)
  then show ?thesis using task_kill_le same_info_le info_le_trans by blast
qed

lemma info_le_sims: "on_sims f ex1 = Ret ex' \<Longrightarrow> info_le ex ex1 \<Longrightarrow> info_le ex ex'"
  by (auto simp: on_sims_def info_le_def info_of_def)

lemma handle_le:
  "handle_kill env ctx n ex = Ret ex' \<Longrightarrow> info_le ex ex'"
  "handle_restart env ctx n ex = Ret ex' \<Longrightarrow> info_le ex ex'"
  "handle_delete_node env ctx n ex = Ret ex' \<Longrightarrow> info_le ex ex'"
  by (auto simp: handle_kill_def handle_restart_def handle_delete_node_def
      dest!: task_kill_le task_restart_le task_delete_le intro: info_le_sims)

lemma apply_call_le: "apply_call env ctx c ex = Ret ex' \<Longrightarrow> info_le ex ex'"
proof (cases c)
  case (CCreate b)
  moreover assume "apply_call env ctx c ex = Ret ex'"
  ultimately show ?thesis
    using task_create_le [of ex env "nb_name b" "nb_init b"]
    by (auto simp: node_builder_build_def or_nothing_def split_def intro: info_le_sims)
qed (auto simp: or_nothing_def run_simps spawn_local_def Let_def
    intro: info_le_same handle_le task_pause_le task_resume_le begin_graceful_shutdown_le
      same_info_le [OF spawn_blocking_infos])

lemma apply_calls_le: "apply_calls env ctx cs ex = Ret ex' \<Longrightarrow> info_le ex ex'"
  by (induction cs arbitrary: ex) (auto dest!: apply_call_le intro: info_le_trans)

lemma handle_task_panic_le: "info_le ex (handle_task_panic n r ex)"
proof (cases r)
  case (Some d)
  have "info_le ex (snd (spawn_on_main_task ex))"
    using new_info_le [of ex 0 "''main''"]
    by (auto simp: spawn_on_main_task_def split_def info_le_def info_of_def)
  then show ?thesis using Some by (simp add: handle_task_panic_def split_def info_le_def info_of_def)
qed (simp add: handle_task_panic_def)

lemma kill_current_le:
  "kill_current_node_impl env i ex = Ret ex' \<Longrightarrow> info_le ex ex'"
  "kill_current_node env i r ex = Ret (d, ex') \<Longrightarrow> info_le ex ex'"
proof -
  show k: "kill_current_node_impl env i ex = Ret ex' \<Longrightarrow> info_le ex ex'" for ex
    by (simp add: kill_current_node_impl_def handle_le)
  show "kill_current_node env i r ex = Ret (d, ex') \<Longrightarrow> info_le ex ex'"
    by (auto simp: kill_current_node_def run_simps
        dest!: k exec_draw_infos [THEN same_info_le] intro: info_le_trans)
qed

lemma poll_restart_le: "poll_restart env t i n stage ex = Ret ex' \<Longrightarrow> info_le ex ex'"
proof -
  assume "poll_restart env t i n stage ex = Ret ex'"
  then obtain ex1 ex2 where s: "same_infos ex ex1" "same_infos ex1 ex2" and
    r: "same_infos ex2 ex' \<or> (\<exists>ex3. same_infos ex2 ex3 \<and> handle_restart env (Some i) n ex3 = Ret ex')"
    by (fastforce simp: poll_restart_def Let_def run_simps same_infos_def
        dest!: sys_sleep_infos [unfolded same_infos_def] split: restart_stage.splits)
  have "info_le ex ex2" using s by (auto intro: info_le_trans same_info_le)
  with r show ?thesis by (metis info_le_trans same_info_le handle_le(2))
qed

lemma run_task_le:
  assumes "run_task env t i ex = Ret ex'"
  shows "info_le ex ex'"
proof (cases "ex_sys ex t")
  case None
  obtain out calls p where e: "en_poll env t ex = (out, calls, p)" by (metis prod_cases3)
  from assms None e obtain ex1 where c: "apply_calls env (Some i) calls (ex\<lparr>ex_prog := p\<rparr>) = Ret ex1"
    and m: "(case out of Returned \<Rightarrow> Ret ex1
       | KillCurrent r \<Rightarrow> bind_run (kill_current_node env i r ex1) (\<lambda>(d, ex).
           Ret (handle_task_panic (ti_node (info_of i ex)) (Some d) ex))
       | ShutdownCurrent \<Rightarrow> bind_run (kill_current_node_impl env i ex1) (\<lambda>ex.
           Ret (handle_task_panic (ti_node (info_of i ex)) None ex))
       | Panicked \<Rightarrow> Panic TaskPanic) = Ret ex'"
    by (auto simp: run_task_def)
  have r: "ex' = ex1 \<or> (\<exists>r d n ex2. kill_current_node env i r ex1 = Ret (d, ex2) \<and>
        ex' = handle_task_panic n (Some d) ex2) \<or>
      (\<exists>n ex2. kill_current_node_impl env i ex1 = Ret ex2 \<and> ex' = handle_task_panic n None ex2)"
    using m by (cases out) auto
  have "info_le ex ex1" using apply_calls_le [OF c] by (simp add: info_le_def info_of_def)
  with r show ?thesis
    using kill_current_le handle_task_panic_le by (metis info_le_trans)
next
  case (Some s)
  with assms show ?thesis
    by (auto simp: run_task_def split: sys_task.splits
        intro: poll_restart_le same_info_le [OF poll_blocking_infos(3)])
qed

lemma finish_graceful_shutdown_le:
  assumes "finish_graceful_shutdown env i ex = Ret ex'"
  shows "info_le ex ex'"
proof -
  let ?ex = "ex\<lparr>ex_shutting := filter (\<lambda>j. j \<noteq> i) (ex_shutting ex)\<rparr>"
  have s: "info_le ex ?ex" by (rule info_le_same) simp_all
  from assms have "ex' = ?ex \<or> (\<exists>n r ex1. handle_kill env None n ?ex = Ret ex1 \<and> ex' = handle_task_panic n r ex1)"
    by (auto simp: finish_graceful_shutdown_def Let_def split: if_splits)
  with s show ?thesis using handle_le(1) handle_task_panic_le by (metis info_le_trans)
qed

lemma handle_runnable_le:
  assumes "handle_runnable env t i ex = Ret (e, ex')"
  shows "info_le ex ex'"
proof -
  let ?ti = "info_of i ex"
  let ?ex = "if is_shutting_down ?ti then upd_info i (\<lambda>ti. ti\<lparr>ti_polls_left := ti_polls_left ti - 1\<rparr>) ex else ex"
  consider "ti_killed ?ti" | "\<not> ti_killed ?ti" "ti_paused ?ti"
    | "\<not> ti_killed ?ti" "\<not> ti_paused ?ti" "is_shutting_down ?ti" "ti_polls_left ?ti = 0"
    | "\<not> ti_killed ?ti" "\<not> ti_paused ?ti" "is_shutting_down ?ti \<longrightarrow> ti_polls_left ?ti \<noteq> 0" by blast
  then show ?thesis
  proof cases
    case 1
    with assms show ?thesis by (auto simp: handle_runnable_def Let_def intro: info_le_same)
  next
    case 2
    with assms show ?thesis by (auto simp: handle_runnable_def Let_def dest: park_infos intro: same_info_le)
  next
    case 3
    with assms obtain ex1 where "finish_graceful_shutdown env i ex = Ret ex1" "ex' = drop_runnable env (Some i) t ex1"
      by (auto simp: handle_runnable_def Let_def)
    then show ?thesis
      using finish_graceful_shutdown_le by (metis info_le_trans info_le_same drop_runnable_infos)
  next
    case 4
    with assms obtain ex1 where r: "run_task env t i ?ex = Ret ex1" "advance_a_little env ex1 = Ret ex'"
      by (auto simp: handle_runnable_def Let_def split: if_splits)
    have "info_le ex ?ex"
      using 4 by (auto intro!: upd_info_le simp: info_step_def)
    with run_task_le [OF r(1)] same_info_le [OF advance_infos [OF r(2)]] show ?thesis
      by (meson info_le_trans)
  qed
qed

lemma try_recv_mem:
  assumes "chan_try_recv_random ops clk gr c = Ret (Inr x, rest)"
  shows "x \<in> set (ch_queue c)"
proof -
  from assms obtain i where "i < length (ch_queue c)" "ch_queue c ! i = x"
    by (auto simp: chan_try_recv_random_def run_simps split: if_splits)
  then show ?thesis by (metis nth_mem)
qed

lemma ready_iter_cases:
  assumes "ready_iter env ex = Ret (r, ex')"
  obtains (Idle) "r = None" "same_infos ex ex'" "ex_nodes ex' = ex_nodes ex"
  | (Ran) t i e ex1 where "r = Some e" "same_infos ex ex1" "ex_nodes ex1 = ex_nodes ex"
      "(t, i) \<in> set (ch_queue (ex_queue ex))" "handle_runnable env t i ex1 = Ret (e, ex')"
proof -
  from assms obtain x q clk gr where
    rc: "chan_try_recv_random (en_ops env) (Some (th_clock (ex_time ex))) (ex_rand ex) (ex_queue ex) = Ret (x, q, clk, gr)"
    by (auto simp: ready_iter_def)
  let ?ex = "ex\<lparr>ex_queue := q, ex_rand := gr,
           ex_time := (case clk of Some c \<Rightarrow> (ex_time ex)\<lparr>th_clock := c\<rparr> | None \<Rightarrow> ex_time ex)\<rparr>"
  show thesis
  proof (cases x)
    case (Inl a)
    with assms rc show thesis by (intro Idle) (auto simp: ready_iter_def same_infos_def)
  next
    case (Inr ti)
    obtain t i where ti: "ti = (t, i)" by fastforce
    have "(t, i) \<in> set (ch_queue (ex_queue ex))" by (rule try_recv_mem [OF rc [unfolded Inr ti]])
    moreover obtain e where "handle_runnable env t i ?ex = Ret (e, ex')" "r = Some e"
      using assms rc Inr ti by (auto simp: ready_iter_def)
    ultimately show thesis by (intro Ran [of e ?ex t i]) (auto simp: same_infos_def)
  qed
qed

lemma ready_iter_le: "ready_iter env ex = Ret (r, ex') \<Longrightarrow> info_le ex ex'"
  by (erule ready_iter_cases) (auto intro: same_info_le info_le_trans handle_runnable_le)

lemma finish_all_le: "finish_all env is ex = Ret ex' \<Longrightarrow> info_le ex ex'"
  by (induction "is" arbitrary: ex) (auto dest!: finish_graceful_shutdown_le intro: info_le_trans)

lemma finish_expired_le:
  assumes "finish_expired env ex = Ret ex'"
  shows "info_le ex ex'"
proof -
  from assms obtain now tm where "finish_all env (expired_shutdowns now (ex\<lparr>ex_time := tm\<rparr>)) (ex\<lparr>ex_time := tm\<rparr>) = Ret ex'"
    by (auto simp: finish_expired_def Let_def)
  from finish_all_le [OF this] show ?thesis by (simp add: info_le_def info_of_def)
qed

text \<open>The blocking pool.\<close>

lemma run_job_le:
  assumes "run_job env me job i ex = Ret ex'"
  shows "info_le ex ex'"
proof -
  obtain out calls p where e: "en_job env job ex = (out, calls, p)" by (metis prod_cases3)
  from assms e obtain ex1 where c: "apply_calls env (Some i) calls (ex\<lparr>ex_prog := p\<rparr>) = Ret ex1"
    and m: "same_infos ex1 ex' \<or> (\<exists>r d ex2. kill_current_node env i r ex1 = Ret (d, ex2) \<and> same_infos ex2 ex') \<or>
      (\<exists>ex2. kill_current_node_impl env i ex1 = Ret ex2 \<and> same_infos ex2 ex')"
    by (cases out) (fastforce simp: run_job_def job_unwound_def same_infos_def)+
  have "info_le ex ex1" using apply_calls_le [OF c] by (simp add: info_le_def info_of_def)
  with m show ?thesis using kill_current_le same_info_le by (metis info_le_trans)
qed

lemma run_one_cases:
  assumes "run_one env me ex = Ret ex'"
  obtains (Nothing) "same_infos ex ex'"
  | (Job) job i ex1 where "same_infos ex ex1" "(job, i) \<in> set (ch_queue (bp_queue (ex_pool ex)))"
      "\<not> ti_killed (info_of i ex)" "\<not> ti_paused (info_of i ex)" "run_job env me job i ex1 = Ret ex'"
proof -
  from assms obtain x q clk gr where
    rc: "chan_try_recv_random (en_ops env) (Some (th_clock (ex_time ex))) (ex_rand ex) (bp_queue (ex_pool ex)) = Ret (x, q, clk, gr)"
    by (auto simp: run_one_def)
  show thesis
  proof (cases x)
    case (Inl a)
    with assms rc show thesis by (intro Nothing) (auto simp: run_one_def same_infos_def)
  next
    case (Inr ti)
    obtain job i where ti: "ti = (job, i)" by fastforce
    have mem: "(job, i) \<in> set (ch_queue (bp_queue (ex_pool ex)))"
      by (rule try_recv_mem [OF rc [unfolded Inr ti]])
    show thesis
    proof (cases "ti_killed (info_of i ex) \<or> ti_paused (info_of i ex)")
      case True
      with assms rc Inr ti show thesis
        by (intro Nothing) (auto simp: run_one_def same_infos_def info_of_def Let_def split: if_splits)
    next
      case False
      with assms rc Inr ti mem show thesis
        by (intro Job [of "upd_pool (note_dequeue me (Some (job, i))) (upd_pool (\<lambda>p. p\<lparr>bp_queue := q\<rparr>)
              (ex\<lparr>ex_rand := gr, ex_time := (case clk of Some c \<Rightarrow> (ex_time ex)\<lparr>th_clock := c\<rparr> | None \<Rightarrow> ex_time ex)\<rparr>))" job i])
          (auto simp: run_one_def same_infos_def info_of_def Let_def)
    qed
  qed
qed

lemma run_one_le: "run_one env me ex = Ret ex' \<Longrightarrow> info_le ex ex'"
  by (erule run_one_cases) (auto intro: same_info_le info_le_trans run_job_le)

lemma thread_turn_le:
  assumes "thread_turn env k me ex = Ret ex'"
  shows "info_le ex ex'"
proof (cases "qs_current (ex_pool ex) ! me")
  case None
  with assms show ?thesis by (cases k) (auto simp: thread_turn_def intro: run_one_le)
next
  case (Some a)
  obtain job i where a: "a = (job, i)" by fastforce
  show ?thesis
  proof (cases k)
    case RunTurn
    with assms Some a have "run_job env me job i ex = Ret ex'" by (simp add: thread_turn_def)
    then show ?thesis by (rule run_job_le)
  next
    case AbortTurn
    with assms Some a show ?thesis by (auto simp: thread_turn_def intro: info_le_same)
  qed
qed

lemma grant_turn_le:
  assumes "grant_turn env i ex = Ret ex'"
  shows "info_le ex ex'"
proof (cases "pick_turn i ex")
  case None
  with assms show ?thesis by (simp add: grant_turn_def)
next
  case (Some t)
  with assms obtain ex2 where t: "thread_turn env t i (take_turn t i ex) = Ret ex2"
    and a: "advance_a_little env ex2 = Ret ex'" by (auto simp: grant_turn_def)
  have "info_le ex (take_turn t i ex)" by (rule info_le_same) (simp_all add: take_turn_def)
  with thread_turn_le [OF t] same_info_le [OF advance_infos [OF a]] show ?thesis by (meson info_le_trans)
qed

lemma grant_turns_le: "grant_turns env is ex = Ret ex' \<Longrightarrow> info_le ex ex'"
  by (induction "is" arbitrary: ex) (auto dest!: grant_turn_le intro: info_le_trans)

text \<open>The state in which a round chooses its threads, and its choice.\<close>

definition round_start :: "('g, 'c, 'p) exec \<Rightarrow> ('g, 'c, 'p) exec" where
  "round_start ex = upd_pool (\<lambda>p. p\<lparr>bp_started := True\<rparr>) ex"

definition round_order :: "('g, 'c, 'p) exec \<Rightarrow> nat list" where
  "round_order ex = select_threads (round_start ex) (length (ch_queue (bp_queue (ex_pool ex))))
     [0..<length (qs_current (ex_pool ex))]"

lemma wake_round_cases:
  assumes "wake_round env ex = Ret (st, ex')"
  obtains (Quiet) "\<not> bp_started (ex_pool ex)" "ch_queue (bp_queue (ex_pool ex)) = []" "ex' = ex"
      "st = \<lparr>rs_dequeued = 0, rs_pending = False, rs_panics = []\<rparr>"
  | (Idle) "round_order ex = []" "(st, ex') = round_end 0 (round_start ex)"
  | (Turns) order ex1 ex2 where "round_order ex \<noteq> []"
      "exec_draw env (\<lambda>g. Ret (en_shuffle env (round_order ex) g))
         (upd_pool (\<lambda>p. p\<lparr>qs_dequeued := 0\<rparr>) (round_start ex)) = Ret (order, ex1)"
      "grant_turns env order ex1 = Ret ex2" "(st, ex') = round_end (qs_dequeued (ex_pool ex2)) ex2"
proof (cases "\<not> bp_started (ex_pool ex) \<and> ch_queue (bp_queue (ex_pool ex)) = []")
  case True
  with assms show thesis by (intro Quiet) (simp_all add: wake_round_def)
next
  case False
  have o: "select_threads (round_start ex) (length (ch_queue (bp_queue (ex_pool (round_start ex)))))
      [0..<length (qs_current (ex_pool (round_start ex)))] = round_order ex"
    by (simp add: round_order_def round_start_def upd_pool_def)
  have w: "wake_round env ex = (if round_order ex = [] then Ret (round_end 0 (round_start ex))
      else bind_run (exec_draw env (\<lambda>g. Ret (en_shuffle env (round_order ex) g))
              (upd_pool (\<lambda>p. p\<lparr>qs_dequeued := 0\<rparr>) (round_start ex)))
             (\<lambda>(order, ex). bind_run (grant_turns env order ex) (\<lambda>ex.
                 Ret (round_end (qs_dequeued (ex_pool ex)) ex))))"
    unfolding wake_round_def if_not_P [OF False] Let_def round_start_def [symmetric] o by (rule refl)
  show thesis
  proof (cases "round_order ex = []")
    case True
    with assms w show thesis by (intro Idle) simp_all
  next
    case False
    with assms w obtain order ex1 ex2 where
      "exec_draw env (\<lambda>g. Ret (en_shuffle env (round_order ex) g))
         (upd_pool (\<lambda>p. p\<lparr>qs_dequeued := 0\<rparr>) (round_start ex)) = Ret (order, ex1)"
      "grant_turns env order ex1 = Ret ex2" "(st, ex') = round_end (qs_dequeued (ex_pool ex2)) ex2"
      by auto
    with False show thesis by (rule Turns)
  qed
qed

lemma wake_round_le: "wake_round env ex = Ret (st, ex') \<Longrightarrow> info_le ex ex'"
proof (erule wake_round_cases)
  fix order ex1 ex2
  assume d: "exec_draw env (\<lambda>g. Ret (en_shuffle env (round_order ex) g))
         (upd_pool (\<lambda>p. p\<lparr>qs_dequeued := 0\<rparr>) (round_start ex)) = Ret (order, ex1)"
    and g: "grant_turns env order ex1 = Ret ex2" and e: "(st, ex') = round_end (qs_dequeued (ex_pool ex2)) ex2"
  have "same_infos ex ex1" using exec_draw_infos [OF d] by (simp add: same_infos_def round_start_def)
  moreover have "same_infos ex2 ex'" using e by (simp add: round_end_def same_infos_def)
  ultimately show "info_le ex ex'" using grant_turns_le [OF g] by (meson same_info_le info_le_trans)
qed (auto simp: round_end_def round_start_def intro: info_le_same)

lemma fire_event_infos [simp]:
  "ex_infos (fire_event env e ex) = ex_infos ex" "ex_next_info (fire_event env e ex) = ex_next_info ex"
  by (simp_all add: fire_event_def split: option.split exec_cb.split)

lemma fire_events_infos [simp]:
  "ex_infos (fold (fire_event env) es ex) = ex_infos ex"
  "ex_next_info (fold (fire_event env) es ex) = ex_next_info ex"
  by (induction es arbitrary: ex) simp_all

lemma exec_advance_infos: "exec_advance env ex = Ret (b, ex') \<Longrightarrow> same_infos ex ex'"
  by (auto simp: exec_advance_def same_infos_def)

lemma handle_panics_le: "info_le ex (handle_panics ps ex)"
  unfolding handle_panics_def
proof (induction ps arbitrary: ex)
  case (Cons a ps)
  show ?case using info_le_trans [OF handle_task_panic_le Cons] by (simp add: split_def)
qed simp

lemma after_ready_le:
  assumes "after_ready env limit k ex = Ret (k', ex')"
  shows "info_le ex ex'"
proof -
  from assms obtain st ex1 ex2 where w: "wake_round env ex = Ret (st, ex1)"
    and s: "stall_check env st k (handle_panics (rs_panics st) ex1) = Ret (k', ex2)"
    and c: "check_time_limit limit ex2 = Ret ex'"
    by (auto simp: after_ready_def)
  have "same_infos (handle_panics (rs_panics st) ex1) ex2"
    using s by (auto simp: stall_check_def run_simps same_infos_def dest!: exec_advance_infos [unfolded same_infos_def])
  moreover have "same_infos ex2 ex'"
    using c by (auto simp: check_time_limit_def same_infos_def run_simps)
  ultimately show ?thesis
    using wake_round_le [OF w] handle_panics_le same_info_le by (metis info_le_trans)
qed

section \<open>Runs\<close>

text \<open>A run of the executor with the runnables it received, in order.\<close>

inductive exec_run ::
    "('g, 'f, 'c, 'p) env \<Rightarrow> duration option \<Rightarrow> ('g, 'c, 'p) exec \<Rightarrow> ran list \<Rightarrow> ('g, 'c, 'p) exec \<Rightarrow> bool"
  for env limit ex where
  er_nil: "exec_run env limit ex [] ex"
| er_ran: "exec_run env limit ex evs ex1 \<Longrightarrow> ready_iter env ex1 = Ret (Some e, ex2) \<Longrightarrow>
    exec_run env limit ex (evs @ [e]) ex2"
| er_idle: "exec_run env limit ex evs ex1 \<Longrightarrow> ready_iter env ex1 = Ret (None, ex2) \<Longrightarrow>
    finish_expired env ex2 = Ret ex3 \<Longrightarrow> exec_run env limit ex evs ex3"
| er_round: "exec_run env limit ex evs ex1 \<Longrightarrow> after_ready env limit k ex1 = Ret (k', ex2) \<Longrightarrow>
    exec_run env limit ex evs ex2"

lemma exec_run_le: "exec_run env limit ex evs ex' \<Longrightarrow> info_le ex ex'"
  by (induction rule: exec_run.induct)
    (auto intro: info_le_trans dest!: ready_iter_le finish_expired_le after_ready_le)

lemma polled_alive:
  assumes "ready_iter env ex = Ret (Some (Polled t i), ex')"
  shows "\<not> ti_killed (info_of i ex)" "\<not> ti_paused (info_of i ex)"
    "i < ex_next_info ex \<Longrightarrow> ti_polls_left (info_of i ex) < usize_max \<Longrightarrow>
      ti_polls_left (info_of i ex') < ti_polls_left (info_of i ex)"
proof -
  from assms obtain ex1 where s: "same_infos ex ex1" and h: "handle_runnable env t i ex1 = Ret (Polled t i, ex')"
    by (elim ready_iter_cases) (auto simp: handle_runnable_def Let_def split: if_splits)
  from s have eq: "info_of i ex = info_of i ex1" "ex_next_info ex1 = ex_next_info ex"
    by (simp_all add: same_infos_def info_of_def)
  show "\<not> ti_killed (info_of i ex)" "\<not> ti_paused (info_of i ex)"
    using h unfolding eq by (auto simp: handle_runnable_def Let_def split: if_splits)
  assume i: "i < ex_next_info ex" and u: "ti_polls_left (info_of i ex) < usize_max"
  let ?ex = "upd_info i (\<lambda>ti. ti\<lparr>ti_polls_left := ti_polls_left ti - 1\<rparr>) ex1"
  have sd: "is_shutting_down (info_of i ex1)" using u by (simp add: is_shutting_down_def eq)
  with h obtain ex2 where pos: "ti_polls_left (info_of i ex1) \<noteq> 0" and r: "run_task env t i ?ex = Ret ex2"
    "advance_a_little env ex2 = Ret ex'"
    by (auto simp: handle_runnable_def Let_def split: if_splits)
  have "info_le ?ex ex'" using run_task_le [OF r(1)] same_info_le [OF advance_infos [OF r(2)]] by (rule info_le_trans)
  then have "info_step (info_of i ?ex) (info_of i ex')"
    using i by (simp add: info_le_def eq upd_info_def)
  then have "ti_polls_left (info_of i ex') \<le> ti_polls_left (info_of i ex1) - 1"
    using u by (auto simp: info_step_def upd_info_def info_of_def eq [unfolded info_of_def])
  with pos show "ti_polls_left (info_of i ex') < ti_polls_left (info_of i ex)" by (simp add: eq)
qed

text \<open>The polls granted to an incarnation in its graceful shutdown come out of its budget.\<close>

definition polls_of :: "nat \<Rightarrow> ran list \<Rightarrow> nat" where
  "polls_of i evs = length (filter (\<lambda>e. case e of Polled _ j \<Rightarrow> j = i | _ \<Rightarrow> False) evs)"

lemma exec_run_budget:
  assumes "exec_run env limit ex evs ex'" "i < ex_next_info ex" "ti_polls_left (info_of i ex) < usize_max"
  shows "polls_of i evs + ti_polls_left (info_of i ex') \<le> ti_polls_left (info_of i ex)"
  using assms(1)
proof (induction rule: exec_run.induct)
  case er_nil
  then show ?case by (simp add: polls_of_def)
next
  case (er_ran evs ex1 e ex2)
  have le: "info_step (info_of i ex) (info_of i ex1)" "i < ex_next_info ex1"
    using exec_run_le [OF er_ran.hyps(1)] assms(2) by (auto simp: info_le_def)
  then have u: "ti_polls_left (info_of i ex1) < usize_max" using assms(3) by (auto simp: info_step_def)
  have "ti_polls_left (info_of i ex2) \<le> ti_polls_left (info_of i ex1)"
    using ready_iter_le [OF er_ran.hyps(2)] le(2) u by (auto simp: info_le_def info_step_def)
  moreover have "ti_polls_left (info_of i ex2) < ti_polls_left (info_of i ex1)" if "e = Polled t i" for t
    using polled_alive(3) [OF er_ran.hyps(2) [unfolded that] le(2) u] .
  ultimately show ?case using er_ran.IH by (cases e) (auto simp: polls_of_def)
next
  case (er_idle evs ex1 ex2 ex3)
  have le: "info_step (info_of i ex) (info_of i ex1)" "i < ex_next_info ex1"
    using exec_run_le [OF er_idle.hyps(1)] assms(2) by (auto simp: info_le_def)
  have "info_le ex1 ex3"
    using ready_iter_le [OF er_idle.hyps(2)] finish_expired_le [OF er_idle.hyps(3)] by (rule info_le_trans)
  then show ?case using le assms(3) er_idle.IH by (fastforce simp: info_le_def info_step_def)
next
  case (er_round evs ex1 k k' ex2)
  have le: "info_step (info_of i ex) (info_of i ex1)" "i < ex_next_info ex1"
    using exec_run_le [OF er_round.hyps(1)] assms(2) by (auto simp: info_le_def)
  then show ?case using after_ready_le [OF er_round.hyps(2)] assms(3) er_round.IH
    by (fastforce simp: info_le_def info_step_def)
qed

lemma exec_run_killed:
  assumes "exec_run env limit ex evs ex'" "i < ex_next_info ex" "ti_killed (info_of i ex)"
  shows "ti_killed (info_of i ex') \<and> polls_of i evs = 0"
  using assms(1)
proof (induction rule: exec_run.induct)
  case er_nil
  then show ?case by (simp add: polls_of_def assms(3))
next
  case (er_ran evs ex1 e ex2)
  have "i < ex_next_info ex1" using exec_run_le [OF er_ran.hyps(1)] assms(2) by (auto simp: info_le_def)
  moreover have "e \<noteq> Polled t i" for t
    using polled_alive(1) er_ran by blast
  ultimately show ?case using er_ran ready_iter_le [OF er_ran.hyps(2)]
    by (cases e) (auto simp: polls_of_def info_le_def info_step_def)
next
  case (er_idle evs ex1 ex2 ex3)
  have "i < ex_next_info ex1" using exec_run_le [OF er_idle.hyps(1)] assms(2) by (auto simp: info_le_def)
  moreover have "info_le ex1 ex3"
    using ready_iter_le [OF er_idle.hyps(2)] finish_expired_le [OF er_idle.hyps(3)] by (rule info_le_trans)
  ultimately show ?case using er_idle.IH by (auto simp: info_le_def info_step_def)
next
  case (er_round evs ex1 k k' ex2)
  have "i < ex_next_info ex1" using exec_run_le [OF er_round.hyps(1)] assms(2) by (auto simp: info_le_def)
  then show ?case using er_round after_ready_le [OF er_round.hyps(2)] by (auto simp: info_le_def info_step_def)
qed

text \<open>The loops only make runs.\<close>

lemma exec_run_trans:
  assumes "exec_run env limit ex1 evs' ex2" "exec_run env limit ex evs ex1"
  shows "exec_run env limit ex (evs @ evs') ex2"
  using assms
proof (induction rule: exec_run.induct)
  case (er_ran evs' ex1 e ex2)
  then have "exec_run env limit ex ((evs @ evs') @ [e]) ex2" by (intro exec_run.er_ran) auto
  then show ?case by simp
qed (auto intro: exec_run.intros)

lemma ready_loop_run:
  assumes "ready_loop env ex = Some (Ret ex')"
  shows "\<exists>evs ex1. exec_run env limit ex evs ex1 \<and> ready_iter env ex1 = Ret (None, ex')"
proof -
  have "\<forall>ex'. r = Ret ex' \<longrightarrow> (\<exists>evs ex1. exec_run env limit ex evs ex1 \<and> ready_iter env ex1 = Ret (None, ex'))"
    if "ready_loop env ex = Some r" for r
    using that
  proof (induction rule: ready_loop.raw_induct [rotated, consumes 1, case_names step])
    case (step loop env ex r)
    show ?case
    proof (intro allI impI)
      fix ex' assume r: "r = Ret ex'"
      show "\<exists>evs ex1. exec_run env limit ex evs ex1 \<and> ready_iter env ex1 = Ret (None, ex')"
      proof (cases "ready_iter env ex")
        case (Panic p)
        with step(2) r show ?thesis by simp
      next
        case (Ret x)
        obtain e ex2 where x: "x = (e, ex2)" by fastforce
        show ?thesis
        proof (cases e)
          case None
          with step(2) r Ret x show ?thesis by (auto intro: er_nil)
        next
          case (Some a)
          with step(2) Ret x have "loop env ex2 = Some r" by simp
          from step(1) [OF this] r obtain evs ex1 where
            "exec_run env limit ex2 evs ex1" "ready_iter env ex1 = Ret (None, ex')" by blast
          moreover have "exec_run env limit ex ([] @ [a]) ex2"
            using Ret x Some by (intro er_ran [OF er_nil]) simp
          ultimately show ?thesis using exec_run_trans by blast
        qed
      qed
    qed
  qed
  with assms show ?thesis by blast
qed

lemma run_all_ready_run:
  assumes "run_all_ready env ex = Some (Ret ex')"
  shows "\<exists>evs. exec_run env limit ex evs ex'"
proof -
  from assms obtain ex1 where "ready_loop env ex = Some (Ret ex1)" "finish_expired env ex1 = Ret ex'"
    by (auto simp: run_all_ready_def split: option.splits)
  with ready_loop_run [of env ex ex1 limit] show ?thesis by (metis er_idle)
qed

lemma schedule_tasks [simp]:
  "ex_task_info (schedule t ex) = ex_task_info ex" "ex_next_task (schedule t ex) = ex_next_task ex"
  "ch_receiver (ex_queue (schedule t ex)) = ch_receiver (ex_queue ex)"
  by (simp_all add: schedule_def chan_send_def split: option.split)

lemma prog_wakes_tasks [simp]:
  "ex_task_info (prog_wakes f ex) = ex_task_info ex" "ex_next_task (prog_wakes f ex) = ex_next_task ex"
  "ch_receiver (ex_queue (prog_wakes f ex)) = ch_receiver (ex_queue ex)"
proof -
  have "ex_task_info (fold schedule ts ex) = ex_task_info ex \<and> ex_next_task (fold schedule ts ex) = ex_next_task ex \<and>
    ch_receiver (ex_queue (fold schedule ts ex)) = ch_receiver (ex_queue ex)" for ts and ex :: "('a, 'b, 'c) exec"
    by (induction ts arbitrary: ex) simp_all
  then show "ex_task_info (prog_wakes f ex) = ex_task_info ex" "ex_next_task (prog_wakes f ex) = ex_next_task ex"
    "ch_receiver (ex_queue (prog_wakes f ex)) = ch_receiver (ex_queue ex)"
    by (simp_all add: prog_wakes_def schedule_all_def split_def)
qed

lemma drop_runnables_tasks [simp]:
  "ex_task_info (fold (drop_runnable env ctx) ts ex) = ex_task_info ex"
  "ex_next_task (fold (drop_runnable env ctx) ts ex) = ex_next_task ex"
  "ch_receiver (ex_queue (fold (drop_runnable env ctx) ts ex)) = ch_receiver (ex_queue ex)"
  by (induction ts arbitrary: ex) (simp_all add: drop_runnable_def)

lemma task_kill_tasks:
  assumes "task_kill env ctx n ex = Ret ex'"
  shows "ex_task_info ex' = ex_task_info ex" "ex_next_task ex' = ex_next_task ex"
    "ch_receiver (ex_queue ex') = ch_receiver (ex_queue ex)"
  using assms
  by (auto simp: task_kill_def Let_def new_info_def mark_killed_def upd_info_def request_abort_node_def)

section \<open>The threads of the pool\<close>

lemma prog_wakes_pool [simp]: "ex_pool (prog_wakes f ex) = ex_pool ex"
proof -
  have "ex_pool (fold schedule ts ex) = ex_pool ex" for ts and ex :: "('a, 'b, 'c) exec"
    by (induction ts arbitrary: ex) (simp_all add: schedule_def split: option.split)
  then show ?thesis by (simp add: prog_wakes_def schedule_all_def split: prod.split)
qed

lemma job_result_pool [simp]: "ex_pool (job_result job r ex) = ex_pool ex"
  by (simp add: job_result_def Let_def schedule_def split: option.split)

lemma drop_runnables_pool [simp]: "ex_pool (fold (drop_runnable env ctx) ts ex) = ex_pool ex"
  by (induction ts arbitrary: ex) (simp_all add: drop_runnable_def)

definition thread_idle :: "('g, 'c, 'p) exec \<Rightarrow> nat \<Rightarrow> bool" where
  "thread_idle ex i \<longleftrightarrow> \<not> qs_abort_requested (ex_pool ex) ! i \<and> qs_current (ex_pool ex) ! i = None"

definition thread_busy :: "('g, 'c, 'p) exec \<Rightarrow> nat \<Rightarrow> bool" where
  "thread_busy ex i \<longleftrightarrow> qs_abort_requested (ex_pool ex) ! i \<or>
     (case qs_current (ex_pool ex) ! i of None \<Rightarrow> False | Some (_, info) \<Rightarrow> \<not> ti_paused (info_of info ex))"

lemma select_threads_eq:
  "distinct is \<Longrightarrow> select_threads ex budget is =
     filter (\<lambda>i. thread_busy ex i \<or>
       thread_idle ex i \<and> length (filter (thread_idle ex) (takeWhile (\<lambda>j. j \<noteq> i) is)) < budget) is"
proof (induction "is" arbitrary: budget)
  case (Cons i "is")
  have tw: "takeWhile (\<lambda>k. k \<noteq> j) (i # is) = i # takeWhile (\<lambda>k. k \<noteq> j) is" if "j \<in> set is" for j
    using that Cons.prems by auto
  consider "thread_busy ex i" "\<not> thread_idle ex i" | "\<not> thread_busy ex i" "\<not> thread_idle ex i"
    | "thread_idle ex i" "\<not> thread_busy ex i"
    by (cases "qs_current (ex_pool ex) ! i") (auto simp: thread_busy_def thread_idle_def)
  then show ?case
  proof cases
    case 1
    then have "select_threads ex budget (i # is) = i # select_threads ex budget is"
      by (auto simp: thread_busy_def thread_idle_def split: option.splits)
    moreover have "filter (\<lambda>j. thread_busy ex j \<or> thread_idle ex j \<and>
          length (filter (thread_idle ex) (takeWhile (\<lambda>k. k \<noteq> j) (i # is))) < budget) is =
        filter (\<lambda>j. thread_busy ex j \<or> thread_idle ex j \<and>
          length (filter (thread_idle ex) (takeWhile (\<lambda>k. k \<noteq> j) is)) < budget) is"
      using tw 1 by (intro filter_cong) simp_all
    ultimately show ?thesis using 1 Cons by simp
  next
    case 2
    then have "select_threads ex budget (i # is) = select_threads ex budget is"
      by (auto simp: thread_busy_def thread_idle_def split: option.splits)
    moreover have "filter (\<lambda>j. thread_busy ex j \<or> thread_idle ex j \<and>
          length (filter (thread_idle ex) (takeWhile (\<lambda>k. k \<noteq> j) (i # is))) < budget) is =
        filter (\<lambda>j. thread_busy ex j \<or> thread_idle ex j \<and>
          length (filter (thread_idle ex) (takeWhile (\<lambda>k. k \<noteq> j) is)) < budget) is"
      using tw 2 by (intro filter_cong) simp_all
    ultimately show ?thesis using 2 Cons by simp
  next
    case 3
    then have sel: "select_threads ex budget (i # is) =
        (if 0 < budget then i # select_threads ex (budget - 1) is else select_threads ex budget is)"
      by (auto simp: thread_idle_def)
    have "filter (\<lambda>j. thread_busy ex j \<or> thread_idle ex j \<and>
          length (filter (thread_idle ex) (takeWhile (\<lambda>k. k \<noteq> j) (i # is))) < budget) is =
        filter (\<lambda>j. thread_busy ex j \<or> thread_idle ex j \<and>
          length (filter (thread_idle ex) (takeWhile (\<lambda>k. k \<noteq> j) is)) < budget - 1) is"
      using tw 3 by (intro filter_cong) auto
    then show ?thesis using sel 3 Cons by (cases "budget = 0") simp_all
  qed
qed simp

section \<open>An example\<close>

text \<open>One node whose task 5 is ready, a blocking job of it on the first of two threads, and a program
  that does nothing but wake task 5 when the node's first incarnation is killed.\<close>

definition demo_env :: "(nat, nat, nat, unit) env" where
  "demo_env = \<lparr>en_ops = demo_rng, en_shuffle = (\<lambda>xs g. (xs, g)), en_poll = (\<lambda>t ex. (Returned, [], ())),
     en_job = (\<lambda>j ex. (JobDone, [], ())), en_drop = (\<lambda>_ _ p. ([], p)), en_drop_job = (\<lambda>_ _ p. ([], p)),
     en_done = (\<lambda>_ p. ([], p)), en_killed = (\<lambda>i p. (if i = 0 then [5] else [], p)),
     en_fire = (\<lambda>_ p. ([], p)), en_init = (\<lambda>_ _ p. p), en_sim_create = (\<lambda>_ _. Ret),
     en_sim_reset = (\<lambda>_. Ret), en_sim_delete = (\<lambda>_. Ret)\<rparr>"

definition demo_pool :: pool where
  "demo_pool = \<lparr>bp_queue = channel, qs_current = [Some (3, 0), None], qs_abort_requested = [False, False],
     qs_dequeued = 0, qs_pending_panics = [], bp_started = True, bp_latency = None\<rparr>"

definition demo_exec :: "(nat, nat, unit) exec" where
  "demo_exec = (executor_new demo_pool \<lparr>th_timer = timer_default, th_clock = clock_new 0\<rparr>
       (new_with_seed demo_rng 5) ())
     \<lparr>ex_infos := (\<lambda>_. task_info_new 1 ''a''), ex_next_info := 1,
      ex_nodes := [1 \<mapsto> \<lparr>ne_info = 0, ne_paused = [], ne_init = Some 0\<rparr>], ex_next_node := 2,
      ex_task_info := [5 \<mapsto> 0], ex_next_task := 6\<rparr>"

lemmas demo_simps = demo_exec_def demo_env_def demo_pool_def executor_new_def new_with_seed_def channel_def
  task_info_new_def

lemma demo_kill:
  obtains ex where "task_kill demo_env None 1 demo_exec = Ret ex" "ch_queue (ex_queue ex) = [(5, 0)]"
    "ch_senders (ex_queue ex) = 1" "ex_rand ex = ex_rand demo_exec" "ti_killed (info_of 0 ex)"
  by (simp add: task_kill_def demo_simps Let_def new_info_def mark_killed_def upd_info_def info_of_def
      request_abort_node_def prog_wakes_def schedule_all_def schedule_def chan_send_def)

section \<open>Properties\<close>

text \<open>C1: killing a node is final: whatever the program does afterwards, no task of the incarnation
  that was killed is ever polled again, and the incarnation stays killed.\<close>

theorem killed_never_polled:
  assumes "task_kill env ctx n ex0 = Ret ex" "get_node n ex0 = Some i" "i < ex_next_info ex0"
    and "exec_run env limit ex evs ex'"
  shows "polls_of i evs = 0 \<and> ti_killed (info_of i ex') \<and> get_node n ex \<noteq> Some i"
proof -
  from assms(1) obtain nd where k: "ex_nodes ex0 n = Some nd" "ex_next_info ex = ex_next_info ex0 + 1"
    "ex_infos ex = (let f = (ex_infos ex0)(ex_next_info ex0 := task_info_new n (ti_name (info_of (ne_info nd) ex0)))
                     in f(ne_info nd := (f (ne_info nd))\<lparr>ti_killed := True\<rparr>))"
    "ex_nodes ex = (ex_nodes ex0)(n \<mapsto> nd\<lparr>ne_paused := [], ne_info := ex_next_info ex0\<rparr>)"
    by (rule task_kill_spec)
  have i: "ne_info nd = i" using assms(2) k(1) by (simp add: get_node_def)
  have "ti_killed (info_of i ex)" by (simp add: info_of_def k(3) i Let_def)
  then show ?thesis using exec_run_killed [OF assms(4), of i] assms(3) k(2,4) by (simp add: get_node_def)
qed

theorem killed_never_polled_witness:
  "\<exists>ex ex'. task_kill demo_env None 1 demo_exec = Ret ex \<and>
     ready_iter demo_env ex = Ret (Some (Dropped 5 0), ex') \<and> polls_of 0 [Dropped 5 0] = 0 \<and>
     ti_killed (info_of 0 ex')"
proof -
  obtain ex where k: "task_kill demo_env None 1 demo_exec = Ret ex" "ch_queue (ex_queue ex) = [(5, 0)]"
    "ch_senders (ex_queue ex) = 1" "ex_rand ex = ex_rand demo_exec" "ti_killed (info_of 0 ex)"
    by (rule demo_kill)
  obtain ex' where r: "ready_iter demo_env ex = Ret (Some (Dropped 5 0), ex')"
    using k(2-5)
    by (simp add: ready_iter_def chan_try_recv_random_def rng_with_def gen_range_def demo_simps demo_rng_def
        handle_runnable_def info_of_def Let_def)
  have "exec_run demo_env None ex ([] @ [Dropped 5 0]) ex'" by (rule er_ran [OF er_nil r])
  from killed_never_polled [OF k(1) _ _ this, of 0] k(1) r show ?thesis
    by (auto simp: get_node_def demo_exec_def)
qed

text \<open>C3: a graceful shutdown keeps to its budget: from the moment it begins, the node's tasks are
  polled at most \<open>poll_budget\<close> more times.\<close>

theorem graceful_shutdown_budget:
  assumes "begin_graceful_shutdown n restart budget max_duration ex0 = Ret ex" "get_node n ex0 = Some i"
    and "i < ex_next_info ex0" "\<not> is_shutting_down (info_of i ex0)" "exec_run env limit ex evs ex'"
  shows "polls_of i evs \<le> budget"
proof -
  from assms(1,2,4) have e: "ti_polls_left (info_of i ex) = min budget (usize_max - 1)" "ex_next_info ex = ex_next_info ex0"
    by (auto simp: begin_graceful_shutdown_def get_node_def Let_def run_simps upd_info_def info_of_def)
  have "polls_of i evs + ti_polls_left (info_of i ex') \<le> ti_polls_left (info_of i ex)"
    using exec_run_budget [OF assms(5), of i] assms(3) e by (simp add: usize_max_def)
  with e show ?thesis by simp
qed

theorem graceful_shutdown_budget_witness:
  "\<exists>ex. begin_graceful_shutdown 1 None 3 7 demo_exec = Ret ex \<and> exec_run demo_env None ex [] ex \<and>
     polls_of 0 [] \<le> 3"
proof -
  obtain ex where b: "begin_graceful_shutdown 1 None 3 7 demo_exec = Ret ex"
    by (simp add: begin_graceful_shutdown_def demo_simps is_shutting_down_def info_of_def usize_max_def
        now_instant_def clock_now_instant_def clock_new_def check_abort_def ABORT_COUNTER_START_def
        CLOCK_BASE_def instant_simps instant_ok_def Let_def)
  have "exec_run demo_env None ex [] ex" by (rule er_nil)
  from graceful_shutdown_budget [OF b _ _ _ this, of 0] b this show ?thesis
    by (simp add: demo_simps get_node_def is_shutting_down_def info_of_def)
qed

text \<open>C26: a restart starts one fresh incarnation: the old one is killed, the new one is neither killed,
  paused nor shutting down, the node may use timers again, and of the new incarnation there is
  exactly the initial task, in the ready queue, where the node has one.\<close>

theorem restart_fresh_incarnation:
  assumes "task_restart env ctx n ex = Ret ex'" "ex_nodes ex n = Some nd" "ne_info nd < ex_next_info ex"
    and "ch_receiver (ex_queue ex)" "ex_next_info ex \<notin> ran (ex_task_info ex)"
  shows "\<exists>i. get_node n ex' = Some i \<and> i \<noteq> ne_info nd \<and> ti_killed (info_of (ne_info nd) ex') \<and>
    info_of i ex' = task_info_new n (ti_name (info_of (ne_info nd) ex)) \<and>
    n \<notin> disabled_node_ids (th_timer (ex_time ex')) \<and>
    {t. ex_task_info ex' t = Some i} = (case ne_init nd of None \<Rightarrow> {} | Some _ \<Rightarrow> {ex_next_task ex}) \<and>
    (ne_init nd \<noteq> None \<longrightarrow> (ex_next_task ex, i) \<in> set (ch_queue (ex_queue ex')))"
proof -
  let ?i = "ex_next_info ex"
  from assms(1) obtain ex1 tm where k: "task_kill env ctx n ex = Ret ex1" and tm: "time_enable_node n (ex_time ex1) = Ret tm"
    and r: "ex' = call_init env (ne_init (the (ex_nodes ex1 n))) (ne_info (the (ex_nodes ex1 n))) (ex1\<lparr>ex_time := tm\<rparr>)"
    by (auto simp: task_restart_def)
  from k obtain nd' where s: "ex_nodes ex n = Some nd'" "ex_next_info ex1 = ?i + 1"
    "ex_infos ex1 = (let f = (ex_infos ex)(?i := task_info_new n (ti_name (info_of (ne_info nd') ex)))
                     in f(ne_info nd' := (f (ne_info nd'))\<lparr>ti_killed := True\<rparr>))"
    "ex_nodes ex1 = (ex_nodes ex)(n \<mapsto> nd'\<lparr>ne_paused := [], ne_info := ?i\<rparr>)"
    by (rule task_kill_spec)
  have nd: "nd' = nd" using s(1) assms(2) by simp
  have t: "ex_task_info ex1 = ex_task_info ex" "ex_next_task ex1 = ex_next_task ex" "ch_receiver (ex_queue ex1)"
    using task_kill_tasks [OF k] assms(4) by simp_all
  have r': "ex' = call_init env (ne_init nd) ?i (ex1\<lparr>ex_time := tm\<rparr>)" using r by (simp add: s(4) nd)
  have dis: "n \<notin> disabled_node_ids (th_timer tm)"
    using tm by (auto simp: time_enable_node_def timer_enable_def split: if_splits)
  have no: "{t. ex_task_info ex t = Some ?i} = {}" using assms(5) by (auto simp: ran_def)
  have "get_node n ex' = Some ?i" "?i \<noteq> ne_info nd" "ti_killed (info_of (ne_info nd) ex')"
    "info_of ?i ex' = task_info_new n (ti_name (info_of (ne_info nd) ex))"
    using assms(3) by (simp_all add: r' get_node_def s nd info_of_def Let_def)
  moreover have "n \<notin> disabled_node_ids (th_timer (ex_time ex')) \<and>
    {t. ex_task_info ex' t = Some ?i} = (case ne_init nd of None \<Rightarrow> {} | Some _ \<Rightarrow> {ex_next_task ex}) \<and>
    (ne_init nd \<noteq> None \<longrightarrow> (ex_next_task ex, ?i) \<in> set (ch_queue (ex_queue ex')))"
    using dis no t
    by (auto simp: r' call_init_def spawn_local_def schedule_def chan_send_def Let_def split: option.splits)
  ultimately show ?thesis by blast
qed

theorem restart_fresh_incarnation_witness:
  "\<exists>ex' i. task_restart demo_env None 1 demo_exec = Ret ex' \<and> get_node 1 ex' = Some i \<and> i \<noteq> 0 \<and>
     {t. ex_task_info ex' t = Some i} = {6}"
proof -
  have "\<exists>ex'. task_restart demo_env None 1 demo_exec = Ret ex'"
    by (simp add: task_restart_def task_kill_def demo_simps Let_def new_info_def mark_killed_def upd_info_def
        info_of_def request_abort_node_def prog_wakes_def schedule_all_def schedule_def chan_send_def
        time_enable_node_def timer_enable_def disable_node_and_cancel_timers_def timer_disable_def timer_default_def)
  then obtain ex' where r: "task_restart demo_env None 1 demo_exec = Ret ex'" by blast
  have n: "ex_nodes demo_exec 1 = Some \<lparr>ne_info = 0, ne_paused = [], ne_init = Some 0\<rparr>"
    by (simp add: demo_exec_def)
  have "ex_next_info demo_exec \<notin> ran (ex_task_info demo_exec)" "ch_receiver (ex_queue demo_exec)"
    by (auto simp: demo_exec_def executor_new_def channel_def ran_def)
  with restart_fresh_incarnation [OF r n] obtain i where "get_node 1 ex' = Some i" "i \<noteq> 0"
    "{t. ex_task_info ex' t = Some i} = {ex_next_task demo_exec}" by (auto simp: demo_exec_def)
  with r show ?thesis by (auto simp: demo_exec_def)
qed



text \<open>Choosing the threads of a wake round in one pass is the same as the specification: a thread
  is chosen when it has to unwind its job, when its job is not paused, or when it is idle and fewer
  idle threads before it than jobs are queued.\<close>

theorem select_threads_spec:
  "distinct is \<Longrightarrow> select_threads ex budget is =
     filter (\<lambda>i. thread_busy ex i \<or>
       thread_idle ex i \<and> length (filter (thread_idle ex) (takeWhile (\<lambda>j. j \<noteq> i) is)) < budget) is"
  by (rule select_threads_eq)

theorem select_threads_spec_witness:
  "select_threads demo_exec 1 [0, 1] = [0, 1]"
  using select_threads_spec [of "[0, 1]" demo_exec 1]
  by (simp add: thread_busy_def thread_idle_def demo_simps info_of_def)

text \<open>
  Every run of \<open>block_on\<close> that returns ends with a pass over the ready queue that emptied it, after
  which the shutdowns whose deadline has passed were finished.
\<close>

lemma block_on_last:
  assumes "exec_block_on env output limit ex = Some (Ret (v, ex'))"
  shows "output (ex_prog ex') = Some v \<and> (\<exists>evs ex1 ex2. exec_run env limit (snd (spawn_on_main_task ex)) evs ex1 \<and>
    ready_iter env ex1 = Ret (None, ex2) \<and> finish_expired env ex2 = Ret ex')"
proof -
  have "\<forall>v ex'. r = Ret (v, ex') \<longrightarrow> output (ex_prog ex') = Some v \<and> (\<exists>evs ex1 ex2. exec_run env limit ex evs ex1 \<and>
      ready_iter env ex1 = Ret (None, ex2) \<and> finish_expired env ex2 = Ret ex')"
    if "block_on_loop env output limit k ex = Some r" for k ex r
    using that
  proof (induction rule: block_on_loop.raw_induct [rotated, consumes 1, case_names step])
    case (step loop env main limit k ex r)
    show ?case
    proof (intro allI impI)
      fix v ex' assume r: "r = Ret (v, ex')"
      from step(2) r obtain ex3 where a: "run_all_ready env ex = Some (Ret ex3)"
        by (auto split: option.splits run.splits)
      from a obtain ex2 where l2: "ready_loop env ex = Some (Ret ex2)" and f: "finish_expired env ex2 = Ret ex3"
        by (auto simp: run_all_ready_def split: option.splits)
      from ready_loop_run [OF l2] obtain evs ex1 where
        run: "exec_run env limit ex evs ex1" "ready_iter env ex1 = Ret (None, ex2)" by blast
      show "main (ex_prog ex') = Some v \<and> (\<exists>evs ex1 ex2. exec_run env limit ex evs ex1 \<and>
        ready_iter env ex1 = Ret (None, ex2) \<and> finish_expired env ex2 = Ret ex')"
      proof (cases "main (ex_prog ex3)")
        case (Some w)
        with step(2) r a run f show ?thesis by auto
      next
        case None
        with step(2) r a obtain k' ex4 where n: "after_ready env limit k ex3 = Ret (k', ex4)"
          and l: "loop env main limit k' ex4 = Some r"
          by (auto split: run.splits)
        have "exec_run env limit ex (evs @ []) ex4"
          using er_round [OF er_idle [OF run f] n] by simp
        with step(1) [OF l] r exec_run_trans show ?thesis by (metis (no_types, lifting))
      qed
    qed
  qed
  with assms show ?thesis by (fastforce simp: exec_block_on_def)
qed





end
