(* ===== verification/Quantum_Facts.thy ===== *)
theory Quantum_Facts
  imports Quantum Executor_Facts
begin

text \<open>
  What the handshake of the blocking pool guarantees under every interleaving of its threads: at
  most one thread of the simulator runs at a time, a wake round ends and leaves the state that
  \<open>grant_turns\<close> computes, and a shutdown unwinds and ends every thread.
\<close>

section \<open>The invariant\<close>

definition waiting :: "thread_pc \<Rightarrow> bool" where
  "waiting pc \<longleftrightarrow> pc \<in> {Entering, Asleep, Awake}"

fun granted :: "turn_word \<Rightarrow> (turn \<times> nat) option" where
  "granted (TurnRun i) = Some (RunTurn, i)"
| "granted (TurnAbort i) = Some (AbortTurn, i)"
| "granted _ = None"

fun to_grant :: "main_pc \<Rightarrow> nat list" where
  "to_grant (Granting is) = is"
| "to_grant (MainAsleep is) = is"
| "to_grant (MainAwake is) = is"
| "to_grant _ = []"

fun main_waits :: "main_pc \<Rightarrow> bool" where
  "main_waits (MainAsleep _) = True"
| "main_waits (MainAwake _) = True"
| "main_waits _ = False"

definition quantum_ok :: "('g, 'c, 'p) quantum \<Rightarrow> bool" where
  "quantum_ok q \<longleftrightarrow> set (to_grant (qn_main q)) \<subseteq> {..<length (qn_threads q)} \<and>
     (if qn_turn q = TurnShutdown
      then qn_main q \<in> {Joining, Joined} \<and> (\<forall>pc \<in> set (qn_threads q). pc \<noteq> Asleep \<and> (\<forall>k. pc \<noteq> InTurn k))
      else case granted (qn_turn q) of
          None \<Rightarrow> qn_main q \<noteq> Joining \<and> (\<forall>is. qn_main q \<noteq> MainAsleep is) \<and>
            (\<forall>j < length (qn_threads q). waiting (qn_threads q ! j))
        | Some (k, i) \<Rightarrow> main_waits (qn_main q) \<and> i < length (qn_threads q) \<and>
            qn_threads q ! i \<in> {Entering, Awake, InTurn k, Ending} \<and>
            (\<forall>j < length (qn_threads q). j \<noteq> i \<longrightarrow> waiting (qn_threads q ! j)))"

lemma granted_of [simp]: "granted (turn_word_of k i) = Some (k, i)" "turn_word_of k i \<noteq> TurnShutdown"
    "turn_word_of k i \<noteq> TurnIdle"
  by (cases k; simp)+

lemma granted_None: "granted t = None \<longleftrightarrow> t = TurnIdle \<or> t = TurnShutdown"
  by (cases t) auto

lemma wait_turn_granted:
  "wait_turn j t = (if t = TurnShutdown then InExit
     else case granted t of Some (k, i) \<Rightarrow> if i = j then InTurn k else Asleep | None \<Rightarrow> Asleep)"
  by (cases t) (auto simp: wait_turn_def)

lemma waiting_simps [simp]: "waiting Entering" "waiting Asleep" "waiting Awake" "\<not> waiting (InTurn k)"
    "\<not> waiting InExit" "\<not> waiting Ending" "\<not> waiting Exited"
  by (simp_all add: waiting_def)

lemma quantum_ok_pc:
  assumes "quantum_ok q" "qn_turn q \<noteq> TurnShutdown" "i < length (qn_threads q)" "\<not> waiting (qn_threads q ! i)"
  obtains k where "granted (qn_turn q) = Some (k, i)" "main_waits (qn_main q)"
    "qn_threads q ! i \<in> {InTurn k, Ending}"
  using assms by (auto simp: quantum_ok_def split: option.splits)

lemma quantum_ok_new: "quantum_ok (quantum_new ex)"
  by (simp add: quantum_ok_def quantum_new_def)

lemma set_pc_simps [simp]:
  "qn_turn (set_pc i pc q) = qn_turn q" "qn_main (set_pc i pc q) = qn_main q"
  "qn_exec (set_pc i pc q) = qn_exec q" "qn_threads (set_pc i pc q) = (qn_threads q)[i := pc]"
  by (simp_all add: set_pc_def)

lemma notify_thread_simps [simp]:
  "qn_turn (notify_thread i q) = qn_turn q" "qn_main (notify_thread i q) = qn_main q"
  "qn_exec (notify_thread i q) = qn_exec q"
  "qn_threads (notify_thread i q) = (qn_threads q)[i := notified (qn_threads q ! i)]"
  by (simp_all add: notify_thread_def)

lemma notify_main_simps [simp]:
  "qn_turn (notify_main q) = qn_turn q" "qn_exec (notify_main q) = qn_exec q"
  "qn_threads (notify_main q) = qn_threads q"
  "qn_main (notify_main q) =
     (case qn_main q of MainAsleep is \<Rightarrow> MainAwake is | _ \<Rightarrow> qn_main q)"
  by (simp_all add: notify_main_def split: main_pc.splits)

lemma quantum_step_ok:
  assumes "quantum_step env e q q'" "quantum_ok q"
  shows "quantum_ok q'"
  using assms
proof (induction rule: quantum_step.induct)
  case (works q "is" ex)
  then show ?case by (auto simp: quantum_ok_def split: option.splits if_splits)
next
  case (starts q)
  then show ?case
    by (auto simp: quantum_ok_def ensure_started_def waiting_def split: option.splits if_splits)
next
  case (skips q i "is")
  then show ?case by (auto simp: quantum_ok_def split: option.splits if_splits)
next
  case (grants q i "is" k)
  then have "\<forall>j < length (qn_threads q). waiting (qn_threads q ! j)"
    by (auto simp: quantum_ok_def split: option.splits if_splits)
  then show ?case using grants
    by (auto simp: quantum_ok_def main_grant_def nth_list_update notified_def waiting_def split: option.splits if_splits)
next
  case (waits q "is")
  then show ?case by (auto simp: quantum_ok_def granted_None split: option.splits if_splits)
next
  case (resumes q "is" ex)
  then show ?case by (auto simp: quantum_ok_def split: option.splits if_splits)
next
  case (looks i q)
  then show ?case
    by (auto simp: quantum_ok_def wait_turn_granted nth_list_update waiting_def dest!: set_update_subset_insert [THEN subsetD]
        split: option.splits if_splits)
next
  case (turns i q k ex)
  then show ?case
    by (auto simp: quantum_ok_def nth_list_update waiting_def dest!: set_update_subset_insert [THEN subsetD]
        split: option.splits if_splits)
next
  case (ends i q)
  show ?case
  proof (cases "qn_turn q = TurnShutdown")
    case True
    with ends show ?thesis
      by (auto simp: quantum_ok_def end_turn_def dest!: set_update_subset_insert [THEN subsetD])
  next
    case False
    with ends obtain k where "granted (qn_turn q) = Some (k, i)"
      by (auto simp: quantum_ok_def waiting_def split: option.splits)
    with ends False show ?thesis
      by (auto simp: quantum_ok_def end_turn_def nth_list_update waiting_def split: main_pc.splits)
  qed
next
  case (unwinds i q ex)
  then show ?case
    by (auto simp: quantum_ok_def nth_list_update waiting_def dest!: set_update_subset_insert [THEN subsetD]
        split: option.splits if_splits)
next
  case (leaves i q)
  then show ?case
    by (auto simp: quantum_ok_def nth_list_update waiting_def dest!: set_update_subset_insert [THEN subsetD]
        split: option.splits if_splits)
next
  case (thread_wakes i q)
  then show ?case
    by (auto simp: quantum_ok_def nth_list_update waiting_def dest!: set_update_subset_insert [THEN subsetD]
        split: option.splits if_splits)
next
  case (main_wakes q "is")
  then show ?case by (auto simp: quantum_ok_def split: option.splits if_splits)
next
  case (shuts_down q)
  then have "\<forall>pc \<in> set (qn_threads q). waiting pc"
    by (auto simp: quantum_ok_def in_set_conv_nth split: option.splits if_splits)
  then have "\<forall>pc \<in> notified ` set (qn_threads q). pc \<in> {Entering, Awake}"
    by (auto simp: notified_def waiting_def)
  with shuts_down show ?case
    by (auto simp: quantum_ok_def pool_shutdown_def split: option.splits if_splits)
next
  case (joins q)
  then show ?case by (auto simp: quantum_ok_def split: option.splits if_splits)
qed

lemma quantum_run_ok:
  assumes "quantum_run env q es q'" "quantum_ok q"
  shows "quantum_ok q'"
  using assms by (induction rule: quantum_run.induct) (auto intro: quantum_step_ok)

section \<open>One thread at a time\<close>

text \<open>
  The threads that run code of the simulation: the main thread unless it waits, and the pool threads
  between the return of \<open>wait_turn\<close> and \<open>end_turn\<close>. (\<open>None\<close> is the main thread.)
\<close>

definition running :: "('g, 'c, 'p) quantum \<Rightarrow> nat option set" where
  "running q = {None |is. qn_main q = Granting is} \<union>
     {Some i |i. i < length (qn_threads q) \<and>
        ((\<exists>k. qn_threads q ! i = InTurn k) \<or> qn_threads q ! i = Ending)}"

lemma running_ok:
  assumes "quantum_ok q" "qn_turn q \<noteq> TurnShutdown"
  shows "running q \<subseteq> (case granted (qn_turn q) of None \<Rightarrow> {None} | Some (k, i) \<Rightarrow> {Some i})"
proof -
  have "\<not> waiting Ending" "\<not> waiting (InTurn k)" for k
    by (simp_all add: waiting_def)
  with assms show ?thesis
    by (auto simp: running_def quantum_ok_def split: option.splits)
qed

lemma quantum_step_shutdown:
  assumes "quantum_step env e q q'" "qn_turn q' = TurnShutdown" "e \<noteq> MainShutsDown"
  shows "qn_turn q = TurnShutdown"
  using assms
  by (induction rule: quantum_step.induct) (auto simp: ensure_started_def main_grant_def end_turn_def split: if_splits)

lemma quantum_run_shutdown:
  assumes "quantum_run env q es q'" "MainShutsDown \<notin> set es" "qn_turn q \<noteq> TurnShutdown"
  shows "qn_turn q' \<noteq> TurnShutdown"
  using assms by (induction rule: quantum_run.induct) (auto dest: quantum_step_shutdown)

section \<open>A wake round computes what the main loop's model says\<close>

text \<open>What is left of a wake round, as a computation on the executor's state.\<close>

definition rest_of_round ::
    "('g, 'f, 'c, 'p) env \<Rightarrow> ('g, 'c, 'p) quantum \<Rightarrow> ('g, 'c, 'p) exec run" where
  "rest_of_round env q =
     (let finish = (\<lambda>ex. bind_run (advance_a_little env ex) (grant_turns env (to_grant (qn_main q)))) in
      case qn_main q of
        Granting is \<Rightarrow> grant_turns env is (qn_exec q)
      | _ \<Rightarrow>
          (case granted (qn_turn q) of
             None \<Rightarrow> finish (qn_exec q)
           | Some (k, i) \<Rightarrow>
               if qn_threads q ! i = Ending then finish (qn_exec q)
               else bind_run (thread_turn env k i (qn_exec q)) finish))"

lemma rest_granted:
  assumes "main_waits (qn_main q)" "granted (qn_turn q) = Some (k, i)"
  shows "rest_of_round env q =
     (let finish = (\<lambda>ex. bind_run (advance_a_little env ex) (grant_turns env (to_grant (qn_main q))))
      in if qn_threads q ! i = Ending then finish (qn_exec q)
         else bind_run (thread_turn env k i (qn_exec q)) finish)"
  using assms by (cases "qn_main q") (simp_all add: rest_of_round_def Let_def)

definition round_events :: "quantum_event set" where
  "round_events = {MainActs, WakesUp} \<union> range ThreadActs"

lemma rest_of_round_step:
  assumes "quantum_step env e q q'" "quantum_ok q" "e \<in> round_events" "qn_turn q \<noteq> TurnShutdown"
  shows "rest_of_round env q' = rest_of_round env q"
  using assms
proof (induction rule: quantum_step.induct)
  case (skips q i "is")
  then show ?case by (simp add: rest_of_round_def grant_turn_def)
next
  case (grants q i "is" k)
  then have "i < length (qn_threads q)" "waiting (qn_threads q ! i)"
    by (auto simp: quantum_ok_def split: option.splits if_splits)
  with grants show ?case
    by (auto simp: rest_of_round_def grant_turn_def main_grant_def bind_run_assoc notified_def waiting_def)
next
  case (waits q "is")
  then show ?case by (simp add: rest_of_round_def split: option.split)
next
  case (resumes q "is" ex)
  then show ?case by (simp add: rest_of_round_def)
next
  case (looks i q)
  then show ?case
    by (auto simp: rest_of_round_def wait_turn_granted nth_list_update Let_def
        split: option.splits main_pc.splits)
next
  case (turns i q k ex)
  then have "granted (qn_turn q) = Some (k, i)" "main_waits (qn_main q)"
    by (auto simp: quantum_ok_def waiting_def split: option.splits)
  with turns show ?case
    by (simp add: rest_granted)
next
  case (ends i q)
  then obtain k where "granted (qn_turn q) = Some (k, i)" "main_waits (qn_main q)"
    by (auto simp: quantum_ok_def waiting_def split: option.splits)
  with ends show ?case
    by (cases "qn_main q") (auto simp: rest_granted, auto simp: rest_of_round_def end_turn_def)
next
  case (thread_wakes i q)
  then show ?case
    by (auto simp: rest_of_round_def nth_list_update Let_def split: option.splits main_pc.splits)
next
  case (main_wakes q "is")
  then show ?case by (simp add: rest_of_round_def split: option.split)
next
  case (unwinds i q ex)
  then show ?case by (auto elim: quantum_ok_pc [of q i])
next
  case (leaves i q)
  then show ?case by (auto elim: quantum_ok_pc [of q i])
qed (auto simp: round_events_def)

lemma rest_of_round_run:
  assumes "quantum_run env q es q'" "quantum_ok q" "set es \<subseteq> round_events" "qn_turn q \<noteq> TurnShutdown"
  shows "rest_of_round env q' = rest_of_round env q"
  using assms
proof (induction rule: quantum_run.induct)
  case (run_step q es q' e q'')
  then have "MainShutsDown \<notin> set es" by (auto simp: round_events_def)
  with run_step have "quantum_ok q'" "qn_turn q' \<noteq> TurnShutdown"
    using quantum_run_ok quantum_run_shutdown by blast+
  with run_step show ?case using rest_of_round_step [of env e q' q''] by simp
qed simp

section \<open>A wake round ends\<close>

text \<open>
  A bound on the steps that a round can still take: a thread that is about to look at the turn looks
  once, and a grant is followed by the steps of the thread it wakes and by the main thread's return.
\<close>

definition stirs :: "thread_pc \<Rightarrow> nat" where
  "stirs pc = (if pc = Entering \<or> pc = Awake then 1 else 0)"

definition turn_weight :: "('g, 'c, 'p) quantum \<Rightarrow> nat" where
  "turn_weight q =
     (case granted (qn_turn q) of
        None \<Rightarrow> 0
      | Some (k, i) \<Rightarrow> if qn_threads q ! i = Ending then 3 else 4)"

definition main_weight :: "('g, 'c, 'p) quantum \<Rightarrow> nat" where
  "main_weight q =
     (case qn_main q of
        Granting is \<Rightarrow> 6 * length is
      | MainAsleep is \<Rightarrow> 6 * length is + turn_weight q
      | MainAwake is \<Rightarrow> Suc (6 * length is + turn_weight q)
      | _ \<Rightarrow> 0)"

definition round_weight :: "('g, 'c, 'p) quantum \<Rightarrow> nat" where
  "round_weight q = main_weight q + (\<Sum>j < length (qn_threads q). stirs (qn_threads q ! j))"

lemma sum_change:
  fixes f g :: "nat \<Rightarrow> nat"
  assumes "i < n" "\<And>j. j < n \<Longrightarrow> j \<noteq> i \<Longrightarrow> g j = f j"
  shows "sum g {..<n} + f i = sum f {..<n} + g i"
proof -
  have "sum g ({..<n} - {i}) = sum f ({..<n} - {i})"
    using assms(2) by (intro sum.cong) auto
  then show ?thesis
    using assms(1) by (simp add: sum.remove [of "{..<n}" i])
qed

lemma stirs_change:
  assumes "i < length pcs"
  shows "(\<Sum>j < length pcs. stirs (pcs[i := pc] ! j)) + stirs (pcs ! i) =
     (\<Sum>j < length pcs. stirs (pcs ! j)) + stirs pc"
  using sum_change [OF assms, of "\<lambda>j. stirs (pcs[i := pc] ! j)" "\<lambda>j. stirs (pcs ! j)"] assms by simp

lemma stirs_simps [simp]: "stirs Entering = 1" "stirs Awake = 1" "stirs Asleep = 0" "stirs (InTurn k) = 0"
    "stirs Ending = 0" "stirs InExit = 0" "stirs Exited = 0"
  by (simp_all add: stirs_def)

lemma round_weight_step:
  assumes "quantum_step env e q q'" "quantum_ok q" "e \<in> round_events" "qn_turn q \<noteq> TurnShutdown"
  shows "if e = WakesUp then round_weight q' \<le> Suc (round_weight q) else round_weight q' < round_weight q"
  using assms
proof (induction rule: quantum_step.induct)
  case (skips q i "is")
  then show ?case by (simp add: round_weight_def main_weight_def)
next
  case (grants q i "is" k)
  then have i: "i < length (qn_threads q)" "waiting (qn_threads q ! i)"
    by (auto simp: quantum_ok_def split: option.splits if_splits)
  moreover have "stirs (notified (qn_threads q ! i)) \<le> 1" "qn_threads q ! i \<noteq> Ending"
    using i by (auto simp: stirs_def)
  ultimately show ?case using grants stirs_change [OF i(1), of "notified (qn_threads q ! i)"]
    by (simp add: round_weight_def main_weight_def turn_weight_def main_grant_def notified_def)
next
  case (waits q "is")
  then show ?case by (simp add: round_weight_def main_weight_def turn_weight_def split: option.splits)
next
  case (resumes q "is" ex)
  then show ?case by (simp add: round_weight_def main_weight_def turn_weight_def)
next
  case (looks i q)
  have "stirs (wait_turn i (qn_turn q)) = 0" "stirs (qn_threads q ! i) = 1"
    using looks by (auto simp: wait_turn_granted split: option.split)
  with looks stirs_change [OF looks(1), of "wait_turn i (qn_turn q)"]
  have "(\<Sum>j < length (qn_threads q). stirs ((qn_threads q)[i := wait_turn i (qn_turn q)] ! j)) <
      (\<Sum>j < length (qn_threads q). stirs (qn_threads q ! j))" by simp
  moreover have "main_weight (set_pc i (wait_turn i (qn_turn q)) q) \<le> main_weight q"
    using looks by (auto simp: main_weight_def turn_weight_def wait_turn_granted nth_list_update
        split: option.split main_pc.split)
  ultimately show ?case by (simp add: round_weight_def)
next
  case (turns i q k ex)
  then have "granted (qn_turn q) = Some (k, i)" "main_waits (qn_main q)"
    by (auto elim: quantum_ok_pc [of q i])
  with turns stirs_change [OF turns(1), of Ending] show ?case
    by (cases "qn_main q") (simp_all add: round_weight_def main_weight_def turn_weight_def)
next
  case (ends i q)
  then obtain k where "granted (qn_turn q) = Some (k, i)" "main_waits (qn_main q)"
    by (auto elim: quantum_ok_pc [of q i])
  with ends stirs_change [OF ends(1), of Entering] show ?case
    by (cases "qn_main q") (simp_all add: round_weight_def main_weight_def turn_weight_def end_turn_def)
next
  case (thread_wakes i q)
  have "main_weight (set_pc i Awake q) \<le> main_weight q"
    using thread_wakes by (auto simp: main_weight_def turn_weight_def nth_list_update
        split: option.split main_pc.split)
  with thread_wakes stirs_change [OF thread_wakes(1), of Awake] show ?case
    by (simp add: round_weight_def)
next
  case (main_wakes q "is")
  then show ?case by (simp add: round_weight_def main_weight_def turn_weight_def split: option.splits)
next
  case (unwinds i q ex)
  then show ?case by (auto elim: quantum_ok_pc [of q i])
next
  case (leaves i q)
  then show ?case by (auto elim: quantum_ok_pc [of q i])
qed (auto simp: round_events_def)

lemma round_weight_run:
  assumes "quantum_run env q es q'" "quantum_ok q" "set es \<subseteq> round_events" "qn_turn q \<noteq> TurnShutdown"
  shows "length (filter (\<lambda>e. e \<noteq> WakesUp) es) + round_weight q' \<le> round_weight q + count_list es WakesUp"
  using assms
proof (induction rule: quantum_run.induct)
  case (run_step q es q' e q'')
  then have "MainShutsDown \<notin> set es" by (auto simp: round_events_def)
  with run_step have "quantum_ok q'" "qn_turn q' \<noteq> TurnShutdown"
    using quantum_run_ok quantum_run_shutdown by blast+
  with run_step round_weight_step [of env e q' q''] show ?case by (simp split: if_splits)
qed simp

lemma never_joined:
  assumes "quantum_run env q es q'" "set es \<subseteq> round_events" "qn_main q \<noteq> Joined"
  shows "qn_main q' \<noteq> Joined"
proof -
  have step: "qn_main q'' \<noteq> Joined"
    if "quantum_step env e q' q''" "e \<in> round_events" "qn_main q' \<noteq> Joined" for e q' q''
    using that
    by (induction rule: quantum_step.induct)
       (auto simp: round_events_def main_grant_def end_turn_def split: main_pc.split)
  from assms show ?thesis by (induction rule: quantum_run.induct) (auto dest: step)
qed

lemma nothing_after_join:
  assumes "quantum_run env q es q'" "qn_main q = Joined" "qn_threads q = []"
  shows "es = [] \<and> q' = q"
  using assms by (induction rule: quantum_run.induct) (auto elim: quantum_step.cases)

text \<open>As long as the round is not over and its work does not panic, some thread can act.\<close>

lemma round_progress:
  assumes "quantum_ok q" "qn_turn q \<noteq> TurnShutdown" "rest_of_round env q = Ret ex" "qn_main q \<noteq> Granting []"
    and "qn_main q \<noteq> Joined"
  shows "\<exists>e q'. e \<in> round_events \<and> e \<noteq> WakesUp \<and> quantum_step env e q q'"
proof (cases "granted (qn_turn q)")
  case None
  with assms(2) have idle: "qn_turn q = TurnIdle" by (simp add: granted_None)
  show ?thesis
  proof (cases "qn_main q")
    case (Granting "is")
    then obtain i js where "is": "is = i # js" using assms(4) by (cases "is") auto
    show ?thesis
      using Granting "is" skips [of q i js env] grants [of q i js _ env]
      by (cases "pick_turn i (qn_exec q)") (auto simp: round_events_def)
  next
    case (MainAwake "is")
    with assms(3) None obtain ex' where "advance_a_little env (qn_exec q) = Ret ex'"
      by (auto simp: rest_of_round_def bind_run_eq_Ret)
    from resumes [OF MainAwake idle this] show ?thesis by (auto simp: round_events_def)
  qed (use assms None in \<open>auto simp: quantum_ok_def\<close>)
next
  case (Some ki)
  then obtain k i where ki: "granted (qn_turn q) = Some (k, i)" by (cases ki) auto
  with assms(1,2) have i: "i < length (qn_threads q)" "main_waits (qn_main q)"
    "qn_threads q ! i \<in> {Entering, Awake, InTurn k, Ending}" by (auto simp: quantum_ok_def)
  show ?thesis
  proof (cases "qn_threads q ! i = InTurn k")
    case True
    with assms(3) ki i obtain ex' where "thread_turn env k i (qn_exec q) = Ret ex'"
      by (auto simp: rest_granted bind_run_eq_Ret)
    from turns [OF i(1) True this] show ?thesis by (auto simp: round_events_def)
  next
    case False
    with i looks [of i q env] ends [of i q env] show ?thesis by (auto simp: round_events_def)
  qed
qed

section \<open>The shutdown of the pool ends every thread\<close>

lemma abort_parked:
  assumes "qs_current (ex_pool ex) ! i = Some (job, j)"
  shows "\<exists>ex'. thread_turn env AbortTurn i ex = Ret ex' \<and>
     qs_current (ex_pool ex') = (qs_current (ex_pool ex))[i := None]"
  using assms by (simp add: thread_turn_def upd_pool_def)

text \<open>Steps a thread still takes; the second argument tells whether it is parked in a job.\<close>

fun exit_weight :: "thread_pc \<Rightarrow> bool \<Rightarrow> nat" where
  "exit_weight InExit parked = (if parked then 5 else 2)"
| "exit_weight Ending parked = (if parked then 7 else 4)"
| "exit_weight Exited parked = 0"
| "exit_weight _ parked = (if parked then 6 else 3)"

definition parked :: "('g, 'c, 'p) quantum \<Rightarrow> nat \<Rightarrow> bool" where
  "parked q i \<longleftrightarrow> qs_current (ex_pool (qn_exec q)) ! i \<noteq> None"

definition shutdown_weight :: "('g, 'c, 'p) quantum \<Rightarrow> nat" where
  "shutdown_weight q = (\<Sum>j < length (qn_threads q). exit_weight (qn_threads q ! j) (parked q j)) +
     (if qn_main q = Joining then 1 else 0)"

definition shutdown_ok :: "('g, 'c, 'p) quantum \<Rightarrow> bool" where
  "shutdown_ok q \<longleftrightarrow> quantum_ok q \<and> qn_turn q = TurnShutdown \<and>
     length (qs_current (ex_pool (qn_exec q))) = length (qn_threads q) \<and>
     (\<forall>j < length (qn_threads q). qn_threads q ! j = Exited \<longrightarrow> \<not> parked q j) \<and>
     (qn_main q = Joined \<longrightarrow> set (qn_threads q) \<subseteq> {Exited})"

lemma shutdown_weight_less:
  assumes "i < length (qn_threads q)" "qn_threads q' = (qn_threads q)[i := pc]" "qn_main q' = qn_main q"
    and "\<And>j. j \<noteq> i \<Longrightarrow> parked q' j = parked q j"
    and "exit_weight pc (parked q' i) < exit_weight (qn_threads q ! i) (parked q i)"
  shows "shutdown_weight q' < shutdown_weight q"
proof -
  have "(\<Sum>j < length (qn_threads q). exit_weight (qn_threads q' ! j) (parked q' j)) +
      exit_weight (qn_threads q ! i) (parked q i) =
      (\<Sum>j < length (qn_threads q). exit_weight (qn_threads q ! j) (parked q j)) +
      exit_weight (qn_threads q' ! i) (parked q' i)"
    using assms(1,2,4) by (intro sum_change) auto
  with assms show ?thesis by (simp add: shutdown_weight_def)
qed

lemma shutdown_step:
  assumes "quantum_step env e q q'" "shutdown_ok q"
  shows "shutdown_ok q' \<and> shutdown_weight q' < shutdown_weight q"
proof -
  have "quantum_ok q'"
    using assms quantum_step_ok by (auto simp: shutdown_ok_def)
  from assms have sd: "qn_turn q = TurnShutdown" "qn_main q \<in> {Joining, Joined}"
    and pcs: "\<And>j. j < length (qn_threads q) \<Longrightarrow> qn_threads q ! j \<noteq> Asleep \<and> (\<forall>k. qn_threads q ! j \<noteq> InTurn k)"
    and done_ok: "\<And>j. j < length (qn_threads q) \<Longrightarrow> qn_threads q ! j = Exited \<Longrightarrow> \<not> parked q j"
    and joined: "qn_main q = Joined \<Longrightarrow> set (qn_threads q) \<subseteq> {Exited}"
    and len: "length (qs_current (ex_pool (qn_exec q))) = length (qn_threads q)"
    by (auto simp: shutdown_ok_def quantum_ok_def)
  have live: "qn_main q = Joining" if "i < length (qn_threads q)" "qn_threads q ! i \<noteq> Exited" for i
    using sd(2) joined that by (auto dest: nth_mem)
  have ok: "shutdown_ok q'" if "qn_turn q' = TurnShutdown" "i < length (qn_threads q)" "qn_threads q ! i \<noteq> Exited"
      "qn_threads q' = (qn_threads q)[i := pc]" "qn_main q' = qn_main q"
      "qs_current (ex_pool (qn_exec q')) = qs_current (ex_pool (qn_exec q)) \<or>
       qs_current (ex_pool (qn_exec q')) = (qs_current (ex_pool (qn_exec q)))[i := None]"
      "pc = Exited \<longrightarrow> \<not> parked q' i" for i pc
    using that done_ok live [OF that(2,3)] len \<open>quantum_ok q'\<close>
    by (auto simp: shutdown_ok_def parked_def nth_list_update)
  from assms(1) show ?thesis
  proof (cases rule: quantum_step.cases)
    case (looks i)
    then show ?thesis using sd len ok [of i "wait_turn i (qn_turn q)"]
      by (intro conjI shutdown_weight_less [of i q _ InExit]) (auto simp: wait_turn_def parked_def)
  next
    case (turns i k ex)
    then show ?thesis using pcs by blast
  next
    case (ends i)
    then show ?thesis using sd len ok [of i Entering]
      by (intro conjI shutdown_weight_less [of i q _ Entering]) (auto simp: end_turn_def parked_def)
  next
    case (unwinds i ex)
    then obtain job j where "qs_current (ex_pool (qn_exec q)) ! i = Some (job, j)" by auto
    from abort_parked [OF this, of env] unwinds
    have cur: "qs_current (ex_pool ex) = (qs_current (ex_pool (qn_exec q)))[i := None]" by simp
    with unwinds show ?thesis using sd len ok [of i Ending]
      by (intro conjI shutdown_weight_less [of i q _ Ending]) (auto simp: parked_def)
  next
    case (leaves i)
    then show ?thesis using sd len ok [of i Exited]
      by (intro conjI shutdown_weight_less [of i q _ Exited]) (auto simp: parked_def)
  next
    case (thread_wakes i)
    then show ?thesis using pcs by blast
  next
    case joins
    then show ?thesis using assms(2) \<open>quantum_ok q'\<close> by (simp add: shutdown_ok_def shutdown_weight_def parked_def)
  qed (use sd in auto)
qed

lemma shutdown_run:
  assumes "quantum_run env q es q'" "shutdown_ok q"
  shows "shutdown_ok q' \<and> length es + shutdown_weight q' \<le> shutdown_weight q"
  using assms by (induction rule: quantum_run.induct) (force dest: shutdown_step)+

lemma shutdown_starts:
  assumes "quantum_ok q" "qn_main q = Granting []"
    and "length (qs_current (ex_pool (qn_exec q))) = length (qn_threads q)" "qn_threads q \<noteq> []"
  shows "shutdown_ok (pool_shutdown q) \<and> shutdown_weight (pool_shutdown q) \<le> 6 * length (qn_threads q) + 1"
proof -
  from assms(1,2) have w: "\<And>j. j < length (qn_threads q) \<Longrightarrow> waiting (qn_threads q ! j)"
    by (auto simp: quantum_ok_def split: option.splits if_splits)
  then have "notified (qn_threads q ! j) \<in> {Entering, Awake}" if "j < length (qn_threads q)" for j
    using that by (auto simp: notified_def waiting_def)
  then have n: "exit_weight (notified (qn_threads q ! j)) b \<le> 6" "notified (qn_threads q ! j) \<noteq> Exited"
    if "j < length (qn_threads q)" for j b
    using that by fastforce+
  have "quantum_ok (pool_shutdown q)"
    using assms(1,2) quantum_step_ok shuts_down by blast
  moreover have "(\<Sum>j < length (qn_threads q). exit_weight (notified (qn_threads q ! j)) (parked q j)) \<le>
      length (qn_threads q) * 6"
    using n(1) by (intro order_trans [OF sum_bounded_above [where K = 6]]) auto
  ultimately show ?thesis
    using assms(3,4) n(2) by (auto simp: shutdown_ok_def shutdown_weight_def pool_shutdown_def parked_def)
qed

lemma shutdown_progress:
  assumes "shutdown_ok q" "qn_main q \<noteq> Joined"
  shows "\<exists>e q'. e \<noteq> WakesUp \<and> quantum_step env e q q'"
proof (cases "\<exists>i < length (qn_threads q). qn_threads q ! i \<noteq> Exited")
  case True
  then obtain i where i: "i < length (qn_threads q)" "qn_threads q ! i \<noteq> Exited" by blast
  with assms(1) have "qn_threads q ! i \<in> {Entering, Awake, InExit, Ending}"
    by (cases "qn_threads q ! i") (auto simp: shutdown_ok_def quantum_ok_def dest!: nth_mem)
  then consider "qn_threads q ! i \<in> {Entering, Awake}" | "qn_threads q ! i = InExit" | "qn_threads q ! i = Ending"
    by blast
  then show ?thesis
  proof cases
    case 1
    then show ?thesis using looks [OF i(1), of env] by blast
  next
    case 2
    then show ?thesis
      using leaves [OF i(1) 2, of env] unwinds [OF i(1) 2, of env] abort_parked [of "qn_exec q" i _ _ env]
      by (cases "qs_current (ex_pool (qn_exec q)) ! i") fastforce+
  next
    case 3
    then show ?thesis using ends [OF i(1), of env] by blast
  qed
next
  case False
  then have "set (qn_threads q) \<subseteq> {Exited}" by (auto simp: in_set_conv_nth)
  moreover have "qn_main q = Joining"
    using assms by (auto simp: shutdown_ok_def quantum_ok_def)
  ultimately show ?thesis using joins [of q env] by blast
qed

section \<open>Executing steps\<close>

text \<open>The events that leave no choice, as a function; runs of it are runs of the step relation.\<close>

fun act :: "('g, 'f, 'c, 'p) env \<Rightarrow> quantum_event \<Rightarrow> ('g, 'c, 'p) quantum \<Rightarrow> ('g, 'c, 'p) quantum option" where
  "act env MainStarts q =
     (if qn_main q = Granting [] \<and> qn_threads q = [] then Some (ensure_started q) else None)"
| "act env MainActs q =
     (case qn_main q of
        Granting (i # is) \<Rightarrow>
          (case pick_turn i (qn_exec q) of
             None \<Rightarrow> Some (q\<lparr>qn_main := Granting is\<rparr>)
           | Some k \<Rightarrow> Some (main_grant k i is q))
      | MainAwake is \<Rightarrow>
          if qn_turn q \<noteq> TurnIdle then Some (q\<lparr>qn_main := MainAsleep is\<rparr>)
          else (case advance_a_little env (qn_exec q) of
                  Ret ex \<Rightarrow> Some (q\<lparr>qn_exec := ex, qn_main := Granting is\<rparr>)
                | Panic _ \<Rightarrow> None)
      | _ \<Rightarrow> None)"
| "act env (ThreadActs i) q =
     (if i < length (qn_threads q) then
        (case qn_threads q ! i of
           Entering \<Rightarrow> Some (set_pc i (wait_turn i (qn_turn q)) q)
         | Awake \<Rightarrow> Some (set_pc i (wait_turn i (qn_turn q)) q)
         | InTurn k \<Rightarrow> (case thread_turn env k i (qn_exec q) of
                           Ret ex \<Rightarrow> Some (set_pc i Ending (q\<lparr>qn_exec := ex\<rparr>)) | Panic _ \<Rightarrow> None)
         | Ending \<Rightarrow> Some (set_pc i Entering (end_turn q))
         | InExit \<Rightarrow>
             if qs_current (ex_pool (qn_exec q)) ! i = None then Some (set_pc i Exited q)
             else (case thread_turn env AbortTurn i (qn_exec q) of
                     Ret ex \<Rightarrow> Some (set_pc i Ending (q\<lparr>qn_exec := ex\<rparr>)) | Panic _ \<Rightarrow> None)
         | _ \<Rightarrow> None)
      else None)"
| "act env MainShutsDown q = (if qn_main q = Granting [] then Some (pool_shutdown q) else None)"
| "act env MainJoins q =
     (if qn_main q = Joining \<and> list_all (\<lambda>pc. pc = Exited) (qn_threads q)
      then Some (q\<lparr>qn_main := Joined\<rparr>) else None)"
| "act env _ q = None"

fun acts :: "('g, 'f, 'c, 'p) env \<Rightarrow> quantum_event list \<Rightarrow> ('g, 'c, 'p) quantum \<Rightarrow> ('g, 'c, 'p) quantum option" where
  "acts env [] q = Some q"
| "acts env (e # es) q = (case act env e q of None \<Rightarrow> None | Some q' \<Rightarrow> acts env es q')"

lemma act_step: "act env e q = Some q' \<Longrightarrow> quantum_step env e q q'"
  by (cases "(env, e, q)" rule: act.cases)
     (auto intro: quantum_step.intros simp: list_all_iff subset_iff
       split: if_splits main_pc.splits list.splits option.splits run.splits thread_pc.splits)

lemma quantum_run_trans:
  assumes "quantum_run env q' es' q''" "quantum_run env q es q'"
  shows "quantum_run env q (es @ es') q''"
  using assms
  by (induction rule: quantum_run.induct) (auto simp flip: append_assoc intro: quantum_run.intros)

lemma acts_run: "acts env es q = Some q' \<Longrightarrow> quantum_run env q es q'"
proof (induction es arbitrary: q)
  case (Cons e es)
  then obtain q1 where "act env e q = Some q1" "acts env es q1 = Some q'" by (auto split: option.splits)
  then have "quantum_run env q ([] @ [e]) q1" "quantum_run env q1 es q'"
    using Cons.IH run_step [OF run_stop act_step] by blast+
  from quantum_run_trans [OF this(2,1)] show ?case by simp
qed (auto intro: run_stop)

section \<open>Properties\<close>

text \<open>C20: at most one thread of the simulator runs at any moment before the pool is shut down: the
  main thread, while no turn is granted, or the pool thread whose turn it is.\<close>

theorem one_thread_runs:
  assumes "quantum_run env (quantum_new ex) es q" "MainShutsDown \<notin> set es"
  shows "card (running q) \<le> 1 \<and> (None \<in> running q \<longrightarrow> qn_turn q = TurnIdle) \<and>
    (\<forall>i. Some i \<in> running q \<longrightarrow> qn_turn q = TurnRun i \<or> qn_turn q = TurnAbort i)"
proof -
  have "quantum_ok q" using quantum_run_ok [OF assms(1)] quantum_ok_new by blast
  moreover have ns: "qn_turn q \<noteq> TurnShutdown"
    using quantum_run_shutdown [OF assms(1,2)] by (simp add: quantum_new_def)
  ultimately have r: "running q \<subseteq> (case granted (qn_turn q) of None \<Rightarrow> {None} | Some (k, i) \<Rightarrow> {Some i})"
    by (rule running_ok)
  show ?thesis
  proof (cases "granted (qn_turn q)")
    case None
    then have "running q \<subseteq> {None}" "qn_turn q = TurnIdle" using r ns by (auto simp: granted_None)
    then show ?thesis using card_mono [of "{None}" "running q"] by auto
  next
    case (Some ki)
    then obtain k i where "running q \<subseteq> {Some i}" "granted (qn_turn q) = Some (k, i)" using r by (cases ki) auto
    then show ?thesis using card_mono [of "{Some i}" "running q"] by (cases "qn_turn q") auto
  qed
qed

text \<open>C19: a wake round that runs on threads, in whatever order the scheduler lets them act and however
  often they wake for no reason, ends in the state that \<open>grant_turns\<close> computes, which the main
  loop's model takes for the round.\<close>

theorem wake_round_serial:
  assumes "quantum_run env (quantum_new ex) es q" "qn_main q = Granting is"
    and "quantum_run env q es' q'" "set es' \<subseteq> round_events" "qn_main q' = Granting []"
  shows "grant_turns env is (qn_exec q) = Ret (qn_exec q')"
proof -
  have "quantum_ok q" using quantum_run_ok [OF assms(1)] quantum_ok_new by blast
  moreover from this have "qn_turn q \<noteq> TurnShutdown" using assms(2) by (auto simp: quantum_ok_def)
  ultimately have "rest_of_round env q' = rest_of_round env q"
    using rest_of_round_run assms(3,4) by blast
  then show ?thesis using assms(2,5) by (simp add: rest_of_round_def)
qed

text \<open>C21: a wake round comes to its end: unless its work panics, as long as it is not over some thread
  can act without having to be woken for no reason, and the steps are bounded by the number of turns
  and threads, and of wake-ups for no reason.\<close>

theorem wake_round_ends:
  assumes "quantum_run env (quantum_new ex) es q" "qn_main q = Granting is"
    and "grant_turns env is (qn_exec q) = Ret ex'" "quantum_run env q es' q'" "set es' \<subseteq> round_events"
  shows "length (filter (\<lambda>e. e \<noteq> WakesUp) es') \<le>
      6 * length is + length (qn_threads q) + count_list es' WakesUp \<and>
    (if qn_main q' = Granting [] then qn_exec q' = ex'
     else \<exists>e q''. e \<in> round_events \<and> e \<noteq> WakesUp \<and> quantum_step env e q' q'')"
proof -
  have ok: "quantum_ok q" using quantum_run_ok [OF assms(1)] quantum_ok_new by blast
  then have ns: "qn_turn q \<noteq> TurnShutdown" using assms(2) by (auto simp: quantum_ok_def)
  have ns': "qn_turn q' \<noteq> TurnShutdown"
    using quantum_run_shutdown [OF assms(4)] assms(5) ns by (auto simp: round_events_def)
  have rest: "rest_of_round env q' = Ret ex'"
    using rest_of_round_run [OF assms(4) ok assms(5) ns] assms(2,3) by (simp add: rest_of_round_def)
  have "(\<Sum>j < length (qn_threads q). stirs (qn_threads q ! j)) \<le> length (qn_threads q) * 1"
    by (intro order_trans [OF sum_bounded_above [where K = 1]]) (auto simp: stirs_def)
  then have "round_weight q \<le> 6 * length is + length (qn_threads q)"
    using assms(2) by (simp add: round_weight_def main_weight_def)
  moreover have "qn_main q' \<noteq> Joined"
    using never_joined [OF assms(4)] assms(2,5) by auto
  ultimately show ?thesis
    using round_weight_run [OF assms(4) ok assms(5) ns] rest
      round_progress [OF quantum_run_ok [OF assms(4) ok] ns' rest]
    by (auto simp: rest_of_round_def)
qed

text \<open>C22: shutting the pool down ends it: every interleaving is finite, some thread can act until the
  main thread has joined them all, and then every thread has left and none is in a job.\<close>

theorem pool_shutdown_joins:
  assumes "quantum_run env (quantum_new ex) es q" "qn_main q = Granting []"
    and "length (qs_current (ex_pool (qn_exec q))) = length (qn_threads q)"
    and "quantum_run env (pool_shutdown q) es' q'"
  shows "length es' \<le> 6 * length (qn_threads q) + 1 \<and>
    (if qn_main q' = Joined
     then list_all (\<lambda>pc. pc = Exited) (qn_threads q') \<and>
       (qn_threads q \<noteq> [] \<longrightarrow> list_all (\<lambda>c. c = None) (qs_current (ex_pool (qn_exec q'))))
     else \<exists>e q''. e \<noteq> WakesUp \<and> quantum_step env e q' q'')"
proof (cases "qn_threads q = []")
  case True
  then have "es' = [] \<and> q' = pool_shutdown q"
    using assms(4) by (intro nothing_after_join) (auto simp: pool_shutdown_def)
  then show ?thesis using True by (simp add: pool_shutdown_def)
next
  case False
  have "quantum_ok q" using quantum_run_ok [OF assms(1)] quantum_ok_new by blast
  from shutdown_starts [OF this assms(2,3) False]
  have s: "shutdown_ok (pool_shutdown q)" "shutdown_weight (pool_shutdown q) \<le> 6 * length (qn_threads q) + 1"
    by blast+
  from shutdown_run [OF assms(4) s(1)] s(2)
  have s': "shutdown_ok q'" "length es' \<le> 6 * length (qn_threads q) + 1" by simp_all
  show ?thesis
  proof (cases "qn_main q' = Joined")
    case True
    with s'(1) have "\<forall>j < length (qn_threads q'). qn_threads q' ! j = Exited"
      by (auto simp: shutdown_ok_def subset_iff)
    with s'(1) have "\<forall>j < length (qn_threads q'). qn_threads q' ! j = Exited \<and> \<not> parked q' j"
      by (simp add: shutdown_ok_def)
    then show ?thesis using True s' by (simp add: shutdown_ok_def list_all_length parked_def del: not_None_eq)
  next
    case False
    then show ?thesis using shutdown_progress [OF s'(1)] s'(2) by simp
  qed
qed

section \<open>Witnesses\<close>

text \<open>Two threads, one of them in a job that ends in its next turn.\<close>

definition demo_idle :: "(nat, nat, unit) exec" where
  "demo_idle = upd_pool (\<lambda>p. p\<lparr>qs_current := [None, None], bp_started := False\<rparr>) demo_exec"

definition demo_round :: "(nat, nat, unit) quantum" where
  "demo_round = \<lparr>qn_turn = TurnIdle, qn_main = Granting [0], qn_threads = [Entering, Entering], qn_exec = demo_exec\<rparr>"

definition demo_end :: "(nat, nat, unit) quantum" where
  "demo_end = \<lparr>qn_turn = TurnIdle, qn_main = Granting [], qn_threads = [Entering, Entering], qn_exec = demo_exec\<rparr>"

lemma demo_started:
  "set is \<subseteq> {0, 1} \<Longrightarrow> quantum_run demo_env (quantum_new demo_idle) [MainStarts, MainWorks]
     \<lparr>qn_turn = TurnIdle, qn_main = Granting is, qn_threads = [Entering, Entering], qn_exec = demo_exec\<rparr>"
proof -
  assume "is": "set is \<subseteq> {0, 1}"
  have "quantum_run demo_env (quantum_new demo_idle) [MainStarts] (ensure_started (quantum_new demo_idle))"
    by (rule acts_run) (simp add: quantum_new_def)
  moreover have "quantum_step demo_env MainWorks (ensure_started (quantum_new demo_idle))
      ((ensure_started (quantum_new demo_idle))\<lparr>qn_exec := demo_exec, qn_main := Granting is\<rparr>)"
    using "is" by (intro works) (auto simp: ensure_started_def quantum_new_def demo_idle_def upd_pool_def)
  ultimately have "quantum_run demo_env (quantum_new demo_idle) ([MainStarts] @ [MainWorks])
      ((ensure_started (quantum_new demo_idle))\<lparr>qn_exec := demo_exec, qn_main := Granting is\<rparr>)"
    by (rule run_step)
  then show ?thesis
    by (simp add: ensure_started_def quantum_new_def demo_idle_def upd_pool_def numeral_2_eq_2)
qed

lemma demo_started_round: "quantum_run demo_env (quantum_new demo_idle) [MainStarts, MainWorks] demo_round"
  unfolding demo_round_def by (rule demo_started) simp

lemma demo_started_end: "quantum_run demo_env (quantum_new demo_idle) [MainStarts, MainWorks] demo_end"
  unfolding demo_end_def by (rule demo_started) simp

lemma demo_turn:
  obtains ex ex' where "thread_turn demo_env RunTurn 0 demo_exec = Ret ex" "advance_a_little demo_env ex = Ret ex'"
    "qs_current (ex_pool ex') = [None, None]"
  by (simp add: thread_turn_def run_job_def demo_simps job_result_def upd_pool_def note_complete_def
      advance_a_little_def exec_draw_def time_advance_def clock_advance_def rng_with_def gen_range_def demo_rng_def
      reset_abort_counter_def dur_add_def dur_max_def clock_new_def CLOCK_BASE_def ABORT_COUNTER_START_def Let_def)

lemma demo_pick: "pick_turn 0 demo_exec = Some RunTurn"
  by (simp add: pick_turn_def demo_simps info_of_def)

lemma demo_round_runs:
  "\<exists>q. quantum_run demo_env demo_round [MainActs, ThreadActs 1, ThreadActs 0, ThreadActs 0, ThreadActs 0, MainActs] q \<and>
     qn_main q = Granting [] \<and> qs_current (ex_pool (qn_exec q)) = [None, None]"
proof -
  obtain ex ex' where t: "thread_turn demo_env RunTurn 0 demo_exec = Ret ex" "advance_a_little demo_env ex = Ret ex'"
    "qs_current (ex_pool ex') = [None, None]" by (rule demo_turn)
  let ?q = "\<lparr>qn_turn = TurnIdle, qn_main = Granting [], qn_threads = [Entering, Asleep], qn_exec = ex'\<rparr>"
  have "acts demo_env [MainActs, ThreadActs 1, ThreadActs 0, ThreadActs 0, ThreadActs 0, MainActs] demo_round = Some ?q"
    by (simp add: demo_round_def demo_pick main_grant_def notify_thread_def set_pc_def notified_def take_turn_def
        wait_turn_def t end_turn_def notify_main_def)
  from acts_run [OF this] t(3) show ?thesis by (intro exI [of _ ?q]) simp
qed

theorem one_thread_runs_witness:
  "\<exists>q. quantum_run demo_env (quantum_new demo_idle) [MainStarts, MainWorks, MainActs, ThreadActs 0] q \<and>
     Some 0 \<in> running q \<and> card (running q) \<le> 1"
proof -
  let ?q = "\<lparr>qn_turn = TurnRun 0, qn_main = MainAsleep [], qn_threads = [InTurn RunTurn, Entering],
    qn_exec = demo_exec\<rparr>"
  have "acts demo_env [MainActs, ThreadActs 0] demo_round = Some ?q"
    by (simp add: demo_round_def demo_pick main_grant_def notify_thread_def set_pc_def notified_def take_turn_def
        wait_turn_def)
  from quantum_run_trans [OF acts_run [OF this] demo_started_round]
  have r: "quantum_run demo_env (quantum_new demo_idle) [MainStarts, MainWorks, MainActs, ThreadActs 0] ?q"
    by simp
  show ?thesis
    using one_thread_runs [OF r] r by (intro exI [of _ ?q]) (simp add: running_def)
qed

theorem wake_round_serial_witness:
  "\<exists>ex. grant_turns demo_env [0] demo_exec = Ret ex \<and> qs_current (ex_pool ex) = [None, None]"
proof -
  obtain q where q: "quantum_run demo_env demo_round
      [MainActs, ThreadActs 1, ThreadActs 0, ThreadActs 0, ThreadActs 0, MainActs] q" "qn_main q = Granting []"
    "qs_current (ex_pool (qn_exec q)) = [None, None]"
    using demo_round_runs by blast
  have "grant_turns demo_env [0] (qn_exec demo_round) = Ret (qn_exec q)"
    by (rule wake_round_serial [OF demo_started_round _ q(1) _ q(2)])
       (auto simp: demo_round_def round_events_def)
  with q(3) show ?thesis by (simp add: demo_round_def)
qed

theorem wake_round_ends_witness:
  "\<exists>e q. e \<in> round_events \<and> e \<noteq> WakesUp \<and> quantum_step demo_env e demo_round q"
proof -
  obtain ex ex' where t: "thread_turn demo_env RunTurn 0 demo_exec = Ret ex" "advance_a_little demo_env ex = Ret ex'"
    by (rule demo_turn)
  have "grant_turns demo_env [0] (qn_exec demo_round) = Ret ex'"
    by (simp add: demo_round_def grant_turn_def demo_pick take_turn_def t)
  from wake_round_ends [OF demo_started_round _ this run_stop] show ?thesis
    by (simp add: demo_round_def)
qed

lemma demo_shutdown_runs:
  "\<exists>q. quantum_run demo_env (pool_shutdown demo_end) [ThreadActs 0, ThreadActs 1, ThreadActs 0, ThreadActs 1,
       ThreadActs 0, ThreadActs 0, ThreadActs 0, MainJoins] q \<and> qn_main q = Joined"
proof -
  have c: "qs_current (ex_pool demo_exec) = [Some (3, 0), None]" by (simp add: demo_simps)
  obtain ex where t: "thread_turn demo_env AbortTurn 0 demo_exec = Ret ex" "qs_current (ex_pool ex) = [None, None]"
    using abort_parked [of demo_exec 0 3 0 demo_env] by (auto simp: c)
  let ?q = "\<lparr>qn_turn = TurnShutdown, qn_main = Joined, qn_threads = [Exited, Exited], qn_exec = ex\<rparr>"
  have "acts demo_env [ThreadActs 0, ThreadActs 1, ThreadActs 0, ThreadActs 1,
       ThreadActs 0, ThreadActs 0, ThreadActs 0, MainJoins] (pool_shutdown demo_end) = Some ?q"
    by (simp add: demo_end_def pool_shutdown_def notified_def set_pc_def wait_turn_def t c end_turn_def)
  from acts_run [OF this] show ?thesis by (intro exI [of _ ?q]) simp
qed

theorem pool_shutdown_joins_witness:
  "\<exists>q. qn_main q = Joined \<and> list_all (\<lambda>pc. pc = Exited) (qn_threads q) \<and>
     list_all (\<lambda>c. c = None) (qs_current (ex_pool (qn_exec (q :: (nat, nat, unit) quantum))))"
proof -
  obtain q where q: "quantum_run demo_env (pool_shutdown demo_end) [ThreadActs 0, ThreadActs 1, ThreadActs 0,
       ThreadActs 1, ThreadActs 0, ThreadActs 0, ThreadActs 0, MainJoins] q" "qn_main q = Joined"
    using demo_shutdown_runs by blast
  have "qn_main demo_end = Granting []"
    "length (qs_current (ex_pool (qn_exec demo_end))) = length (qn_threads demo_end)" "qn_threads demo_end \<noteq> []"
    by (simp_all add: demo_end_def demo_simps)
  with pool_shutdown_joins [OF demo_started_end _ _ q(1)] q(2) show ?thesis by auto
qed

end
