(* ===== verification/Tick_Interval.thy ===== *)
theory Tick_Interval
  imports Virtual_Time
begin

text \<open>
  \<open>msim/src/sim/time/interval.rs\<close>: the periodic timer. Its delay is a \<open>Sleep\<close> that each tick
  resets, by a rule that depends on whether the tick was missed by more than 5 ms.
\<close>

section \<open>State and operations\<close>

datatype missed_tick_behavior = Burst | Delay | Skip

definition missed_tick_default :: missed_tick_behavior where
  "missed_tick_default = Burst"

record interval =
  iv_delay :: sleep
  iv_period :: duration
  iv_behavior :: missed_tick_behavior

text \<open>\<open>as_nanos\<close> gives a \<open>u128\<close>; the remainder must fit the \<open>u64\<close> of \<open>from_nanos\<close>.\<close>

definition next_timeout ::
    "missed_tick_behavior \<Rightarrow> instant \<Rightarrow> instant \<Rightarrow> duration \<Rightarrow> instant run" where
  "next_timeout b timeout now period =
     (case b of
        Burst \<Rightarrow> instant_add timeout period
      | Delay \<Rightarrow> instant_add now period
      | Skip \<Rightarrow>
          bind_run (instant_add now period) (\<lambda>t.
            if period = 0 then Panic Overflow
            else let r = instant_diff now timeout mod period
                 in if r < 2 ^ 64 then instant_sub t r else Panic UnwrapNone))"

definition internal_interval_at :: "instant \<Rightarrow> duration \<Rightarrow> interval" where
  "internal_interval_at start period =
     \<lparr>iv_delay = sleep_until start, iv_period = period, iv_behavior = missed_tick_default\<rparr>"

definition interval_at :: "instant \<Rightarrow> duration \<Rightarrow> interval run" where
  "interval_at start period =
     bind_run (assert_run (0 < period) AssertFailed) (\<lambda>_. Ret (internal_interval_at start period))"

definition interval_now :: "duration \<Rightarrow> 'cb time_state \<Rightarrow> (interval \<times> 'cb time_state) run" where
  "interval_now period s =
     bind_run (assert_run (0 < period) AssertFailed) (\<lambda>_.
     bind_run (now_instant s) (\<lambda>(n, s). Ret (internal_interval_at n period, s)))"

definition tick_slack :: duration where
  "tick_slack = 5000000"

definition poll_tick ::
    "node_id \<Rightarrow> 'cb \<Rightarrow> interval \<Rightarrow> 'cb time_state \<Rightarrow> (instant poll \<times> interval \<times> 'cb time_state) run" where
  "poll_tick n wake iv s =
     bind_run (sleep_poll n wake (iv_delay iv) s) (\<lambda>(p, s).
       case p of
         Pending \<Rightarrow> Ret (Pending, iv, s)
       | Ready _ \<Rightarrow>
           let timeout = deadline (iv_delay iv) in
           bind_run (now_instant s) (\<lambda>(now, s).
           bind_run (instant_add timeout tick_slack) (\<lambda>late.
           bind_run (if late < now then next_timeout (iv_behavior iv) timeout now (iv_period iv)
                     else instant_add timeout (iv_period iv)) (\<lambda>next.
             Ret (Ready timeout, iv\<lparr>iv_delay := sleep_reset next (iv_delay iv)\<rparr>, s)))))"

definition interval_reset :: "interval \<Rightarrow> 'cb time_state \<Rightarrow> (interval \<times> 'cb time_state) run" where
  "interval_reset iv s =
     bind_run (now_instant s) (\<lambda>(n, s). bind_run (instant_add n (iv_period iv)) (\<lambda>d.
       Ret (iv\<lparr>iv_delay := sleep_reset d (iv_delay iv)\<rparr>, s)))"

definition interval_reset_immediately ::
    "interval \<Rightarrow> 'cb time_state \<Rightarrow> (interval \<times> 'cb time_state) run" where
  "interval_reset_immediately iv s =
     bind_run (now_instant s) (\<lambda>(n, s). Ret (iv\<lparr>iv_delay := sleep_reset n (iv_delay iv)\<rparr>, s))"

definition interval_reset_after ::
    "duration \<Rightarrow> interval \<Rightarrow> 'cb time_state \<Rightarrow> (interval \<times> 'cb time_state) run" where
  "interval_reset_after after iv s =
     bind_run (now_instant s) (\<lambda>(n, s). bind_run (instant_add n after) (\<lambda>d.
       Ret (iv\<lparr>iv_delay := sleep_reset d (iv_delay iv)\<rparr>, s)))"

definition interval_reset_at :: "instant \<Rightarrow> interval \<Rightarrow> interval" where
  "interval_reset_at d iv = iv\<lparr>iv_delay := sleep_reset d (iv_delay iv)\<rparr>"

definition set_missed_tick_behavior :: "missed_tick_behavior \<Rightarrow> interval \<Rightarrow> interval" where
  "set_missed_tick_behavior b iv = iv\<lparr>iv_behavior := b\<rparr>"

section \<open>Lemmas\<close>

lemma instant_add_Ret: "instant_add i d = Ret r \<longleftrightarrow> r = i + int d \<and> instant_ok r"
  by (auto simp: instant_simps)

lemma instant_sub_Ret: "instant_sub i d = Ret r \<longleftrightarrow> r = i - int d \<and> instant_ok r"
  by (auto simp: instant_simps)

lemma next_timeout_skip:
  assumes "timeout \<le> now" "next_timeout Skip timeout now period = Ret r"
  shows "now < r" "r \<le> now + int period" "int period dvd r - timeout"
proof -
  from assms(2) have p: "0 < period" and r: "r = now + int period - int (nat (now - timeout) mod period)"
    by (auto simp: next_timeout_def instant_add_Ret instant_sub_Ret instant_diff_nat Let_def
        split: if_splits)
  have m: "int (nat (now - timeout) mod period) = (now - timeout) mod int period"
    using assms(1) by (simp add: zmod_int)
  have "(now - timeout) mod int period < int period" "0 \<le> (now - timeout) mod int period"
    using p by simp_all
  then show "now < r" "r \<le> now + int period" by (simp_all add: r m)
  have "r - timeout = ((now - timeout) - (now - timeout) mod int period) + int period"
    by (simp add: r m)
  also have "int period dvd \<dots>"
    by (simp add: dvd_minus_mod)
  finally show "int period dvd r - timeout" .
qed

lemma sleep_poll_Ready:
  assumes "sleep_poll n wake sl s = Ret (Ready u, s')"
  shows "deadline sl \<le> base_instant (th_clock s) + int (elapsed_time (th_clock s)) \<and>
    base_instant (th_clock s') = base_instant (th_clock s) \<and>
    elapsed_time (th_clock s') = elapsed_time (th_clock s)"
  using assms by (auto simp: sleep_poll_def sleep_is_elapsed_def now_instant_Ret split: if_splits)

section \<open>Properties\<close>

text \<open>A tick reports the instant it was scheduled for, never before that instant, and always
  schedules the next one later: one period on when the tick was on time or the behaviour is
  \<open>Burst\<close>; one period from now for a missed tick under \<open>Delay\<close>; and for a missed tick under
  \<open>Skip\<close> at the first instant after now that is a whole number of periods from the missed one.\<close>

theorem poll_tick_schedule:
  fixes iv :: interval
  defines "d \<equiv> deadline (iv_delay iv)"
  assumes "poll_tick n wake iv s = Ret (Ready t, iv', s')" "0 < iv_period iv"
    and "now = base_instant (th_clock s) + int (elapsed_time (th_clock s))"
  shows "t = d \<and> d \<le> now \<and> d + int (iv_period iv) \<le> deadline (iv_delay iv') \<and>
    iv_period iv' = iv_period iv \<and> iv_behavior iv' = iv_behavior iv \<and>
    (if now \<le> d + 5000000 \<or> iv_behavior iv = Burst
     then deadline (iv_delay iv') = d + int (iv_period iv)
     else if iv_behavior iv = Delay then deadline (iv_delay iv') = now + int (iv_period iv)
     else now < deadline (iv_delay iv') \<and> deadline (iv_delay iv') \<le> now + int (iv_period iv) \<and>
       int (iv_period iv) dvd deadline (iv_delay iv') - d)"
proof -
  from assms(2) obtain u s1 where sp: "sleep_poll n wake (iv_delay iv) s = Ret (Ready u, s1)"
    by (cases "sleep_poll n wake (iv_delay iv) s") (auto simp: poll_tick_def split: poll.splits)
  note rdy = sleep_poll_Ready [OF sp]
  from assms(2) obtain nx where t: "t = d" and iv': "iv' = iv\<lparr>iv_delay := sleep_reset nx (iv_delay iv)\<rparr>"
    and nx: "(if d + 5000000 < now then next_timeout (iv_behavior iv) d now (iv_period iv)
       else instant_add d (iv_period iv)) = Ret nx"
    using rdy by (auto simp: poll_tick_def sp now_instant_Ret instant_add_Ret tick_slack_def d_def
        assms(4) Let_def cong: if_cong)
  have le: "d \<le> now" using rdy by (simp add: d_def assms(4))
  show ?thesis
  proof (cases "d + 5000000 < now \<and> iv_behavior iv = Skip")
    case True
    then have "next_timeout Skip d now (iv_period iv) = Ret nx" using nx by simp
    note skip = next_timeout_skip [OF le this]
    have "int (iv_period iv) \<le> nx - d"
      using skip le by (intro zdvd_imp_le) auto
    with True skip le t show ?thesis by (simp add: iv' sleep_reset_def)
  next
    case False
    then show ?thesis
      using nx le t by (cases "iv_behavior iv")
        (auto simp: iv' sleep_reset_def next_timeout_def instant_add_Ret split: if_splits)
  qed
qed

definition demo_interval :: interval where
  "demo_interval = \<lparr>iv_delay = sleep_until 3, iv_period = 10000000, iv_behavior = Skip\<rparr>"

theorem poll_tick_schedule_witness:
  "\<exists>iv' s'. poll_tick 2 (7::nat) demo_interval
       (demo_time\<lparr>th_clock := (th_clock demo_time)\<lparr>elapsed_time := 25000000\<rparr>\<rparr>) = Ret (Ready 3, iv', s') \<and>
     25000000 < deadline (iv_delay iv') \<and> 10000000 dvd deadline (iv_delay iv') - 3"
proof -
  let ?s = "demo_time\<lparr>th_clock := (th_clock demo_time)\<lparr>elapsed_time := 25000000\<rparr>\<rparr>"
  obtain iv' s' where p: "poll_tick 2 (7::nat) demo_interval ?s = Ret (Ready 3, iv', s')"
    by (simp add: poll_tick_def sleep_poll_def sleep_is_elapsed_def now_instant_def
        clock_now_instant_def check_abort_def demo_time_def clock_new_def ABORT_COUNTER_START_def
        instant_simps instant_ok_def demo_interval_def sleep_until_def tick_slack_def
        next_timeout_def Let_def)
  from poll_tick_schedule [OF p, of 25000000] p show ?thesis
    by (simp add: demo_interval_def demo_time_def clock_new_def sleep_until_def)
qed

end
