(* ===== verification/Fs.thy ===== *)
theory Fs
  imports Sim_Prelude
begin

text \<open>
  The file system simulator of \<open>msim/src/sim/fs.rs\<close>: for every node a table from paths to
  inodes, and files that share an inode. An operation gives its outcome together with the file
  system it leaves, also when it panics, since a panic in a critical section poisons the lock it
  holds: every later \<open>lock().unwrap()\<close> on it panics. Overflow checks are on, and \<open>usize\<close> has 64
  bits. Paths are compared by their components, as \<open>PathBuf\<close> does.
\<close>

section \<open>State\<close>

type_synonym path = "string list"

record inode =
  in_path :: path
  in_data :: "u8 list"
  in_poisoned :: bool

record fs_node =
  fn_files :: "path \<rightharpoonup> nat"
  fn_poisoned :: bool

record fs_sim =
  fs_handles :: "node_id \<rightharpoonup> fs_node"
  fs_poisoned :: bool
  fs_inodes :: "nat \<Rightarrow> inode"
  fs_next :: nat

record fs_file =
  f_inode :: nat
  can_write :: bool

type_synonym 'a fs_result = "'a run \<times> fs_sim"

text \<open>Sequencing: a panic keeps the state it happened in.\<close>

definition fs_bind :: "'a fs_result \<Rightarrow> ('a \<Rightarrow> fs_sim \<Rightarrow> 'b fs_result) \<Rightarrow> 'b fs_result" where
  "fs_bind m f = (case m of (Ret x, fs) \<Rightarrow> f x fs | (Panic p, fs) \<Rightarrow> (Panic p, fs))"

definition upd_inode :: "nat \<Rightarrow> (inode \<Rightarrow> inode) \<Rightarrow> fs_sim \<Rightarrow> fs_sim" where
  "upd_inode i f fs = fs\<lparr>fs_inodes := (fs_inodes fs)(i := f (fs_inodes fs i))\<rparr>"

definition upd_handle :: "node_id \<Rightarrow> (fs_node \<Rightarrow> fs_node) \<Rightarrow> fs_sim \<Rightarrow> fs_sim" where
  "upd_handle n f fs = fs\<lparr>fs_handles := (fs_handles fs)(n := map_option f (fs_handles fs n))\<rparr>"

definition poison_node :: "node_id \<Rightarrow> fs_sim \<Rightarrow> fs_sim" where
  "poison_node n = upd_handle n (\<lambda>h. h\<lparr>fn_poisoned := True\<rparr>)"

section \<open>The simulator\<close>

definition fs_node_new :: fs_node where
  "fs_node_new = \<lparr>fn_files = Map.empty, fn_poisoned = False\<rparr>"

definition inode_new :: "path \<Rightarrow> inode" where
  "inode_new p = \<lparr>in_path = p, in_data = [], in_poisoned = False\<rparr>"

definition fs_sim_new :: fs_sim where
  "fs_sim_new =
     \<lparr>fs_handles = Map.empty, fs_poisoned = False, fs_inodes = (\<lambda>_. inode_new []), fs_next = 0\<rparr>"

definition lock_handles :: "fs_sim \<Rightarrow> unit fs_result" where
  "lock_handles fs = (assert_run (\<not> fs_poisoned fs) Poisoned, fs)"

definition fs_create_node :: "node_id \<Rightarrow> fs_sim \<Rightarrow> unit fs_result" where
  "fs_create_node n fs =
     fs_bind (lock_handles fs) (\<lambda>_ fs.
       (Ret (), fs\<lparr>fs_handles := (fs_handles fs)(n \<mapsto> fs_node_new)\<rparr>))"

definition power_fail :: "node_id \<Rightarrow> fs_sim \<Rightarrow> unit fs_result" where
  "power_fail n fs = (Ret (), fs)"

definition fs_reset_node :: "node_id \<Rightarrow> fs_sim \<Rightarrow> unit fs_result" where
  "fs_reset_node n fs = power_fail n fs"

definition fs_delete_node :: "node_id \<Rightarrow> fs_sim \<Rightarrow> unit fs_result" where
  "fs_delete_node n fs =
     fs_bind (lock_handles fs) (\<lambda>_ fs.
       (Ret (), fs\<lparr>fs_handles := (fs_handles fs)(n := None)\<rparr>))"

text \<open>Indexing the table while its lock is held poisons the lock when there is no such node.\<close>

definition fs_get_node :: "node_id \<Rightarrow> fs_sim \<Rightarrow> fs_node fs_result" where
  "fs_get_node n fs =
     fs_bind (lock_handles fs) (\<lambda>_ fs.
       case fs_handles fs n of
         None \<Rightarrow> (Panic KeyMissing, fs\<lparr>fs_poisoned := True\<rparr>)
       | Some h \<Rightarrow> (Ret h, fs))"

text \<open>\<open>fs.lock().unwrap()\<close> on the table of files of node \<open>n\<close>.\<close>

definition lock_files :: "node_id \<Rightarrow> fs_sim \<Rightarrow> (path \<rightharpoonup> nat) fs_result" where
  "lock_files n fs =
     fs_bind (fs_get_node n fs) (\<lambda>h fs.
       if fn_poisoned h then (Panic Poisoned, fs) else (Ret (fn_files h), fs))"

definition inode_metadata :: "nat \<Rightarrow> fs_sim \<Rightarrow> nat run" where
  "inode_metadata i fs =
     bind_run (assert_run (\<not> in_poisoned (fs_inodes fs i)) Poisoned) (\<lambda>_.
       Ret (length (in_data (fs_inodes fs i))))"

definition inode_truncate :: "nat \<Rightarrow> fs_sim \<Rightarrow> unit fs_result" where
  "inode_truncate i fs =
     (if in_poisoned (fs_inodes fs i) then (Panic Poisoned, fs)
      else (Ret (), upd_inode i (\<lambda>d. d\<lparr>in_data := []\<rparr>) fs))"

text \<open>\<open>FsNodeHandle::open\<close>, \<open>create\<close> and \<open>metadata\<close> of the current node \<open>n\<close>.\<close>

definition fs_open :: "node_id \<Rightarrow> path \<Rightarrow> fs_sim \<Rightarrow> fs_file io_result fs_result" where
  "fs_open n p fs =
     fs_bind (lock_files n fs) (\<lambda>m fs.
       case m p of
         None \<Rightarrow> (Ret (Err NotFound), fs)
       | Some i \<Rightarrow> (Ret (Ok \<lparr>f_inode = i, can_write = False\<rparr>), fs))"

definition new_file :: "node_id \<Rightarrow> path \<Rightarrow> fs_sim \<Rightarrow> fs_sim" where
  "new_file n p fs =
     upd_handle n (\<lambda>h. h\<lparr>fn_files := (fn_files h)(p \<mapsto> fs_next fs)\<rparr>)
       (fs\<lparr>fs_inodes := (fs_inodes fs)(fs_next fs := inode_new p), fs_next := Suc (fs_next fs)\<rparr>)"

definition fs_create :: "node_id \<Rightarrow> path \<Rightarrow> fs_sim \<Rightarrow> fs_file io_result fs_result" where
  "fs_create n p fs =
     fs_bind (lock_files n fs) (\<lambda>m fs.
       case m p of
         Some i \<Rightarrow>
           (case inode_truncate i fs of
              (Ret _, fs) \<Rightarrow> (Ret (Ok \<lparr>f_inode = i, can_write = True\<rparr>), fs)
            | (Panic e, fs) \<Rightarrow> (Panic e, poison_node n fs))
       | None \<Rightarrow> (Ret (Ok \<lparr>f_inode = fs_next fs, can_write = True\<rparr>), new_file n p fs))"

definition fs_metadata :: "node_id \<Rightarrow> path \<Rightarrow> fs_sim \<Rightarrow> nat io_result fs_result" where
  "fs_metadata n p fs =
     fs_bind (lock_files n fs) (\<lambda>m fs.
       case m p of
         None \<Rightarrow> (Ret (Err NotFound), fs)
       | Some i \<Rightarrow>
           (case inode_metadata i fs of
              Ret l \<Rightarrow> (Ret (Ok l), fs)
            | Panic e \<Rightarrow> (Panic e, poison_node n fs)))"

definition get_file_size :: "node_id \<Rightarrow> path \<Rightarrow> fs_sim \<Rightarrow> nat io_result fs_result" where
  "get_file_size n p fs = fs_metadata n p fs"

section \<open>Files\<close>

definition add_usize :: "u64 \<Rightarrow> nat \<Rightarrow> nat run" where
  "add_usize a b = (if unat a + b < 2 ^ 64 then Ret (unat a + b) else Panic Overflow)"

definition sub_usize :: "nat \<Rightarrow> u64 \<Rightarrow> nat run" where
  "sub_usize a b = (if unat b \<le> a then Ret (a - unat b) else Panic Overflow)"

text \<open>The common range: the end of the overlap with the data, and its length.\<close>

definition overlap :: "u8 list \<Rightarrow> nat \<Rightarrow> u64 \<Rightarrow> (nat \<times> nat) run" where
  "overlap data blen off =
     bind_run (add_usize off blen) (\<lambda>e.
       let e = min (length data) e in bind_run (sub_usize e off) (\<lambda>l. Ret (e, l)))"

text \<open>
  \<open>File::read_at\<close>: the number of bytes, and the buffer it leaves. A panic while only reading
  does not poison the lock.
\<close>

definition read_at :: "fs_file \<Rightarrow> u8 list \<Rightarrow> u64 \<Rightarrow> fs_sim \<Rightarrow> (nat \<times> u8 list) io_result run" where
  "read_at f buf off fs =
     bind_run (assert_run (\<not> in_poisoned (fs_inodes fs (f_inode f))) Poisoned) (\<lambda>_.
       let data = in_data (fs_inodes fs (f_inode f)) in
       bind_run (overlap data (length buf) off) (\<lambda>(e, l).
         Ret (Ok (l, take l (drop (unat off) data) @ drop l buf))))"

definition write_data :: "u8 list \<Rightarrow> u64 \<Rightarrow> nat \<times> nat \<Rightarrow> u8 list \<Rightarrow> u8 list" where
  "write_data buf off r data =
     (case r of (e, l) \<Rightarrow>
        let data = take (unat off) data @ take l buf @ drop e data in
        if l < length buf then data @ drop l buf else data)"

definition write_all_at :: "fs_file \<Rightarrow> u8 list \<Rightarrow> u64 \<Rightarrow> fs_sim \<Rightarrow> unit io_result fs_result" where
  "write_all_at f buf off fs =
     (if \<not> can_write f then (Ret (Err PermissionDenied), fs)
      else if in_poisoned (fs_inodes fs (f_inode f)) then (Panic Poisoned, fs)
      else case overlap (in_data (fs_inodes fs (f_inode f))) (length buf) off of
          Panic e \<Rightarrow> (Panic e, upd_inode (f_inode f) (\<lambda>d. d\<lparr>in_poisoned := True\<rparr>) fs)
        | Ret r \<Rightarrow>
            (Ret (Ok ()), upd_inode (f_inode f) (\<lambda>d. d\<lparr>in_data := write_data buf off r (in_data d)\<rparr>) fs))"

text \<open>
  \<open>Vec::resize\<close>, which panics with a capacity overflow beyond \<open>isize::MAX\<close> bytes; an allocation
  that merely fails aborts the process and is not modelled.
\<close>

definition resize :: "nat \<Rightarrow> 'a \<Rightarrow> 'a list \<Rightarrow> 'a list run" where
  "resize n x xs =
     (if n \<le> length xs then Ret (take n xs)
      else if n < 2 ^ 63 then Ret (xs @ replicate (n - length xs) x) else Panic Overflow)"

definition set_len :: "fs_file \<Rightarrow> u64 \<Rightarrow> fs_sim \<Rightarrow> unit io_result fs_result" where
  "set_len f len fs =
     (if in_poisoned (fs_inodes fs (f_inode f)) then (Panic Poisoned, fs)
      else case resize (unat len) 0 (in_data (fs_inodes fs (f_inode f))) of
          Panic e \<Rightarrow> (Panic e, upd_inode (f_inode f) (\<lambda>d. d\<lparr>in_poisoned := True\<rparr>) fs)
        | Ret xs \<Rightarrow> (Ret (Ok ()), upd_inode (f_inode f) (\<lambda>d. d\<lparr>in_data := xs\<rparr>) fs))"

definition sync_all :: "fs_file \<Rightarrow> fs_sim \<Rightarrow> unit io_result run" where
  "sync_all f fs = Ret (Ok ())"

definition file_metadata :: "fs_file \<Rightarrow> fs_sim \<Rightarrow> nat io_result run" where
  "file_metadata f fs = bind_run (inode_metadata (f_inode f) fs) (\<lambda>l. Ret (Ok l))"

text \<open>\<open>fs::read\<close>: the whole file at once.\<close>

definition fs_read :: "node_id \<Rightarrow> path \<Rightarrow> fs_sim \<Rightarrow> u8 list io_result fs_result" where
  "fs_read n p fs =
     fs_bind (fs_open n p fs) (\<lambda>r fs.
       case r of
         Err e \<Rightarrow> (Ret (Err e), fs)
       | Ok f \<Rightarrow>
           (bind_run (assert_run (\<not> in_poisoned (fs_inodes fs (f_inode f))) Poisoned)
              (\<lambda>_. Ret (Ok (in_data (fs_inodes fs (f_inode f))))), fs))"

section \<open>Runs\<close>

text \<open>
  The operations of a run, with the files each node has opened: a task of a node uses the files of
  its own node only.
\<close>

datatype fs_op =
    FsCreateNode node_id | FsResetNode node_id | FsDeleteNode node_id
  | FsOpen node_id path | FsCreate node_id path | FsRead node_id path | FsMetadata node_id path
  | FsWrite node_id fs_file "u8 list" u64 | FsSetLen node_id fs_file u64

definition keep_file :: "node_id \<Rightarrow> fs_file io_result fs_result \<Rightarrow> (node_id \<times> fs_file) set \<Rightarrow> (node_id \<times> fs_file) set \<times> fs_sim" where
  "keep_file n r held =
     (case r of (Ret (Ok f), fs) \<Rightarrow> (insert (n, f) held, fs) | (_, fs) \<Rightarrow> (held, fs))"

primrec fs_step :: "fs_op \<Rightarrow> (node_id \<times> fs_file) set \<times> fs_sim \<Rightarrow> (node_id \<times> fs_file) set \<times> fs_sim" where
  "fs_step (FsCreateNode n) w = (fst w, snd (fs_create_node n (snd w)))"
| "fs_step (FsResetNode n) w = (fst w, snd (fs_reset_node n (snd w)))"
| "fs_step (FsDeleteNode n) w = (fst w, snd (fs_delete_node n (snd w)))"
| "fs_step (FsOpen n p) w = keep_file n (fs_open n p (snd w)) (fst w)"
| "fs_step (FsCreate n p) w = keep_file n (fs_create n p (snd w)) (fst w)"
| "fs_step (FsRead n p) w = (fst w, snd (fs_read n p (snd w)))"
| "fs_step (FsMetadata n p) w = (fst w, snd (fs_metadata n p (snd w)))"
| "fs_step (FsWrite n f buf off) w =
     (fst w, if (n, f) \<in> fst w then snd (write_all_at f buf off (snd w)) else snd w)"
| "fs_step (FsSetLen n f len) w =
     (fst w, if (n, f) \<in> fst w then snd (set_len f len (snd w)) else snd w)"

definition fs_run :: "fs_op list \<Rightarrow> (node_id \<times> fs_file) set \<times> fs_sim \<Rightarrow> (node_id \<times> fs_file) set \<times> fs_sim" where
  "fs_run ops w = fold fs_step ops w"

end
