(* ===== verification/Fs_Facts.thy ===== *)
theory Fs_Facts
  imports Fs
begin

text \<open>
  Facts about the file system simulator: what a write leaves to be read, that the nodes' file
  systems do not share files, and what an access beyond the end of a file does.
\<close>

section \<open>Reading and writing\<close>

lemma overlap_Ret:
  "overlap data b off = Ret (e, l) \<longleftrightarrow>
     unat off + b < 2 ^ 64 \<and> unat off \<le> length data \<and> e = min (length data) (unat off + b) \<and>
     l = e - unat off"
  by (auto simp: overlap_def add_usize_def sub_usize_def Let_def)

lemma write_data_spec:
  assumes "overlap data (length buf) off = Ret r"
  shows "write_data buf off r data =
    take (unat off) data @ buf @ drop (unat off + length buf) data"
proof -
  obtain e l where r: "r = (e, l)"
    by (cases r)
  have o: "unat off \<le> length data" "e = min (length data) (unat off + length buf)" "l = e - unat off"
    using assms unfolding r overlap_Ret by auto
  show ?thesis
  proof (cases "unat off + length buf \<le> length data")
    case True
    then show ?thesis
      by (simp add: r write_data_def o min_def Let_def)
  next
    case False
    then have "e = length data"
      by (simp add: o)
    then have "drop e data = []" and "drop (unat off + length buf) data = []"
      using False by simp_all
    then show ?thesis
      using False by (simp add: r write_data_def Let_def)
  qed
qed

lemma nth_overwrite:
  assumes "i \<le> length data" and "j < max (length data) (i + length buf)"
  shows "(take i data @ buf @ drop (i + length buf) data) ! j =
    (if i \<le> j \<and> j < i + length buf then buf ! (j - i) else data ! j)"
  using assms by (auto simp: nth_append min_def add.commute)

lemma write_all_at_Ok:
  assumes "write_all_at f buf off fs = (Ret (Ok u), fs')"
  shows "can_write f \<and> \<not> in_poisoned (fs_inodes fs (f_inode f)) \<and>
    unat off + length buf < 2 ^ 64 \<and> unat off \<le> length (in_data (fs_inodes fs (f_inode f))) \<and>
    fs' = upd_inode (f_inode f) (\<lambda>d. d\<lparr>in_data := take (unat off) (in_data d) @ buf @
      drop (unat off + length buf) (in_data d)\<rparr>) fs"
proof -
  let ?d = "in_data (fs_inodes fs (f_inode f))"
  obtain r where w: "can_write f" "\<not> in_poisoned (fs_inodes fs (f_inode f))"
    and r: "overlap ?d (length buf) off = Ret r"
    and fs': "fs' = upd_inode (f_inode f) (\<lambda>d. d\<lparr>in_data := write_data buf off r (in_data d)\<rparr>) fs"
    using assms by (auto simp: write_all_at_def split: if_splits run.splits)
  obtain e l where "r = (e, l)"
    by (cases r)
  then have "unat off + length buf < 2 ^ 64 \<and> unat off \<le> length ?d"
    using r by (simp add: overlap_Ret)
  then show ?thesis
    using w by (simp add: fs' upd_inode_def write_data_spec [OF r])
qed

lemma read_at_Ok:
  "read_at f rbuf off fs = Ret (Ok (l, out)) \<longleftrightarrow>
     (let data = in_data (fs_inodes fs (f_inode f)) in
      \<not> in_poisoned (fs_inodes fs (f_inode f)) \<and> unat off + length rbuf < 2 ^ 64 \<and>
      unat off \<le> length data \<and> l = min (length data - unat off) (length rbuf) \<and>
      out = take l (drop (unat off) data) @ drop l rbuf)"
  by (auto simp: read_at_def Let_def overlap_Ret run_simps min_def split: if_splits)

section \<open>Nodes do not share files\<close>

text \<open>
  Every inode belongs to one node, \<open>own\<close> says which: the tables point to inodes of their own node
  only, and a node holds files of its own inodes only. Numbers from \<open>fs_next\<close> on are unused.
\<close>

definition fs_inv :: "(nat \<Rightarrow> node_id) \<Rightarrow> (node_id \<times> fs_file) set \<times> fs_sim \<Rightarrow> bool" where
  "fs_inv own w \<longleftrightarrow>
     (\<forall>n h p i. fs_handles (snd w) n = Some h \<longrightarrow> fn_files h p = Some i \<longrightarrow>
        own i = n \<and> i < fs_next (snd w)) \<and>
     (\<forall>n f. (n, f) \<in> fst w \<longrightarrow> own (f_inode f) = n \<and> f_inode f < fs_next (snd w))"

definition op_node :: "fs_op \<Rightarrow> node_id" where
  "op_node x = (case x of FsCreateNode n \<Rightarrow> n | FsResetNode n \<Rightarrow> n | FsDeleteNode n \<Rightarrow> n
     | FsOpen n _ \<Rightarrow> n | FsCreate n _ \<Rightarrow> n | FsRead n _ \<Rightarrow> n | FsMetadata n _ \<Rightarrow> n
     | FsWrite n _ _ _ \<Rightarrow> n | FsSetLen n _ _ \<Rightarrow> n)"

text \<open>
  What a step by node \<open>n\<close> may do: new inodes get fresh numbers and belong to \<open>n\<close>; it changes
  inodes of \<open>n\<close> only; what its tables and files refer to stays within \<open>n\<close>.
\<close>

definition fs_frame :: "(nat \<Rightarrow> node_id) \<Rightarrow> node_id \<Rightarrow> fs_sim \<Rightarrow> fs_sim \<Rightarrow> bool" where
  "fs_frame own n fs fs' \<longleftrightarrow>
     (\<forall>i < fs_next fs. own i \<noteq> n \<longrightarrow> fs_inodes fs' i = fs_inodes fs i)"

lemma fs_frame_refl [simp]: "fs_frame own n fs fs"
  by (simp add: fs_frame_def)

lemmas fs_ops = fs_bind_def lock_handles_def fs_get_node_def lock_files_def assert_run_def
  poison_node_def upd_handle_def upd_inode_def

lemma lock_files_cases:
  obtains (locked) h where "lock_files n fs = (Ret (fn_files h), fs)" "fs_handles fs n = Some h"
  | (panicked) e b where "lock_files n fs = (Panic e, fs\<lparr>fs_poisoned := b\<rparr>)"
proof -
  consider "fs_poisoned fs" | "\<not> fs_poisoned fs" "fs_handles fs n = None"
    | h where "\<not> fs_poisoned fs" "fs_handles fs n = Some h" by blast
  then show thesis
  proof cases
    case 1
    then have "lock_files n fs = (Panic Poisoned, fs\<lparr>fs_poisoned := True\<rparr>)"
      by (cases fs) (simp add: fs_ops)
    then show thesis by (rule panicked)
  next
    case 2
    then have "lock_files n fs = (Panic KeyMissing, fs\<lparr>fs_poisoned := True\<rparr>)"
      by (simp add: fs_ops)
    then show thesis by (rule panicked)
  next
    case (3 h)
    show thesis
    proof (cases "fn_poisoned h")
      case True
      with 3 have "lock_files n fs = (Panic Poisoned, fs\<lparr>fs_poisoned := False\<rparr>)"
        by (cases fs) (simp add: fs_ops)
      then show thesis by (rule panicked)
    next
      case False
      with 3 have "lock_files n fs = (Ret (fn_files h), fs)"
        by (simp add: fs_ops)
      then show thesis using 3(2) by (rule locked)
    qed
  qed
qed

text \<open>The steps that neither open a file nor change an inode.\<close>

lemma fs_inv_drop_files:
  assumes "fs_inv own (held, fs)" and "fs_next fs' = fs_next fs"
    and "\<And>n h. fs_handles fs' n = Some h \<Longrightarrow> fn_files h = Map.empty \<or>
      (\<exists>h'. fs_handles fs n = Some h' \<and> fn_files h' = fn_files h)"
  shows "fs_inv own (held, fs')"
  unfolding fs_inv_def snd_conv fst_conv assms(2)
proof (intro conjI allI impI)
  fix n h p i
  assume h: "fs_handles fs' n = Some h" "fn_files h p = Some i"
  with assms(3) [OF h(1)] obtain h' where "fs_handles fs n = Some h'" "fn_files h' = fn_files h"
    by auto
  with h(2) assms(1) show "own i = n" "i < fs_next fs"
    unfolding fs_inv_def snd_conv by (metis (full_types))+
next
  fix n f
  assume "(n, f) \<in> held"
  with assms(1) show "own (f_inode f) = n" "f_inode f < fs_next fs"
    by (auto simp: fs_inv_def)
qed

lemma fs_inv_flag: "fs_inv own (held, fs\<lparr>fs_poisoned := b\<rparr>) = fs_inv own (held, fs)"
  by (simp add: fs_inv_def)

lemma fs_inv_upd_inode: "fs_inv own (held, upd_inode i g fs) = fs_inv own (held, fs)"
  by (simp add: fs_inv_def upd_inode_def)

lemma fs_inv_poison_node:
  assumes "fs_inv own (held, fs)"
  shows "fs_inv own (held, poison_node n fs)"
  by (rule fs_inv_drop_files [OF assms]) (auto simp: fs_ops split: if_splits)

lemma fs_inv_insert:
  assumes "fs_inv own (held, fs)" and "own (f_inode f) = n" and "f_inode f < fs_next fs"
  shows "fs_inv own (insert (n, f) held, fs)"
  using assms by (auto simp: fs_inv_def)

lemma fs_frame_flag: "fs_frame own n fs (fs\<lparr>fs_poisoned := b\<rparr>)"
  by (simp add: fs_frame_def)

lemma fs_frame_poison: "fs_frame own n fs (poison_node m fs')  = fs_frame own n fs fs'"
  by (simp add: fs_frame_def fs_ops)

lemma fs_frame_upd:
  assumes "own i = n"
  shows "fs_frame own n fs (upd_inode i g fs)"
  using assms by (auto simp: fs_frame_def upd_inode_def)


definition fs_good ::
    "(nat \<Rightarrow> node_id) \<Rightarrow> node_id \<Rightarrow> fs_sim \<Rightarrow> (node_id \<times> fs_file) set \<times> fs_sim \<Rightarrow> bool" where
  "fs_good own n fs w' \<longleftrightarrow>
     (\<exists>own'. fs_inv own' w' \<and> (\<forall>i < fs_next fs. own' i = own i)) \<and>
     fs_next fs \<le> fs_next (snd w') \<and> fs_frame own n fs (snd w')"

lemma fs_goodI:
  assumes "fs_inv own w'" and "fs_next (snd w') = fs_next fs" and "fs_frame own n fs (snd w')"
  shows "fs_good own n fs w'"
  using assms by (auto simp: fs_good_def)

lemma fs_good_same:
  assumes "fs_inv own (held, fs)"
  shows "fs_good own n fs (held, fs)"
  using assms by (intro fs_goodI) auto

lemma fs_good_flag:
  assumes "fs_inv own (held, fs)"
  shows "fs_good own n fs (held, fs\<lparr>fs_poisoned := b\<rparr>)"
  using assms by (intro fs_goodI) (simp_all add: fs_inv_flag fs_frame_flag)

lemma fs_good_upd:
  assumes "fs_inv own (held, fs)" and "own i = n"
  shows "fs_good own n fs (held, upd_inode i g fs)"
  using assms by (intro fs_goodI) (simp_all add: fs_inv_upd_inode fs_frame_upd, simp add: upd_inode_def)

lemma fs_good_poison:
  assumes "fs_inv own (held, fs)"
  shows "fs_good own n fs (held, poison_node m fs)"
  using assms by (intro fs_goodI) (simp_all add: fs_inv_poison_node fs_frame_poison, simp add: fs_ops)

lemma fs_inv_table:
  assumes "fs_inv own (held, fs)" and "fs_handles fs n = Some h" and "fn_files h p = Some i"
  shows "own i = n" and "i < fs_next fs"
  using assms unfolding fs_inv_def fst_conv snd_conv by blast+

lemma fs_inv_held:
  assumes "fs_inv own w" and "(n, f) \<in> fst w"
  shows "own (f_inode f) = n" and "f_inode f < fs_next (snd w)"
  using assms unfolding fs_inv_def by blast+

lemma fs_open_good:
  assumes "fs_inv own (held, fs)"
  shows "fs_good own n fs (keep_file n (fs_open n p fs) held)"
    and "fs_good own n fs (held, snd (fs_open n p fs))"
proof -
  show "fs_good own n fs (keep_file n (fs_open n p fs) held)"
  proof (cases rule: lock_files_cases [of n fs])
    case (panicked e b)
    then have "keep_file n (fs_open n p fs) held = (held, fs\<lparr>fs_poisoned := b\<rparr>)"
      by (simp add: fs_open_def fs_bind_def keep_file_def)
    then show ?thesis by (simp add: fs_good_flag assms)
  next
    case (locked h)
    show ?thesis
    proof (cases "fn_files h p")
      case None
      with locked have "keep_file n (fs_open n p fs) held = (held, fs)"
        by (simp add: fs_open_def fs_bind_def keep_file_def)
      then show ?thesis by (simp add: fs_good_same assms)
    next
      case (Some i)
      with locked have k: "keep_file n (fs_open n p fs) held =
          (insert (n, \<lparr>f_inode = i, can_write = False\<rparr>) held, fs)"
        by (simp add: fs_open_def fs_bind_def keep_file_def)
      show ?thesis
        unfolding k using fs_inv_table [OF assms locked(2) Some] assms
        by (intro fs_goodI fs_inv_insert) simp_all
    qed
  qed
  show "fs_good own n fs (held, snd (fs_open n p fs))"
  proof (cases rule: lock_files_cases [of n fs])
    case (panicked e b)
    then show ?thesis by (simp add: fs_open_def fs_bind_def fs_good_flag assms)
  next
    case (locked h)
    then have "snd (fs_open n p fs) = fs"
      by (simp add: fs_open_def fs_bind_def split: option.split)
    then show ?thesis by (simp add: fs_good_same assms)
  qed
qed

lemma fs_create_good:
  assumes inv: "fs_inv own (held, fs)"
  shows "fs_good own n fs (keep_file n (fs_create n p fs) held)"
proof (cases rule: lock_files_cases [of n fs])
  case (panicked e b)
  then have "keep_file n (fs_create n p fs) held = (held, fs\<lparr>fs_poisoned := b\<rparr>)"
    by (simp add: fs_create_def fs_bind_def keep_file_def)
  then show ?thesis by (simp add: fs_good_flag inv)
next
  case (locked h)
  show ?thesis
  proof (cases "fn_files h p")
    case (Some i)
    note own = fs_inv_table [OF inv locked(2) Some]
    show ?thesis
    proof (cases "in_poisoned (fs_inodes fs i)")
      case True
      with locked Some have "keep_file n (fs_create n p fs) held = (held, poison_node n fs)"
        by (simp add: fs_create_def fs_bind_def keep_file_def inode_truncate_def)
      then show ?thesis by (simp add: fs_good_poison inv)
    next
      case False
      with locked Some have k: "keep_file n (fs_create n p fs) held =
          (insert (n, \<lparr>f_inode = i, can_write = True\<rparr>) held, upd_inode i (\<lambda>d. d\<lparr>in_data := []\<rparr>) fs)"
        by (simp add: fs_create_def fs_bind_def keep_file_def inode_truncate_def)
      show ?thesis
        unfolding k using own inv
        by (intro fs_goodI fs_inv_insert) (simp_all add: fs_inv_upd_inode fs_frame_upd,
          simp_all add: upd_inode_def)
    qed
  next
    case None
    let ?w = "(insert (n, \<lparr>f_inode = fs_next fs, can_write = True\<rparr>) held, new_file n p fs)"
    from locked None have k: "keep_file n (fs_create n p fs) held = ?w"
      by (simp add: fs_create_def fs_bind_def keep_file_def)
    have "f_inode f \<noteq> fs_next fs" if "(m, f) \<in> held" for m f
      using fs_inv_held [OF inv, of m f] that by auto
    moreover have "fn_files h' q \<noteq> Some (fs_next fs)" if "fs_handles fs m = Some h'" for m h' q
      using fs_inv_table [OF inv that, of q "fs_next fs"] by auto
    ultimately have "fs_inv (own(fs_next fs := n)) ?w"
      using inv locked(2) unfolding fs_inv_def new_file_def upd_handle_def
      by (auto simp: less_Suc_eq split: if_splits dest: less_not_refl2)
    moreover have "fs_frame own n fs (snd ?w)"
      by (auto simp: fs_frame_def new_file_def upd_handle_def)
    ultimately show ?thesis
      unfolding k fs_good_def by (auto simp: new_file_def upd_handle_def intro!: exI [of _ "own(fs_next fs := n)"])
  qed
qed

lemma fs_metadata_good:
  assumes "fs_inv own (held, fs)"
  shows "fs_good own n fs (held, snd (fs_metadata n p fs))"
proof (cases rule: lock_files_cases [of n fs])
  case (panicked e b)
  then show ?thesis by (simp add: fs_metadata_def fs_bind_def fs_good_flag assms)
next
  case (locked h)
  then have "snd (fs_metadata n p fs) \<in> {fs, poison_node n fs}"
    by (simp add: fs_metadata_def fs_bind_def split: option.split run.split)
  then show ?thesis using fs_good_same [OF assms] fs_good_poison [OF assms] by auto
qed

lemma fs_read_state: "snd (fs_read n p fs) = snd (fs_open n p fs)"
  by (simp add: fs_read_def fs_bind_def split: prod.split run.split io_result.split)

lemma fs_tables_good:
  assumes "fs_inv own (held, fs)"
  shows "fs_good own m fs (held, snd (fs_create_node n fs))"
    and "fs_good own m fs (held, snd (fs_delete_node n fs))"
proof -
  have "fs_inv own (held, snd (fs_create_node n fs))"
    by (rule fs_inv_drop_files [OF assms])
      (auto simp: fs_create_node_def fs_ops fs_node_new_def split: run.split if_splits)
  then show "fs_good own m fs (held, snd (fs_create_node n fs))"
    by (intro fs_goodI) (auto simp: fs_create_node_def fs_ops fs_frame_def)
  have "fs_inv own (held, snd (fs_delete_node n fs))"
    by (rule fs_inv_drop_files [OF assms])
      (auto simp: fs_delete_node_def fs_ops split: run.split if_splits)
  then show "fs_good own m fs (held, snd (fs_delete_node n fs))"
    by (intro fs_goodI) (auto simp: fs_delete_node_def fs_ops fs_frame_def)
qed

lemma write_all_at_good:
  assumes "fs_inv own (held, fs)" and "own (f_inode f) = n"
  shows "fs_good own n fs (held, snd (write_all_at f buf off fs))"
    and "fs_good own n fs (held, snd (set_len f len fs))"
  using fs_good_same [OF assms(1)] fs_good_upd [OF assms]
  by (simp_all add: write_all_at_def set_len_def split: run.split)

lemma fs_step_good:
  assumes "fs_inv own w"
  shows "fs_good own (op_node x) (snd w) (fs_step x w)"
proof -
  have "fs_inv own (fst w, snd w)"
    using assms by simp
  note facts = fs_good_same [OF this] fs_tables_good [OF this] fs_open_good [OF this]
    fs_create_good [OF this] fs_metadata_good [OF this] write_all_at_good [OF this]
  show ?thesis
    using facts fs_inv_held [OF assms]
    by (cases x) (simp_all add: op_node_def fs_reset_node_def power_fail_def fs_read_state)
qed

lemma fs_run_simps [simp]:
  "fs_run [] w = w"
  "fs_run (x # ops) w = fs_run ops (fs_step x w)"
  by (simp_all add: fs_run_def)

lemma fs_step_held: "fst w \<subseteq> fst (fs_step x w)"
  by (cases x) (auto simp: keep_file_def split: run.split io_result.split prod.split)

lemma fs_run_held: "fst w \<subseteq> fst (fs_run ops w)"
proof (induction ops arbitrary: w)
  case (Cons x ops)
  show ?case using subset_trans [OF fs_step_held Cons.IH, of w x] by simp
qed simp

lemma fs_run_inv:
  assumes "fs_inv own w"
  shows "\<exists>own'. fs_inv own' (fs_run ops w)"
  using assms
proof (induction ops arbitrary: own w)
  case (Cons x ops)
  from fs_step_good [OF Cons.prems, of x] obtain own' where "fs_inv own' (fs_step x w)"
    by (auto simp: fs_good_def)
  from Cons.IH [OF this] show ?case by simp
qed auto

lemma fs_run_frame:
  assumes "fs_inv own w" and "own i = n" and "i < fs_next (snd w)" and "\<forall>x \<in> set ops. op_node x \<noteq> n"
  shows "fs_inodes (snd (fs_run ops w)) i = fs_inodes (snd w) i"
  using assms
proof (induction ops arbitrary: own w)
  case (Cons x ops)
  from fs_step_good [OF Cons.prems(1), of x] obtain own' where
    own': "fs_inv own' (fs_step x w)" "own' i = n" "i < fs_next (snd (fs_step x w))"
    and frame: "fs_frame own (op_node x) (snd w) (snd (fs_step x w))"
    using Cons.prems by (auto simp: fs_good_def)
  have "fs_inodes (snd (fs_step x w)) i = fs_inodes (snd w) i"
    using frame Cons.prems by (auto simp: fs_frame_def)
  with Cons.IH [OF own'] Cons.prems(4) show ?case by simp
qed simp

lemma fs_inv_start: "fs_inv own ({}, fs_sim_new)"
  by (simp add: fs_inv_def fs_sim_new_def)

section \<open>Properties\<close>

text \<open>C28: Nodes do not share files. Whatever the nodes did so far, a file that node \<open>n\<close> has opened
  reads the same after any operations of other nodes, their creation, reset and deletion included.\<close>

theorem nodes_share_no_files:
  assumes "(n, f) \<in> fst (fs_run ops ({}, fs_sim_new))"
    and "\<forall>x \<in> set ops'. op_node x \<noteq> n"
  shows "read_at f buf off (snd (fs_run (ops @ ops') ({}, fs_sim_new))) =
    read_at f buf off (snd (fs_run ops ({}, fs_sim_new)))"
proof -
  obtain own where inv: "fs_inv own (fs_run ops ({}, fs_sim_new))"
    using fs_run_inv [OF fs_inv_start] by blast
  have "fs_run (ops @ ops') w = fs_run ops' (fs_run ops w)" for w
    by (simp add: fs_run_def)
  then show ?thesis
    using fs_run_frame [OF inv fs_inv_held [OF inv assms(1)] assms(2)] by (simp add: read_at_def)
qed

text \<open>C15: What is written is read back. After a write that succeeds, a read anywhere in the same
  file, through any handle, gives as many bytes as the file then holds there: the written ones
  where the two ranges meet, and the old ones elsewhere.\<close>

theorem write_then_read:
  assumes "write_all_at f buf off fs = (Ret (Ok ()), fs')" and "f_inode g = f_inode f"
    and "unat off' + length rbuf < 2 ^ 64" and "unat off' \<le> length (in_data (fs_inodes fs' (f_inode f)))"
  shows "\<exists>l out. read_at g rbuf off' fs' = Ret (Ok (l, out)) \<and> length out = length rbuf \<and>
    l = min (length rbuf)
      (max (length (in_data (fs_inodes fs (f_inode f)))) (unat off + length buf) - unat off') \<and>
    (\<forall>j < l. out ! j =
       (if unat off \<le> unat off' + j \<and> unat off' + j < unat off + length buf
        then buf ! (unat off' + j - unat off)
        else in_data (fs_inodes fs (f_inode f)) ! (unat off' + j)))"
proof -
  let ?d = "in_data (fs_inodes fs (f_inode f))"
  let ?d' = "take (unat off) ?d @ buf @ drop (unat off + length buf) ?d"
  note w = write_all_at_Ok [OF assms(1)]
  have d': "in_data (fs_inodes fs' (f_inode f)) = ?d'" "\<not> in_poisoned (fs_inodes fs' (f_inode f))"
    using w by (auto simp: upd_inode_def)
  have len: "length ?d' = max (length ?d) (unat off + length buf)"
    using w by auto
  define d where "d = ?d'"
  define l where "l = min (length d - unat off') (length rbuf)"
  define out where "out = take l (drop (unat off') d) @ drop l rbuf"
  have "read_at g rbuf off' fs' = Ret (Ok (l, out))"
    using assms(2-4) d'(2) by (simp add: read_at_Ok Let_def l_def out_def d'(1) flip: d_def)
  moreover have "length out = length rbuf"
    by (simp add: out_def l_def)
  moreover have "out ! j = (if unat off \<le> unat off' + j \<and> unat off' + j < unat off + length buf
        then buf ! (unat off' + j - unat off) else ?d ! (unat off' + j))" if "j < l" for j
  proof -
    have j: "unat off' + j < length d"
      using that unfolding l_def by (simp only: min_less_iff_conj) linarith
    then have "j < length d - unat off'" "unat off' \<le> length d"
      by linarith+
    then have "out ! j = d ! (unat off' + j)"
      using that by (simp add: out_def nth_append)
    then show ?thesis
      using nth_overwrite [of "unat off" ?d "unat off' + j" buf] w j len
      by (simp add: d_def)
  qed
  moreover have "l = min (length rbuf) (max (length ?d) (unat off + length buf) - unat off')"
    unfolding l_def d_def len by (rule min.commute)
  ultimately show ?thesis by blast
qed

text \<open>An access that starts beyond the end of a file panics instead of giving no bytes or an
  error; the write also poisons the file, so that every later read, write, truncation or change of
  length of it panics as well, and opening it with \<open>create\<close> poisons the node's whole table.\<close>

theorem access_beyond_end_panics:
  assumes "length (in_data (fs_inodes fs (f_inode f))) < unat off"
    and "can_write f" and "\<not> in_poisoned (fs_inodes fs (f_inode f))"
  shows "read_at f rbuf off fs = Panic Overflow \<and>
    (\<exists>fs'. write_all_at f buf off fs = (Panic Overflow, fs') \<and>
       (\<forall>g rbuf' off'. f_inode g = f_inode f \<longrightarrow>
          read_at g rbuf' off' fs' = Panic Poisoned \<and> file_metadata g fs' = Panic Poisoned \<and>
          fst (set_len g len fs') = Panic Poisoned) \<and>
       (\<forall>n h p. fs_handles fs n = Some h \<longrightarrow> \<not> fn_poisoned h \<longrightarrow> \<not> fs_poisoned fs \<longrightarrow>
          fn_files h p = Some (f_inode f) \<longrightarrow>
          fst (fs_create n p fs') = Panic Poisoned \<and>
          (\<forall>q. fst (fs_open n q (snd (fs_create n p fs'))) = Panic Poisoned)))"
proof -
  let ?d = "in_data (fs_inodes fs (f_inode f))"
  have p: "overlap ?d b off = Panic Overflow" for b
    using assms(1) by (auto simp: overlap_def add_usize_def sub_usize_def Let_def)
  have read: "read_at f rbuf off fs = Panic Overflow"
    by (simp add: read_at_def p assms)
  let ?fs = "upd_inode (f_inode f) (\<lambda>d. d\<lparr>in_poisoned := True\<rparr>) fs"
  have "write_all_at f buf off fs = (Panic Overflow, ?fs)"
    by (simp add: write_all_at_def p assms)
  moreover have "in_poisoned (fs_inodes ?fs (f_inode f))" "fs_handles ?fs = fs_handles fs"
    "fs_poisoned ?fs = fs_poisoned fs"
    by (simp_all add: upd_inode_def)
  ultimately show ?thesis
    by (intro conjI read exI [of _ ?fs])
      (simp_all add: read_at_def file_metadata_def inode_metadata_def set_len_def fs_create_def
        fs_open_def inode_truncate_def lock_files_def fs_get_node_def lock_handles_def fs_bind_def
        poison_node_def upd_handle_def)
qed

text \<open>A file opened for reading only can still be cut or extended with \<open>set_len\<close>.\<close>

lemma set_len_needs_no_permission:
  assumes "\<not> in_poisoned (fs_inodes fs (f_inode f))" and "unat len < 2 ^ 63"
  shows "\<exists>fs'. set_len f len fs = (Ret (Ok ()), fs') \<and>
    length (in_data (fs_inodes fs' (f_inode f))) = unat len"
  using assms by (auto simp: set_len_def resize_def upd_inode_def min_def)

section \<open>The properties at work\<close>

text \<open>Two nodes, each with a file of the same name; the first has written to its own.\<close>

definition demo_fs_ops :: "fs_op list" where
  "demo_fs_ops = [FsCreateNode 1, FsCreateNode 2, FsCreate 1 [''a''], FsCreate 2 [''a''],
     FsWrite 1 \<lparr>f_inode = 0, can_write = True\<rparr> [7, 8] 0]"

definition demo_fs :: fs_sim where
  "demo_fs = snd (fs_run demo_fs_ops ({}, fs_sim_new))"

lemmas fs_eval = demo_fs_ops_def fs_create_node_def fs_create_def fs_open_def write_all_at_def
  overlap_def add_usize_def sub_usize_def write_data_def keep_file_def new_file_def fs_ops
  fs_sim_new_def fs_node_new_def inode_new_def Let_def

lemma demo_fs_held:
  "(1, \<lparr>f_inode = 0, can_write = True\<rparr>) \<in> fst (fs_run demo_fs_ops ({}, fs_sim_new))"
  by (simp add: fs_eval)

lemma demo_fs_inode: "fs_inodes demo_fs 0 = \<lparr>in_path = [''a''], in_data = [7, 8], in_poisoned = False\<rparr>"
  by (simp add: demo_fs_def fs_eval)

lemma nodes_share_no_files_witness:
  "read_at \<lparr>f_inode = 0, can_write = True\<rparr> [0, 0, 0] 0
     (snd (fs_run (demo_fs_ops @ [FsWrite 2 \<lparr>f_inode = 1, can_write = True\<rparr> [9] 0, FsDeleteNode 2])
       ({}, fs_sim_new))) = Ret (Ok (2, [7, 8, 0]))"
proof -
  have "read_at \<lparr>f_inode = 0, can_write = True\<rparr> [0, 0, 0] 0 demo_fs = Ret (Ok (2, [7, 8, 0]))"
    by (simp add: read_at_def demo_fs_inode overlap_def add_usize_def sub_usize_def Let_def)
  then show ?thesis
    using nodes_share_no_files [OF demo_fs_held,
        of "[FsWrite 2 \<lparr>f_inode = 1, can_write = True\<rparr> [9] 0, FsDeleteNode 2]" "[0, 0, 0]" 0]
    by (simp add: op_node_def demo_fs_def)
qed

lemma write_then_read_witness:
  "\<exists>l out. read_at \<lparr>f_inode = 0, can_write = False\<rparr> [0, 0, 0, 0] 1
      (snd (write_all_at \<lparr>f_inode = 0, can_write = True\<rparr> [5, 6] 1 demo_fs)) = Ret (Ok (l, out)) \<and>
     l = 2 \<and> out ! 0 = 5 \<and> out ! 1 = 6"
proof -
  let ?f = "\<lparr>f_inode = 0, can_write = True\<rparr>"
  obtain fs' where w: "write_all_at ?f [5, 6] 1 demo_fs = (Ret (Ok ()), fs')"
    and d: "in_data (fs_inodes fs' 0) = [7, 5, 6]"
    by (simp add: write_all_at_def demo_fs_inode overlap_def add_usize_def sub_usize_def Let_def
        write_data_def upd_inode_def)
  show ?thesis
    using write_then_read [OF w, of "\<lparr>f_inode = 0, can_write = False\<rparr>" 1 "[0, 0, 0, 0]"]
    by (auto simp: d w demo_fs_inode)
qed

lemma access_beyond_end_panics_witness:
  "read_at \<lparr>f_inode = 0, can_write = True\<rparr> [0] 3 demo_fs = Panic Overflow"
  using access_beyond_end_panics [of demo_fs "\<lparr>f_inode = 0, can_write = True\<rparr>" 3]
  by (simp add: demo_fs_inode)

end
