(* ===== verification/Join.thy ===== *)
theory Join
  imports Virtual_Time
begin

text \<open>
  Join and abort handles of \<open>msim/src/sim/task.rs\<close> and \<open>JoinSet\<close> of \<open>msim/src/sim/task/join_set.rs\<close>.
  The tasks themselves belong to the crate \<open>async_task\<close> and the set of futures to \<open>futures\<close>: what
  the handles use of them is the record \<open>task_ops\<close>, and their state is the type variable \<open>'s\<close>.
\<close>

section \<open>What the crates provide\<close>

text \<open>
  \<open>tk_cancel\<close> drops a \<open>FallibleTask\<close>, which cancels the task; \<open>tk_detach\<close> lets it go on without a
  handle; \<open>tk_poll\<close> polls it, and gives \<open>None\<close> when the task was cancelled. \<open>tk_woken\<close> are the members
  of a \<open>FuturesUnordered\<close> that it polls this time, in this order: those in its queue of ready futures.
\<close>

record ('t, 'a, 's) task_ops =
  tk_cancel :: "'t \<Rightarrow> 's \<Rightarrow> 's"
  tk_detach :: "'t \<Rightarrow> 's \<Rightarrow> 's"
  tk_finished :: "'t \<Rightarrow> 's \<Rightarrow> bool"
  tk_poll :: "'t \<Rightarrow> 's \<Rightarrow> 'a option poll \<times> 's"
  tk_woken :: "nat list \<Rightarrow> 's \<Rightarrow> nat list"

section \<open>Join handles\<close>

text \<open>The shared \<open>InnerHandle\<close>s by number; the abort handles of a join handle have its number.\<close>

record ('t, 's) joins =
  jn_inner :: "nat \<Rightarrow> 't option"
  jn_next :: nat
  jn_tasks :: 's

datatype 'a joined = Joined 'a | JoinCancelled

definition inner_new :: "'t \<Rightarrow> ('t, 's) joins \<Rightarrow> nat \<times> ('t, 's) joins" where
  "inner_new t w =
     (jn_next w, w\<lparr>jn_inner := (jn_inner w)(jn_next w := Some t), jn_next := Suc (jn_next w)\<rparr>)"

definition inner_take :: "nat \<Rightarrow> ('t, 's) joins \<Rightarrow> 't option \<times> ('t, 's) joins" where
  "inner_take h w = (jn_inner w h, w\<lparr>jn_inner := (jn_inner w)(h := None)\<rparr>)"

definition inner_abort :: "('t, 'a, 's) task_ops \<Rightarrow> nat \<Rightarrow> ('t, 's) joins \<Rightarrow> ('t, 's) joins" where
  "inner_abort ops h w =
     (case inner_take h w of
        (None, w) \<Rightarrow> w
      | (Some t, w) \<Rightarrow> w\<lparr>jn_tasks := tk_cancel ops t (jn_tasks w)\<rparr>)"

definition inner_is_finished :: "('t, 'a, 's) task_ops \<Rightarrow> nat \<Rightarrow> ('t, 's) joins \<Rightarrow> bool" where
  "inner_is_finished ops h w =
     (case jn_inner w h of None \<Rightarrow> True | Some t \<Rightarrow> tk_finished ops t (jn_tasks w))"

text \<open>\<open>cancel_on_drop\<close> hands out the task itself; then the handle is dropped with nothing in it.\<close>

definition cancel_on_drop :: "nat \<Rightarrow> ('t, 's) joins \<Rightarrow> ('t \<times> ('t, 's) joins) run" where
  "cancel_on_drop h w = (case inner_take h w of (t, w) \<Rightarrow> bind_run (expect UnwrapNone t) (\<lambda>t. Ret (t, w)))"

definition abort_handle :: "nat \<Rightarrow> nat" where
  "abort_handle h = h"

text \<open>
  The methods of both handles: an abort handle shares the \<open>InnerHandle\<close>, of a type it has forgotten,
  and the reference it unboxes for a call is forgotten again after it.
\<close>

definition join_abort :: "('t, 'a, 's) task_ops \<Rightarrow> nat \<Rightarrow> ('t, 's) joins \<Rightarrow> ('t, 's) joins" where
  "join_abort ops h w = inner_abort ops h w"

definition join_is_finished :: "('t, 'a, 's) task_ops \<Rightarrow> nat \<Rightarrow> ('t, 's) joins \<Rightarrow> bool" where
  "join_is_finished ops h w = inner_is_finished ops h w"

definition abort_abort :: "('t, 'a, 's) task_ops \<Rightarrow> nat \<Rightarrow> ('t, 's) joins \<Rightarrow> ('t, 's) joins" where
  "abort_abort ops a w = inner_abort ops a w"

definition abort_is_finished :: "('t, 'a, 's) task_ops \<Rightarrow> nat \<Rightarrow> ('t, 's) joins \<Rightarrow> bool" where
  "abort_is_finished ops a w = inner_is_finished ops a w"

definition join_poll ::
    "('t, 'a, 's) task_ops \<Rightarrow> nat \<Rightarrow> ('t, 's) joins \<Rightarrow> 'a joined poll \<times> ('t, 's) joins" where
  "join_poll ops h w =
     (case jn_inner w h of
        None \<Rightarrow> (Ready JoinCancelled, w)
      | Some t \<Rightarrow>
          (case tk_poll ops t (jn_tasks w) of (r, s) \<Rightarrow>
             (case r of
                Ready (Some x) \<Rightarrow> Ready (Joined x)
              | Ready None \<Rightarrow> Ready JoinCancelled
              | Pending \<Rightarrow> Pending, w\<lparr>jn_tasks := s\<rparr>)))"

definition join_drop :: "('t, 'a, 's) task_ops \<Rightarrow> nat \<Rightarrow> ('t, 's) joins \<Rightarrow> ('t, 's) joins" where
  "join_drop ops h w =
     (case inner_take h w of
        (None, w) \<Rightarrow> w
      | (Some t, w) \<Rightarrow> w\<lparr>jn_tasks := tk_detach ops t (jn_tasks w)\<rparr>)"

section \<open>Join sets\<close>

text \<open>The handles in a \<open>JoinSet\<close>, in the order of their insertion.\<close>

definition js_insert :: "'t \<Rightarrow> nat list \<times> ('t, 's) joins \<Rightarrow> nat \<times> nat list \<times> ('t, 's) joins" where
  "js_insert t js =
     (case js of (hs, w) \<Rightarrow> case inner_new t w of (h, w) \<Rightarrow> (abort_handle h, hs @ [h], w))"

definition js_abort_all ::
    "('t, 'a, 's) task_ops \<Rightarrow> nat list \<times> ('t, 's) joins \<Rightarrow> nat list \<times> ('t, 's) joins" where
  "js_abort_all ops js = (case js of (hs, w) \<Rightarrow> (hs, fold (inner_abort ops) hs w))"

text \<open>The old set is dropped, and with it each of its handles.\<close>

definition js_detach_all ::
    "('t, 'a, 's) task_ops \<Rightarrow> nat list \<times> ('t, 's) joins \<Rightarrow> nat list \<times> ('t, 's) joins" where
  "js_detach_all ops js = (case js of (hs, w) \<Rightarrow> ([], fold (join_drop ops) hs w))"

text \<open>\<open>JoinSet::drop\<close>: abort every task, then drop the handles.\<close>

definition js_drop :: "('t, 'a, 's) task_ops \<Rightarrow> nat list \<times> ('t, 's) joins \<Rightarrow> ('t, 's) joins" where
  "js_drop ops js = snd (js_detach_all ops (js_abort_all ops js))"

primrec poll_woken ::
    "('t, 'a, 's) task_ops \<Rightarrow> nat list \<Rightarrow> ('t, 's) joins \<Rightarrow> (nat \<times> 'a joined) option \<times> ('t, 's) joins" where
  "poll_woken ops [] w = (None, w)"
| "poll_woken ops (h # hs) w =
     (case join_poll ops h w of
        (Ready r, w) \<Rightarrow> (Some (h, r), w)
      | (Pending, w) \<Rightarrow> poll_woken ops hs w)"

definition poll_join_next ::
    "('t, 'a, 's) task_ops \<Rightarrow> nat list \<times> ('t, 's) joins \<Rightarrow>
     'a joined option poll \<times> nat list \<times> ('t, 's) joins" where
  "poll_join_next ops js =
     (case js of (hs, w) \<Rightarrow>
        if hs = [] then (Ready None, hs, w)
        else (case poll_woken ops (filter (\<lambda>h. h \<in> set hs) (tk_woken ops hs (jn_tasks w))) w of
            (None, w) \<Rightarrow> (Pending, hs, w)
          | (Some (h, r), w) \<Rightarrow> (Ready (Some r), remove1 h hs, join_drop ops h w)))"

lemma poll_woken_mem:
  assumes "poll_woken ops hs w = (Some (h, r), w')"
  shows "h \<in> set hs"
  using assms
proof (induction hs arbitrary: w)
  case (Cons k hs)
  obtain q v where p: "join_poll ops k w = (q, v)"
    by (cases "join_poll ops k w")
  show ?case
    using Cons.prems Cons.IH [of v] by (cases q) (auto simp: p)
qed simp

lemma poll_join_next_shrinks:
  assumes "poll_join_next ops (hs, w) = (Ready (Some r), hs', w')"
  shows "\<exists>h \<in> set hs. hs' = remove1 h hs"
proof -
  let ?p = "poll_woken ops (filter (\<lambda>h. h \<in> set hs) (tk_woken ops hs (jn_tasks w))) w"
  have "hs \<noteq> []"
    using assms by (auto simp: poll_join_next_def)
  then obtain h v where p: "?p = (Some (h, r), v)" and "hs' = remove1 h hs"
    using assms by (cases ?p) (auto simp: poll_join_next_def split: option.splits)
  then show ?thesis
    using poll_woken_mem [OF p] by auto
qed

lemma poll_join_next_length:
  assumes "poll_join_next ops js = (Ready (Some r), js')"
  shows "length (fst js') < length (fst js)"
proof -
  obtain h where h: "h \<in> set (fst js)" "fst js' = remove1 h (fst js)"
    using poll_join_next_shrinks [of ops "fst js" "snd js" r "fst js'" "snd js'"] assms by auto
  then have "length (fst js) > 0"
    by (auto simp: length_pos_if_in_set)
  with h show ?thesis
    by (simp add: length_remove1)
qed

text \<open>
  One poll of the future of \<open>join_all\<close>: take what is ready, until the set is empty, nothing more is
  ready, or a task was cancelled, which panics and drops the set.
\<close>

function join_all_poll ::
    "('t, 'a, 's) task_ops \<Rightarrow> 'a list \<Rightarrow> nat list \<times> ('t, 's) joins \<Rightarrow>
     'a list poll run \<times> 'a list \<times> nat list \<times> ('t, 's) joins" where
  "join_all_poll ops out js =
     (case poll_join_next ops js of
        (Pending, js) \<Rightarrow> (Ret Pending, out, js)
      | (Ready None, js) \<Rightarrow> (Ret (Ready out), out, js)
      | (Ready (Some (Joined x)), js) \<Rightarrow> join_all_poll ops (out @ [x]) js
      | (Ready (Some JoinCancelled), js) \<Rightarrow> (Panic TaskPanic, out, [], js_drop ops js))"
  by pat_completeness auto
termination
  by (relation "measure (\<lambda>(ops, out, js). length (fst js))")
    (simp, simp add: poll_join_next_length [OF sym])

text \<open>One poll of the loop of \<open>shutdown\<close>, after \<open>abort_all\<close>.\<close>

function shutdown_poll ::
    "('t, 'a, 's) task_ops \<Rightarrow> nat list \<times> ('t, 's) joins \<Rightarrow> unit poll \<times> nat list \<times> ('t, 's) joins" where
  "shutdown_poll ops js =
     (case poll_join_next ops js of
        (Pending, js) \<Rightarrow> (Pending, js)
      | (Ready None, js) \<Rightarrow> (Ready (), js)
      | (Ready (Some _), js) \<Rightarrow> shutdown_poll ops js)"
  by pat_completeness auto
termination
  by (relation "measure (\<lambda>(ops, js). length (fst js))")
    (simp, simp add: poll_join_next_length [OF sym])

definition js_shutdown ::
    "('t, 'a, 's) task_ops \<Rightarrow> nat list \<times> ('t, 's) joins \<Rightarrow> unit poll \<times> nat list \<times> ('t, 's) joins" where
  "js_shutdown ops js = shutdown_poll ops (js_abort_all ops js)"

end
