(* ===== verification/Join_Facts.thy ===== *)
theory Join_Facts
  imports Join
begin

text \<open>
  Facts about join handles and join sets: every task of a set is reported once, shutting a set down
  ends and cancels its tasks, and what a join handle does to the abort handles made from it.
\<close>

section \<open>Cancelled handles\<close>

lemma inner_abort_other: "h \<noteq> k \<Longrightarrow> jn_inner (inner_abort ops h w) k = jn_inner w k"
  by (simp add: inner_abort_def inner_take_def split: option.split)

lemma inner_abort_same [simp]: "jn_inner (inner_abort ops h w) h = None"
  by (simp add: inner_abort_def inner_take_def split: option.split)

lemma abort_all_inner:
  "jn_inner (fold (inner_abort ops) hs w) h = (if h \<in> set hs then None else jn_inner w h)"
  by (induction hs arbitrary: w) (auto simp: inner_abort_other)

lemma map_filter_cong_inner:
  "(\<And>x. x \<in> set xs \<Longrightarrow> f x = g x) \<Longrightarrow> List.map_filter f xs = List.map_filter g xs"
  by (induction xs) (auto simp: map_filter_simps split: option.split)

lemma abort_all_tasks:
  assumes "distinct hs"
  shows "jn_tasks (fold (inner_abort ops) hs w) =
    fold (tk_cancel ops) (List.map_filter (jn_inner w) hs) (jn_tasks w)"
  using assms
proof (induction hs arbitrary: w)
  case (Cons h hs)
  have "List.map_filter (jn_inner (inner_abort ops h w)) hs = List.map_filter (jn_inner w) hs"
    by (rule map_filter_cong_inner)
      (metis Cons.prems distinct.simps(2) inner_abort_other)
  then show ?case
    using Cons by (cases "jn_inner w h")
      (simp_all add: map_filter_simps, simp_all add: inner_abort_def inner_take_def)
qed (simp add: map_filter_simps)

text \<open>The handles of aborted tasks are polled without their task, and dropped without a trace.\<close>

lemma poll_aborted:
  assumes "jn_inner w h = None"
  shows "join_poll ops h w = (Ready JoinCancelled, w)" and "join_drop ops h w = w"
proof -
  show "join_poll ops h w = (Ready JoinCancelled, w)"
    by (simp add: join_poll_def assms)
  have "(jn_inner w)(h := None) = jn_inner w"
    using assms by (auto simp: fun_eq_iff)
  then show "join_drop ops h w = w"
    by (simp add: join_drop_def inner_take_def assms)
qed

lemma poll_join_next_aborted:
  assumes "\<forall>h \<in> set hs. jn_inner w h = None" and "hs \<noteq> []"
    and "set (tk_woken ops hs (jn_tasks w)) \<inter> set hs \<noteq> {}"
  shows "\<exists>h \<in> set hs. poll_join_next ops (hs, w) = (Ready (Some JoinCancelled), remove1 h hs, w)"
proof -
  let ?ks = "filter (\<lambda>h. h \<in> set hs) (tk_woken ops hs (jn_tasks w))"
  obtain k ks where ks: "?ks = k # ks"
    using assms(3) by (cases ?ks) (auto simp: filter_empty_conv)
  then have "k \<in> set ?ks"
    by simp
  then have k: "k \<in> set hs"
    by simp
  have "poll_woken ops ?ks w = (Some (k, JoinCancelled), w)"
    using assms(1) k by (simp add: ks poll_aborted)
  then have "poll_join_next ops (hs, w) = (Ready (Some JoinCancelled), remove1 k hs, w)"
    using assms(1,2) k by (simp add: poll_join_next_def poll_aborted)
  with k show ?thesis by blast
qed

lemma shutdown_poll_aborted:
  assumes "\<forall>h \<in> set hs. jn_inner w h = None"
    and "\<forall>hs'. hs' \<noteq> [] \<longrightarrow> set hs' \<subseteq> set hs \<longrightarrow> set (tk_woken ops hs' (jn_tasks w)) \<inter> set hs' \<noteq> {}"
  shows "shutdown_poll ops (hs, w) = (Ready (), [], w)"
  using assms
proof (induction "length hs" arbitrary: hs)
  case 0
  then show ?case by (simp add: poll_join_next_def)
next
  case (Suc l)
  then have "hs \<noteq> []"
    by auto
  then obtain h where h: "h \<in> set hs"
    and p: "poll_join_next ops (hs, w) = (Ready (Some JoinCancelled), remove1 h hs, w)"
    using poll_join_next_aborted [OF Suc.prems(1)] Suc.prems(2) by blast
  have "l = length (remove1 h hs)"
    using h Suc.hyps(2) by (simp add: length_remove1)
  moreover have "set (remove1 h hs) \<subseteq> set hs"
    by (rule set_remove1_subset)
  ultimately have "shutdown_poll ops (remove1 h hs, w) = (Ready (), [], w)"
    using Suc.hyps(1) [of "remove1 h hs"] Suc.prems by (meson subset_iff subset_trans)
  then show ?case by (simp add: p)
qed

section \<open>Runs of a join set\<close>

text \<open>
  The operations on a join set, and what they account for: the handles inserted so far, those whose
  outcome was given out, and those let go.
\<close>

datatype 't js_op = JsInsert 't | JsPoll | JsAbortAll | JsDetachAll

record ('t, 's) js_run =
  js_set :: "nat list"
  js_joins :: "('t, 's) joins"
  js_inserted :: "nat list"
  js_returned :: "nat list"
  js_detached :: "nat list"

definition js_start :: "'s \<Rightarrow> ('t, 's) js_run" where
  "js_start s = \<lparr>js_set = [], js_joins = \<lparr>jn_inner = (\<lambda>_. None), jn_next = 0, jn_tasks = s\<rparr>,
     js_inserted = [], js_returned = [], js_detached = []\<rparr>"

primrec js_step :: "('t, 'a, 's) task_ops \<Rightarrow> 't js_op \<Rightarrow> ('t, 's) js_run \<Rightarrow> ('t, 's) js_run" where
  "js_step ops (JsInsert t) r =
     (case js_insert t (js_set r, js_joins r) of (h, hs, w) \<Rightarrow>
        r\<lparr>js_set := hs, js_joins := w, js_inserted := js_inserted r @ [h]\<rparr>)"
| "js_step ops JsPoll r =
     (case poll_join_next ops (js_set r, js_joins r) of (p, hs, w) \<Rightarrow>
        r\<lparr>js_set := hs, js_joins := w,
          js_returned := js_returned r @ filter (\<lambda>h. h \<notin> set hs) (js_set r)\<rparr>)"
| "js_step ops JsAbortAll r =
     (case js_abort_all ops (js_set r, js_joins r) of (hs, w) \<Rightarrow> r\<lparr>js_set := hs, js_joins := w\<rparr>)"
| "js_step ops JsDetachAll r =
     (case js_detach_all ops (js_set r, js_joins r) of (hs, w) \<Rightarrow>
        r\<lparr>js_set := hs, js_joins := w, js_detached := js_detached r @ js_set r\<rparr>)"

definition js_runs :: "('t, 'a, 's) task_ops \<Rightarrow> 't js_op list \<Rightarrow> 's \<Rightarrow> ('t, 's) js_run" where
  "js_runs ops xs s = fold (js_step ops) xs (js_start s)"

definition js_inv :: "('t, 's) js_run \<Rightarrow> bool" where
  "js_inv r \<longleftrightarrow> distinct (js_inserted r) \<and> (\<forall>h \<in> set (js_inserted r). h < jn_next (js_joins r)) \<and>
     mset (js_inserted r) = mset (js_returned r) + mset (js_set r) + mset (js_detached r)"

lemma join_next_frame:
  "jn_next (inner_abort ops h w) = jn_next w"
  "jn_next (join_drop ops h w) = jn_next w"
  "jn_next (snd (join_poll ops h w)) = jn_next w"
  by (simp_all add: inner_abort_def join_drop_def inner_take_def join_poll_def split: option.split prod.split)

lemma fold_next:
  "jn_next (fold (inner_abort ops) hs w) = jn_next w"
  "jn_next (fold (join_drop ops) hs w) = jn_next w"
  by (induction hs arbitrary: w) (simp_all add: join_next_frame)

lemma poll_woken_next: "jn_next (snd (poll_woken ops hs w)) = jn_next w"
proof (induction hs arbitrary: w)
  case (Cons h hs)
  have "jn_next (snd (join_poll ops h w)) = jn_next w"
    by (rule join_next_frame)
  then show ?case
    using Cons [of "snd (join_poll ops h w)"]
    by (cases "join_poll ops h w"; cases "fst (join_poll ops h w)") simp_all
qed simp

lemma poll_join_next_next: "jn_next (snd (snd (poll_join_next ops (hs, w)))) = jn_next w"
  using poll_woken_next [of ops "filter (\<lambda>h. h \<in> set hs) (tk_woken ops hs (jn_tasks w))" w]
  by (auto simp: poll_join_next_def join_next_frame split: prod.split option.split)

text \<open>A poll gives out the outcome of one handle of the set, or of none.\<close>

lemma poll_join_next_cases:
  assumes "poll_join_next ops (hs, w) = (p, hs', w')"
  shows "(\<exists>h r. p = Ready (Some r) \<and> h \<in> set hs \<and> hs' = remove1 h hs) \<or>
    ((\<nexists>r. p = Ready (Some r)) \<and> hs' = hs)"
proof (cases "\<exists>r. p = Ready (Some r)")
  case True
  then show ?thesis using poll_join_next_shrinks assms by metis
next
  case False
  then have "hs' = hs"
    using assms by (auto simp: poll_join_next_def split: if_splits prod.splits option.splits)
  with False show ?thesis by simp
qed

lemma filter_removed:
  assumes "distinct hs" and "h \<in> set hs"
  shows "filter (\<lambda>k. k \<notin> set (remove1 h hs)) hs = [h]"
proof -
  have "filter (\<lambda>k. k \<notin> set (remove1 h hs)) hs = filter (\<lambda>k. k = h) hs"
    using assms(1) by (intro filter_cong) (auto simp: set_remove1_eq)
  also have "\<dots> = [h]"
    using assms by (induction hs) (auto simp: filter_empty_conv)
  finally show ?thesis .
qed

lemma js_inv_distinct:
  assumes "js_inv r"
  shows "distinct (js_set r)"
proof -
  have "mset (js_inserted r) = mset (js_returned r @ js_set r @ js_detached r)"
    using assms by (simp add: js_inv_def)
  then have "distinct (js_returned r @ js_set r @ js_detached r)"
    using assms by (metis js_inv_def mset_eq_imp_distinct_iff)
  then show ?thesis by simp
qed

lemma js_step_inv:
  assumes "js_inv r"
  shows "js_inv (js_step ops x r)"
proof (cases x)
  case (JsInsert t)
  have "jn_next (js_joins r) \<notin> set (js_inserted r)"
    using assms by (auto simp: js_inv_def)
  then show ?thesis
    using assms by (auto simp: JsInsert js_inv_def js_insert_def inner_new_def abort_handle_def)
next
  case JsPoll
  obtain p hs w where p: "poll_join_next ops (js_set r, js_joins r) = (p, hs, w)"
    by (cases "poll_join_next ops (js_set r, js_joins r)")
  have w: "jn_next w = jn_next (js_joins r)"
    using poll_join_next_next [of ops "js_set r" "js_joins r"] p by simp
  from poll_join_next_cases [OF p] show ?thesis
  proof (elim disjE exE conjE)
    fix h q
    assume h: "h \<in> set (js_set r)" "hs = remove1 h (js_set r)"
    have "mset (js_set r) = add_mset h (mset hs)"
      using h by simp
    then show ?thesis
      using assms w h filter_removed [OF js_inv_distinct [OF assms] h(1)]
      by (simp add: JsPoll p js_inv_def)
  next
    assume "hs = js_set r"
    then show ?thesis
      using assms w by (simp add: JsPoll p js_inv_def)
  qed
next
  case JsAbortAll
  then show ?thesis
    using assms by (simp add: js_inv_def js_abort_all_def fold_next)
next
  case JsDetachAll
  then show ?thesis
    using assms by (simp add: js_inv_def js_detach_all_def fold_next)
qed

lemma js_runs_inv: "js_inv (js_runs ops xs s)"
proof -
  have "js_inv (fold (js_step ops) xs (js_start s))"
  proof (induction xs rule: rev_induct)
    case Nil
    show ?case by (simp add: js_start_def js_inv_def)
  next
    case (snoc x xs)
    then show ?case by (simp add: js_step_inv)
  qed
  then show ?thesis by (simp add: js_runs_def)
qed

section \<open>Properties\<close>

text \<open>In every history of a join set, each task inserted is in exactly one place: its outcome
  was given out by one \<open>join_next\<close>, or it is still in the set, or it was let go by \<open>detach_all\<close>; no
  outcome is given out twice or for a task that was never inserted, and \<open>len\<close> counts the rest.\<close>

theorem join_set_conserves:
  "(let r = js_runs ops xs s in
     distinct (js_returned r @ js_set r @ js_detached r) \<and>
     set (js_returned r) \<union> set (js_set r) \<union> set (js_detached r) = set (js_inserted r) \<and>
     length (js_returned r) + length (js_set r) + length (js_detached r) = length (js_inserted r))"
proof -
  let ?r = "js_runs ops xs s"
  have inv: "distinct (js_inserted ?r)"
    "mset (js_inserted ?r) = mset (js_returned ?r @ js_set ?r @ js_detached ?r)"
    using js_runs_inv [of ops xs s] by (simp_all add: js_inv_def)
  then have "distinct (js_returned ?r @ js_set ?r @ js_detached ?r)"
    by (metis mset_eq_imp_distinct_iff)
  moreover have "set (js_inserted ?r) = set (js_returned ?r @ js_set ?r @ js_detached ?r)"
    using inv(2) by (rule mset_eq_setD)
  moreover have "length (js_inserted ?r) = length (js_returned ?r @ js_set ?r @ js_detached ?r)"
    using inv(2) by (rule mset_eq_length)
  ultimately show ?thesis by (auto simp: Let_def)
qed


text \<open>Dropping a join handle leaves its abort handles without effect: the task, which goes on
  detached, cannot be aborted any more and is reported as finished whether it is or not; before the
  drop the same abort handle cancels the task.\<close>

theorem detached_task_not_abortable:
  assumes "jn_inner w h = Some t"
  shows "jn_tasks (inner_abort ops (abort_handle h) w) = tk_cancel ops t (jn_tasks w) \<and>
    jn_tasks (inner_abort ops (abort_handle h) (join_drop ops h w)) = tk_detach ops t (jn_tasks w) \<and>
    inner_is_finished ops (abort_handle h) w = tk_finished ops t (jn_tasks w) \<and>
    inner_is_finished ops (abort_handle h) (join_drop ops h w)"
  using assms by (simp add: inner_abort_def inner_take_def join_drop_def inner_is_finished_def
      abort_handle_def)

section \<open>The properties at work\<close>

text \<open>
  An executor in small: a list of the tasks cancelled so far; tasks are numbers, an even task is done
  and gives its number, an odd one waits.
\<close>

definition demo_tasks :: "(nat, nat, nat list) task_ops" where
  "demo_tasks = \<lparr>tk_cancel = (\<lambda>t s. s @ [t]), tk_detach = (\<lambda>t s. s), tk_finished = (\<lambda>t s. even t),
     tk_poll = (\<lambda>t s. (if even t then Ready (Some t) else Pending, s)), tk_woken = (\<lambda>hs s. hs)\<rparr>"

definition demo_joins :: "(nat, nat list) joins" where
  "demo_joins = \<lparr>jn_inner = (\<lambda>h. if h < 2 then Some (h + 10) else None), jn_next = 2, jn_tasks = []\<rparr>"


lemma detached_task_not_abortable_witness:
  "jn_tasks (inner_abort demo_tasks (abort_handle 1) (join_drop demo_tasks 1 demo_joins)) = [] \<and>
   inner_is_finished demo_tasks (abort_handle 1) (join_drop demo_tasks 1 demo_joins)"
  using detached_task_not_abortable [of demo_joins 1 11 demo_tasks]
  by (simp add: demo_joins_def demo_tasks_def)

text \<open>A set with a task that is done and one that waits gives out the first only.\<close>

lemma join_set_demo:
  "js_returned (js_runs demo_tasks [JsInsert 3, JsInsert 4, JsPoll, JsPoll] []) = [1]"
  by (simp add: js_runs_def js_start_def js_insert_def inner_new_def poll_join_next_def join_poll_def
      demo_tasks_def join_drop_def inner_take_def)

end
