(* ===== verification/Runtime.thy ===== *)
theory Runtime
  imports Executor Socket_Api Fs
begin

text \<open>
  The runtime of \<open>msim/src/sim/runtime/mod.rs\<close>: its construction, the switch that makes it check
  determinism, and the watchdog thread; and the thread-local state around it: the current handle
  and task (\<open>runtime/context.rs\<close>), and whether library calls are intercepted (\<open>intercept.rs\<close>).
\<close>

section \<open>Thread-local state\<close>

text \<open>\<open>CONTEXT\<close>, \<open>TASK\<close> (a task's incarnation) and \<open>INTERCEPTS_ENABLED\<close> of one thread.\<close>

record 'h thread_ctx =
  tc_handle :: "'h option"
  tc_task :: "nat option"
  tc_intercepts :: bool

definition thread_start :: "'h thread_ctx" where
  "thread_start = \<lparr>tc_handle = None, tc_task = None, tc_intercepts = False\<rparr>"

definition ctx_current :: "'h thread_ctx \<Rightarrow> 'h run" where
  "ctx_current c = expect ContextMissing (tc_handle c)"

definition ctx_try_current :: "'h thread_ctx \<Rightarrow> 'h option" where
  "ctx_try_current c = tc_handle c"

definition try_current_task :: "'h thread_ctx \<Rightarrow> nat option" where
  "try_current_task c = tc_task c"

definition current_node :: "('g, 'c, 'p) exec \<Rightarrow> 'h thread_ctx \<Rightarrow> node_id run" where
  "current_node ex c =
     bind_run (expect ContextMissing (tc_task c)) (\<lambda>i. Ret (ti_node (info_of i ex)))"

text \<open>A guard keeps what was current before, and puts it back when it is dropped.\<close>

definition ctx_enter :: "'h \<Rightarrow> 'h thread_ctx \<Rightarrow> 'h option \<times> 'h thread_ctx" where
  "ctx_enter h c = (tc_handle c, c\<lparr>tc_handle := Some h\<rparr>)"

definition enter_guard_drop :: "'h option \<Rightarrow> 'h thread_ctx \<Rightarrow> 'h thread_ctx" where
  "enter_guard_drop old c = c\<lparr>tc_handle := old\<rparr>"

definition enter_task :: "nat \<Rightarrow> 'h thread_ctx \<Rightarrow> nat option \<times> 'h thread_ctx" where
  "enter_task i c = (tc_task c, c\<lparr>tc_task := Some i\<rparr>)"

definition task_guard_drop :: "nat option \<Rightarrow> 'h thread_ctx \<Rightarrow> 'h thread_ctx" where
  "task_guard_drop old c = c\<lparr>tc_task := old\<rparr>"

definition enable_intercepts :: "bool \<Rightarrow> 'h thread_ctx \<Rightarrow> 'h thread_ctx" where
  "enable_intercepts e c = c\<lparr>tc_intercepts := e\<rparr>"

definition intercepts_enabled :: "'h thread_ctx \<Rightarrow> bool" where
  "intercepts_enabled c = tc_intercepts c"

definition enable_intercepts_scoped :: "'h thread_ctx \<Rightarrow> 'h thread_ctx" where
  "enable_intercepts_scoped c = enable_intercepts True c"

definition intercepts_guard_drop :: "'h thread_ctx \<Rightarrow> 'h thread_ctx" where
  "intercepts_guard_drop c = enable_intercepts False c"

definition disable_intercepts_scoped :: "'h thread_ctx \<Rightarrow> bool \<times> 'h thread_ctx" where
  "disable_intercepts_scoped c = (intercepts_enabled c, enable_intercepts False c)"

definition intercepts_restore_guard_drop :: "bool \<Rightarrow> 'h thread_ctx \<Rightarrow> 'h thread_ctx" where
  "intercepts_restore_guard_drop previous c = enable_intercepts previous c"

text \<open>An intercepted library function: the real one unless interception is on.\<close>

definition sys_interceptor :: "'h thread_ctx \<Rightarrow> 'a \<Rightarrow> 'a \<Rightarrow> 'a" where
  "sys_interceptor c next_dl_sym body = (if \<not> intercepts_enabled c then next_dl_sym else body)"

definition is_current_task_killed :: "('g, 'c, 'p) exec \<Rightarrow> 'h thread_ctx \<Rightarrow> bool" where
  "is_current_task_killed ex c =
     (case try_current_task c of Some i \<Rightarrow> ti_killed (info_of i ex) | None \<Rightarrow> True)"

text \<open>\<open>return_if_killed!\<close>, for destructors.\<close>

definition return_if_killed :: "('g, 'c, 'p) exec \<Rightarrow> 'h thread_ctx \<Rightarrow> ('s \<Rightarrow> 's) \<Rightarrow> 's \<Rightarrow> 's" where
  "return_if_killed ex c body s = (if is_current_task_killed ex c then s else body s)"

text \<open>\<open>plugin::simulator\<close>: the simulator of a type in the current runtime.\<close>

definition simulator :: "('h \<Rightarrow> 'k \<Rightarrow> 's option) \<Rightarrow> 'k \<Rightarrow> 'h thread_ctx \<Rightarrow> 's run" where
  "simulator sims k c = bind_run (ctx_current c) (\<lambda>h. expect KeyMissing (sims h k))"

section \<open>The runtime\<close>

text \<open>
  A runtime: its executor, and the two simulators it registers. They share one generator and one
  clock; the network keeps its own copy of both in this model, equal at the start.
\<close>

record ('g, 'f, 'c, 'p) runtime =
  rt_exec :: "('g, 'c, 'p) exec"
  rt_fs :: fs_sim
  rt_net :: "('g, 'f, nat) net_sim"
  rt_tokio_seed :: u64

definition draw_base_time ::
    "('g, 'f) rng_ops \<Rightarrow> string option \<Rightarrow> clock option \<Rightarrow> 'g global_rng \<Rightarrow> (nat \<times> 'g global_rng) run" where
  "draw_base_time ops base clk gr =
     (case base of
        Some _ \<Rightarrow> Ret (0, gr)
      | None \<Rightarrow>
          bind_run (rng_with ops (gen_range ops 0 (60 * 60 * 24 * 365)) clk gr) (\<lambda>(d, _, gr).
            Ret (d, gr)))"

text \<open>
  \<open>with_seed_and_config\<close>. \<open>threads\<close> and \<open>base\<close> are the environment variables
  \<open>MSIM_BLOCKING_THREADS\<close> and \<open>MSIM_BASE_TIME\<close>; \<open>clk\<close> is the clock of the runtime the thread is
  in already, if any.
\<close>

definition with_seed_and_config ::
    "('g, 'f) rng_ops \<Rightarrow> string option \<Rightarrow> string option \<Rightarrow> clock option \<Rightarrow> 'p \<Rightarrow> u64 \<Rightarrow>
     ('g, 'f) network_config \<Rightarrow> 'h thread_ctx \<Rightarrow> (('g, 'f, 'c, 'p) runtime \<times> 'h thread_ctx) run" where
  "with_seed_and_config ops threads base clk p seed config c =
     bind_run (rng_with ops (\<lambda>g. Ret (rng_u64 ops g)) clk (new_with_seed ops seed)) (\<lambda>(tokio, _, gr).
     bind_run (pool_new threads) (\<lambda>pool.
     bind_run (draw_base_time ops base clk gr) (\<lambda>(d, gr).
     bind_run (time_runtime_new base d) (\<lambda>tm.
     bind_run (fst (fs_create_node 0 fs_sim_new)) (\<lambda>_.
       Ret (\<lparr>rt_exec = executor_new pool tm gr p,
             rt_fs = snd (fs_create_node 0 fs_sim_new),
             rt_net = ns_create_node 0 (net_sim_new (gr_rng gr)
               \<lparr>th_timer = timer_default, th_clock = th_clock tm\<rparr> config),
             rt_tokio_seed = tokio\<rparr>, enable_intercepts True c))))))"

definition with_seed ::
    "('g, 'f) rng_ops \<Rightarrow> string option \<Rightarrow> string option \<Rightarrow> clock option \<Rightarrow> 'p \<Rightarrow> u64 \<Rightarrow>
     'h thread_ctx \<Rightarrow> (('g, 'f :: zero, 'c, 'p) runtime \<times> 'h thread_ctx) run" where
  "with_seed ops threads base clk p seed =
     with_seed_and_config ops threads base clk p seed network_config_default"

definition upd_exec :: "('g, 'c, 'p) exec \<Rightarrow> ('g, 'f, 'c, 'p) runtime \<Rightarrow> ('g, 'f, 'c, 'p) runtime" where
  "upd_exec ex rt = rt\<lparr>rt_exec := ex\<rparr>"

text \<open>\<open>enable_determinism_check\<close>: only before any virtual time has passed.\<close>

definition enable_determinism_check ::
    "u8 list option \<Rightarrow> ('g, 'f, 'c, 'p) runtime \<Rightarrow> ('g, 'f, 'c, 'p) runtime run" where
  "enable_determinism_check log rt =
     (let ex = rt_exec rt in
      bind_run (time_since_clock_base (ex_time ex)) (\<lambda>(d, tm).
      bind_run (assert_run (d = 0) AssertFailed) (\<lambda>_.
        Ret (upd_exec (ex\<lparr>ex_time := tm, ex_rand := (case log of
             Some l \<Rightarrow> enable_check l (ex_rand ex) | None \<Rightarrow> enable_log (ex_rand ex))\<rparr>) rt))))"

definition take_rand_log :: "('g, 'f, 'c, 'p) runtime \<Rightarrow> u8 list option" where
  "take_rand_log rt = fst (take_log (ex_rand (rt_exec rt)))"

text \<open>\<open>block_on\<close> enters the handle for as long as it runs.\<close>

definition runtime_block_on ::
    "('h thread_ctx \<Rightarrow> 'a \<times> 'h thread_ctx) \<Rightarrow> 'h \<Rightarrow> 'h thread_ctx \<Rightarrow> 'a \<times> 'h thread_ctx" where
  "runtime_block_on body h c =
     (case ctx_enter h c of (old, c) \<Rightarrow> case body c of (x, c) \<Rightarrow> (x, enter_guard_drop old c))"

section \<open>The watchdog\<close>

text \<open>The receiving end of the stop channel: nothing yet, the signal, or its sender is gone.\<close>

datatype stop_rx = StopOpen | StopSent | StopDropped

datatype watchdog_end = WatchdogStopped | DeadlockDetected | WentBackwards

definition WATCHDOG_LIMIT :: nat where
  "WATCHDOG_LIMIT = 10"

text \<open>One round after the sleep: what became of the watchdog, or the time seen and the count.\<close>

definition watchdog_step ::
    "stop_rx \<times> instant \<Rightarrow> instant \<times> nat \<Rightarrow> watchdog_end + instant \<times> nat" where
  "watchdog_step tick st =
     (case (tick, st) of ((stop, now), (prev, deadlock_count)) \<Rightarrow>
        if stop = StopSent then Inl WatchdogStopped
        else if now < prev then Inl WentBackwards
        else
          (let n = (if now = prev then deadlock_count + 1 else 0)
           in if WATCHDOG_LIMIT < n then Inl DeadlockDetected else Inr (now, n)))"

text \<open>The rounds so far: \<open>None\<close> while the watchdog goes on watching.\<close>

fun watchdog_loop :: "(stop_rx \<times> instant) list \<Rightarrow> instant \<times> nat \<Rightarrow> watchdog_end option" where
  "watchdog_loop [] st = None"
| "watchdog_loop (t # ts) st =
     (case watchdog_step t st of Inl e \<Rightarrow> Some e | Inr st \<Rightarrow> watchdog_loop ts st)"

text \<open>
  The thread: \<open>first\<close> is the time it sees at the start. With \<open>MSIM_DISABLE_WATCHDOG\<close> it only waits
  for the stop signal, and panics when its sender goes away instead.
\<close>

definition start_watchdog_with ::
    "bool \<Rightarrow> instant \<Rightarrow> (stop_rx \<times> instant) list \<Rightarrow> watchdog_end option run" where
  "start_watchdog_with disabled first ticks =
     (if disabled then
        (case filter (\<lambda>s. s \<noteq> StopOpen) (map fst ticks) of
           [] \<Rightarrow> Ret None
         | s # _ \<Rightarrow> if s = StopSent then Ret (Some WatchdogStopped) else Panic UnwrapNone)
      else Ret (watchdog_loop ticks (first, 0)))"

end
