(* ===== verification/Runtime_Facts.thy ===== *)
theory Runtime_Facts
  imports Runtime
begin

text \<open>
  Facts about the runtime: nested guards put the thread's state back, the determinism check can
  only be switched on before time passes, and when the watchdog fires.
\<close>

section \<open>Guards\<close>

text \<open>Well-nested uses of the guards of one thread.\<close>

datatype 'h scope_kind = WithHandle 'h | WithTask nat | InterceptsOff

datatype 'h scope = Scope "'h scope_kind" "'h scope list"

fun run_scope :: "'h scope \<Rightarrow> 'h thread_ctx \<Rightarrow> 'h thread_ctx" where
  "run_scope (Scope k ss) c =
     (case k of
        WithHandle h \<Rightarrow> (case ctx_enter h c of (old, c) \<Rightarrow> enter_guard_drop old (fold run_scope ss c))
      | WithTask i \<Rightarrow> (case enter_task i c of (old, c) \<Rightarrow> task_guard_drop old (fold run_scope ss c))
      | InterceptsOff \<Rightarrow>
          (case disable_intercepts_scoped c of (old, c) \<Rightarrow>
             intercepts_restore_guard_drop old (fold run_scope ss c)))"

lemmas ctx_defs = ctx_enter_def enter_guard_drop_def enter_task_def task_guard_drop_def
  disable_intercepts_scoped_def intercepts_restore_guard_drop_def enable_intercepts_def
  intercepts_enabled_def

lemma fold_id: "(\<And>s c. s \<in> set ss \<Longrightarrow> f s c = c) \<Longrightarrow> fold f ss c = c"
  by (induction ss) simp_all

lemma run_scope_id: "run_scope s c = c"
proof (induction s arbitrary: c)
  case (Scope k ss)
  then have "fold run_scope ss c' = c'" for c'
    by (intro fold_id)
  then show ?case by (cases k; cases c) (simp_all add: ctx_defs)
qed

section \<open>The watchdog\<close>

text \<open>Some \<open>n + 1\<close> observations in a row are equal.\<close>

definition stalled :: "nat \<Rightarrow> instant list \<Rightarrow> bool" where
  "stalled n obs \<longleftrightarrow> (\<exists>i. i + n < length obs \<and> (\<forall>j \<le> n. obs ! (i + j) = obs ! i))"

lemma stalled_replicate: "n < k \<Longrightarrow> stalled n (replicate k p @ obs)"
  unfolding stalled_def by (intro exI [of _ 0]) (simp add: nth_append)

text \<open>A short run that ends does not count.\<close>

lemma stalled_skip:
  assumes "k \<le> n" and "x \<noteq> p"
  shows "stalled n (replicate k p @ x # obs) \<longleftrightarrow> stalled n (x # obs)"
proof
  assume "stalled n (replicate k p @ x # obs)"
  then obtain i where i: "i + n < length (replicate k p @ x # obs)"
    and eq: "\<And>j. j \<le> n \<Longrightarrow> (replicate k p @ x # obs) ! (i + j) = (replicate k p @ x # obs) ! i"
    unfolding stalled_def by blast
  have "k \<le> i"
  proof (rule ccontr)
    assume "\<not> k \<le> i"
    then have "k - i \<le> n" and "i + (k - i) = k" and "(replicate k p @ x # obs) ! i = p"
      using assms(1) by (auto simp: nth_append)
    with eq [of "k - i"] show False
      using assms(2) by (simp add: nth_append)
  qed
  then have "i - k + n < length (x # obs)" and
    "\<And>j. j \<le> n \<Longrightarrow> (x # obs) ! (i - k + j) = (x # obs) ! (i - k)"
    using i eq by (auto simp: nth_append)
  then show "stalled n (x # obs)"
    unfolding stalled_def by blast
next
  assume "stalled n (x # obs)"
  then obtain i where "i + n < length (x # obs)"
    and "\<forall>j \<le> n. (x # obs) ! (i + j) = (x # obs) ! i"
    unfolding stalled_def by blast
  then show "stalled n (replicate k p @ x # obs)"
    unfolding stalled_def by (intro exI [of _ "k + i"]) (simp add: nth_append)
qed

lemma watchdog_loop_stalled:
  assumes "c \<le> 10" and "\<forall>t \<in> set ts. fst t \<noteq> StopSent" and "sorted (p # map snd ts)"
  shows "watchdog_loop ts (p, c) =
    (if stalled 11 (replicate (Suc c) p @ map snd ts) then Some DeadlockDetected else None)"
  using assms
proof (induction ts arbitrary: p c)
  case Nil
  then show ?case by (simp add: stalled_def)
next
  case (Cons t ts)
  obtain s x where t: "t = (s, x)"
    by (cases t)
  have le: "p \<le> x" and sx: "sorted (x # map snd ts)" and s: "s \<noteq> StopSent"
    and ts: "\<forall>t \<in> set ts. fst t \<noteq> StopSent"
    using Cons.prems by (auto simp: t)
  show ?case
  proof (cases "x = p")
    case False
    have "watchdog_loop (t # ts) (p, c) = watchdog_loop ts (x, 0)"
      using False le s by (simp add: t watchdog_step_def WATCHDOG_LIMIT_def)
    then show ?thesis
      using Cons.IH [OF _ ts sx, of 0] stalled_skip [of "Suc c" 11 x p "map snd ts"] False Cons.prems(1)
      by (simp add: t)
  next
    case True
    have r: "replicate (Suc c) p @ map snd (t # ts) = replicate (Suc (Suc c)) p @ map snd ts"
      by (simp add: t True flip: replicate_append_same)
    show ?thesis
    proof (cases "c = 10")
      case True
      then have "stalled 11 (replicate (Suc c) p @ map snd (t # ts))"
        unfolding r by (intro stalled_replicate) simp
      moreover have "watchdog_loop (t # ts) (p, c) = Some DeadlockDetected"
        using True \<open>x = p\<close> s by (simp add: t watchdog_step_def WATCHDOG_LIMIT_def)
      ultimately show ?thesis by simp
    next
      case False
      then have "watchdog_loop (t # ts) (p, c) = watchdog_loop ts (x, Suc c)"
        using True s Cons.prems(1) by (simp add: t watchdog_step_def WATCHDOG_LIMIT_def)
      moreover have "Suc c \<le> 10"
        using False Cons.prems(1) by simp
      ultimately show ?thesis
        unfolding r using Cons.IH [OF _ ts sx, of "Suc c"] True by simp
    qed
  qed
qed

section \<open>Properties\<close>


text \<open>The determinism check can be switched on in a fresh runtime and not any more once any
  virtual time has passed.\<close>

theorem determinism_check_at_init:
  assumes "with_seed_and_config ops threads base clk p seed config c = Ret (rt, c')"
  shows "(\<exists>rt'. enable_determinism_check log rt = Ret rt' \<and>
      ex_rand (rt_exec rt') = (case log of Some l \<Rightarrow> enable_check l (ex_rand (rt_exec rt))
        | None \<Rightarrow> enable_log (ex_rand (rt_exec rt)))) \<and>
    tc_intercepts c' \<and> rt_fs rt = snd (fs_create_node 0 fs_sim_new) \<and>
    (\<forall>d tm. 0 < d \<longrightarrow> time_advance d (ex_time (rt_exec rt)) = Ret tm \<longrightarrow>
      enable_determinism_check log (upd_exec ((rt_exec rt)\<lparr>ex_time := tm\<rparr>) rt) = Panic AssertFailed)"
proof -
  obtain bt where tm: "ex_time (rt_exec rt) = \<lparr>th_timer = timer_default, th_clock = clock_new bt\<rparr>"
    and c': "tc_intercepts c'" and fs: "rt_fs rt = snd (fs_create_node 0 fs_sim_new)"
    using assms
    by (auto simp: with_seed_and_config_def time_runtime_new_def executor_new_def
        enable_intercepts_def run_simps)
  have "time_since_clock_base (ex_time (rt_exec rt)) = Ret (0, \<lparr>th_timer = timer_default,
      th_clock = (clock_new bt)\<lparr>abort_counter := ABORT_COUNTER_START - 1\<rparr>\<rparr>)"
    by (simp add: tm time_since_clock_base_def clock_time_since_base_def clock_elapsed_def
        check_abort_def clock_new_def dur_sub_def ABORT_COUNTER_START_def)
  then have init: "\<exists>rt'. enable_determinism_check log rt = Ret rt' \<and>
      ex_rand (rt_exec rt') = (case log of Some l \<Rightarrow> enable_check l (ex_rand (rt_exec rt))
        | None \<Rightarrow> enable_log (ex_rand (rt_exec rt)))"
    by (simp add: enable_determinism_check_def upd_exec_def Let_def split: option.split)
  have late: "enable_determinism_check log (upd_exec ((rt_exec rt)\<lparr>ex_time := tm'\<rparr>) rt) =
      Panic AssertFailed" if "0 < d" "time_advance d (ex_time (rt_exec rt)) = Ret tm'" for d tm'
  proof -
    have "th_clock tm' = (clock_new bt)\<lparr>elapsed_time := CLOCK_BASE + d\<rparr>"
      using that(2) by (auto simp: tm time_advance_def clock_advance_def reset_abort_counter_def
          clock_new_def dur_add_def split: if_splits)
    then have "\<exists>tm2. time_since_clock_base tm' = Ret (d, tm2)"
      by (simp add: time_since_clock_base_def clock_time_since_base_def clock_elapsed_def
          check_abort_def clock_new_def dur_sub_def ABORT_COUNTER_START_def)
    then show ?thesis
      using that(1) by (auto simp: enable_determinism_check_def upd_exec_def)
  qed
  from init c' fs late show ?thesis by blast
qed

section \<open>The properties at work\<close>


text \<open>A runtime with seed 3.\<close>

lemma demo_runtime:
  obtains rt c' where "with_seed_and_config demo_rng (Some ''2'') (Some ''7'') None () 3
    network_config_default (thread_start :: unit thread_ctx) = Ret (rt :: (nat, nat, nat, unit) runtime, c')"
proof -
  obtain tm :: "nat exec_cb time_state" where "time_runtime_new (Some ''7'') 0 = Ret tm"
    by (simp add: time_runtime_new_def parse_u64_def digit_val_def instant_simps instant_ok_def)
  then show thesis
    using that
    by (simp add: with_seed_and_config_def rng_with_def new_with_seed_def pool_new_def parse_u64_def
        digit_val_def draw_base_time_def fs_create_node_def fs_bind_def lock_handles_def
        fs_sim_new_def assert_run_def demo_rng_def)
qed

lemma determinism_check_at_init_witness:
  "\<exists>rt c'. with_seed_and_config demo_rng (Some ''2'') (Some ''7'') None () 3 network_config_default
      (thread_start :: unit thread_ctx) = Ret (rt :: (nat, nat, nat, unit) runtime, c') \<and>
    (\<exists>rt'. enable_determinism_check None rt = Ret rt')"
proof (rule demo_runtime)
  fix rt :: "(nat, nat, nat, unit) runtime" and c' :: "unit thread_ctx"
  assume rt: "with_seed_and_config demo_rng (Some ''2'') (Some ''7'') None () 3 network_config_default
    thread_start = Ret (rt, c')"
  have "\<exists>rt'. enable_determinism_check None rt = Ret rt'"
    using determinism_check_at_init [OF rt, of None] by (elim conjE exE) (rule exI)
  with rt show ?thesis by blast
qed

end
