(* ===== verification/Sim_Plugin.thy ===== *)
theory Sim_Plugin
  imports Runtime_Facts
begin

text \<open>
  The interface of simulators, the trait \<open>Simulator\<close> of \<open>msim/src/sim/plugin.rs\<close>, as a locale, and
  its two implementations: the network and the file system. The runtime's \<open>Handle\<close> passes every
  creation, reset and deletion of a node on to all of them.
\<close>

section \<open>The interface\<close>

text \<open>What happens to nodes, and a simulator told about it; \<open>None\<close> is a panic.\<close>

datatype lifecycle = NodeCreated node_id | NodeReset node_id | NodeDeleted node_id

fun tell ::
    "(node_id \<Rightarrow> 's \<Rightarrow> 's option) \<Rightarrow> (node_id \<Rightarrow> 's \<Rightarrow> 's option) \<Rightarrow> (node_id \<Rightarrow> 's \<Rightarrow> 's option) \<Rightarrow>
     lifecycle list \<Rightarrow> 's \<Rightarrow> 's option" where
  "tell create reset delete [] s = Some s"
| "tell create reset delete (x # xs) s =
     Option.bind (case x of NodeCreated n \<Rightarrow> create n s | NodeReset n \<Rightarrow> reset n s | NodeDeleted n \<Rightarrow> delete n s)
       (tell create reset delete xs)"

text \<open>The nodes there are after it.\<close>

fun nodes_after :: "lifecycle list \<Rightarrow> node_id set \<Rightarrow> node_id set" where
  "nodes_after [] ns = ns"
| "nodes_after (NodeCreated n # xs) ns = nodes_after xs (insert n ns)"
| "nodes_after (NodeReset n # xs) ns = nodes_after xs ns"
| "nodes_after (NodeDeleted n # xs) ns = nodes_after xs (ns - {n})"

text \<open>A history that resets and deletes nodes only while they exist.\<close>

fun sensible :: "lifecycle list \<Rightarrow> node_id set \<Rightarrow> bool" where
  "sensible [] ns \<longleftrightarrow> True"
| "sensible (NodeCreated n # xs) ns \<longleftrightarrow> sensible xs (insert n ns)"
| "sensible (NodeReset n # xs) ns \<longleftrightarrow> n \<in> ns \<and> sensible xs ns"
| "sensible (NodeDeleted n # xs) ns \<longleftrightarrow> n \<in> ns \<and> sensible xs (ns - {n})"

text \<open>
  The contract: \<open>knows\<close> are the nodes a simulator in a state satisfying \<open>ok\<close> has something for.
  Creating makes a node known, deleting makes it unknown, resetting changes nothing about it, and a
  known node can always be reset and deleted.
\<close>

locale simulator_plugin =
  fixes create reset delete :: "node_id \<Rightarrow> 's \<Rightarrow> 's option"
    and knows :: "'s \<Rightarrow> node_id set"
    and ok :: "'s \<Rightarrow> bool"
  assumes create_law: "ok s \<Longrightarrow> \<exists>s'. create n s = Some s' \<and> ok s' \<and> knows s' = insert n (knows s)"
    and reset_law: "ok s \<Longrightarrow> n \<in> knows s \<Longrightarrow> \<exists>s'. reset n s = Some s' \<and> ok s' \<and> knows s' = knows s"
    and delete_law: "ok s \<Longrightarrow> n \<in> knows s \<Longrightarrow> \<exists>s'. delete n s = Some s' \<and> ok s' \<and> knows s' = knows s - {n}"
begin

lemma tell_sensible:
  assumes "ok s" and "sensible xs (knows s)"
  shows "\<exists>s'. tell create reset delete xs s = Some s' \<and> ok s' \<and> knows s' = nodes_after xs (knows s)"
  using assms
proof (induction xs arbitrary: s)
  case (Cons x xs)
  have step: "\<exists>s'. (case x of NodeCreated n \<Rightarrow> create n s | NodeReset n \<Rightarrow> reset n s | NodeDeleted n \<Rightarrow> delete n s) =
      Some s' \<and> ok s' \<and> sensible xs (knows s') \<and> nodes_after (x # xs) (knows s) = nodes_after xs (knows s')"
  proof (cases x)
    case (NodeCreated n)
    then show ?thesis using create_law [OF Cons.prems(1), of n] Cons.prems(2) by auto
  next
    case (NodeReset n)
    then show ?thesis using reset_law [OF Cons.prems(1), of n] Cons.prems(2) by auto
  next
    case (NodeDeleted n)
    then show ?thesis using delete_law [OF Cons.prems(1), of n] Cons.prems(2) by auto
  qed
  then obtain s' where "(case x of NodeCreated n \<Rightarrow> create n s | NodeReset n \<Rightarrow> reset n s | NodeDeleted n \<Rightarrow> delete n s) =
      Some s'" "ok s'" "sensible xs (knows s')" "nodes_after (x # xs) (knows s) = nodes_after xs (knows s')"
    by blast
  then show ?case using Cons.IH [of s'] by simp
qed simp

end

section \<open>The network and the file system\<close>

definition returned :: "'s run \<Rightarrow> 's option" where
  "returned r = (case r of Ret s \<Rightarrow> Some s | Panic _ \<Rightarrow> None)"

definition fs_returned :: "unit fs_result \<Rightarrow> fs_sim option" where
  "fs_returned r = (case r of (Ret _, fs) \<Rightarrow> Some fs | (Panic _, _) \<Rightarrow> None)"

lemma dom_nodes_drop_sockets: "nodes (drop_sockets m nw) = nodes nw"
  by (simp add: drop_sockets_def)

definition net_known :: "('g, 'f, 'w) net_sim \<Rightarrow> node_id set" where
  "net_known ns = dom (nodes (ns_network ns))"

definition fs_known :: "fs_sim \<Rightarrow> node_id set" where
  "fs_known fs = dom (fs_handles fs)"

lemma net_create_law:
  "\<exists>s'. Some (ns_create_node n s) = Some s' \<and> net_known s' = insert n (net_known s)"
  by (auto simp: net_known_def ns_create_node_def insert_node_def Let_def dom_nodes_drop_sockets
      split: option.split)

lemma net_reset_law:
  assumes "n \<in> net_known s"
  shows "\<exists>s'. returned (ns_reset_node n s) = Some s' \<and> net_known s' = net_known s"
  using assms
  by (auto simp: returned_def net_known_def ns_reset_node_def with_network'_def reset_node_def
      dom_nodes_drop_sockets)

lemma net_delete_law:
  assumes "n \<in> net_known s"
  shows "\<exists>s'. returned (ns_delete_node n s) = Some s' \<and> net_known s' = net_known s - {n}"
  using assms
  by (auto simp: returned_def net_known_def ns_delete_node_def with_network'_def delete_node_def
      dom_nodes_drop_sockets)

interpretation net: simulator_plugin
  "\<lambda>n s. Some (ns_create_node n s)" "\<lambda>n s. returned (ns_reset_node n s)"
  "\<lambda>n s. returned (ns_delete_node n s)" net_known "\<lambda>_. True"
  using net_create_law net_reset_law net_delete_law by unfold_locales auto

interpretation fsim: simulator_plugin
  "\<lambda>n s. fs_returned (fs_create_node n s)" "\<lambda>n s. fs_returned (fs_reset_node n s)"
  "\<lambda>n s. fs_returned (fs_delete_node n s)" fs_known "\<lambda>s. \<not> fs_poisoned s"
  by unfold_locales
    (auto simp: fs_returned_def fs_known_def fs_create_node_def fs_reset_node_def power_fail_def
      fs_delete_node_def fs_bind_def lock_handles_def)

section \<open>Properties\<close>

lemma known_at_start:
  assumes "with_seed_and_config ops threads base clk p seed config c = Ret (rt, c')"
  shows "net_known (rt_net rt) = {0} \<and> fs_known (rt_fs rt) = {0} \<and> \<not> fs_poisoned (rt_fs rt)"
  using assms
  by (auto simp: with_seed_and_config_def run_simps net_known_def fs_known_def ns_create_node_def
      net_sim_new_def network_new_def insert_node_def fs_create_node_def fs_bind_def
      lock_handles_def fs_sim_new_def split: if_splits)

text \<open>The two simulators of a runtime agree on which nodes there are: from a fresh runtime, where
  both know node 0, any history in which nodes are created and only existing ones are reset and
  deleted is accepted by both without a panic, and then both know exactly the nodes created and not
  deleted since.\<close>

theorem simulators_agree:
  assumes "with_seed_and_config ops threads base clk p seed config c = Ret (rt, c')"
    and "sensible xs {0}"
  shows "\<exists>ns fs.
    tell (\<lambda>n s. Some (ns_create_node n s)) (\<lambda>n s. returned (ns_reset_node n s))
      (\<lambda>n s. returned (ns_delete_node n s)) xs (rt_net rt) = Some ns \<and>
    tell (\<lambda>n s. fs_returned (fs_create_node n s)) (\<lambda>n s. fs_returned (fs_reset_node n s))
      (\<lambda>n s. fs_returned (fs_delete_node n s)) xs (rt_fs rt) = Some fs \<and>
    dom (nodes (ns_network ns)) = nodes_after xs {0} \<and> dom (fs_handles fs) = nodes_after xs {0}"
proof -
  note start = known_at_start [OF assms(1)]
  obtain ns where "tell (\<lambda>n s. Some (ns_create_node n s)) (\<lambda>n s. returned (ns_reset_node n s))
      (\<lambda>n s. returned (ns_delete_node n s)) xs (rt_net rt) = Some ns" "net_known ns = nodes_after xs {0}"
    using net.tell_sensible [where s = "rt_net rt" and xs = xs] start assms(2) by auto
  moreover obtain fs where "tell (\<lambda>n s. fs_returned (fs_create_node n s))
      (\<lambda>n s. fs_returned (fs_reset_node n s)) (\<lambda>n s. fs_returned (fs_delete_node n s)) xs (rt_fs rt) = Some fs"
    "fs_known fs = nodes_after xs {0}"
    using fsim.tell_sensible [where s = "rt_fs rt" and xs = xs] start assms(2) by auto
  ultimately show ?thesis
    by (auto simp: net_known_def fs_known_def)
qed

lemma simulators_agree_witness:
  "\<exists>rt c' ns. with_seed_and_config demo_rng (Some ''2'') (Some ''7'') None () 3 network_config_default
      (thread_start :: unit thread_ctx) = Ret (rt :: (nat, nat, nat, unit) runtime, c') \<and>
    tell (\<lambda>n s. Some (ns_create_node n s)) (\<lambda>n s. returned (ns_reset_node n s))
      (\<lambda>n s. returned (ns_delete_node n s)) [NodeCreated 1, NodeReset 1, NodeCreated 2, NodeDeleted 1]
      (rt_net rt) = Some ns \<and> dom (nodes (ns_network ns)) = {0, 2}"
proof (rule demo_runtime)
  let ?xs = "[NodeCreated 1, NodeReset 1, NodeCreated 2, NodeDeleted 1]"
  fix rt :: "(nat, nat, nat, unit) runtime" and c' :: "unit thread_ctx"
  assume rt: "with_seed_and_config demo_rng (Some ''2'') (Some ''7'') None () 3 network_config_default
    thread_start = Ret (rt, c')"
  have nodes: "sensible ?xs {0}" "nodes_after ?xs {0} = {0, 2}"
    by auto
  obtain ns where "tell (\<lambda>n s. Some (ns_create_node n s)) (\<lambda>n s. returned (ns_reset_node n s))
      (\<lambda>n s. returned (ns_delete_node n s)) ?xs (rt_net rt) = Some ns" "dom (nodes (ns_network ns)) = {0, 2}"
    using simulators_agree [OF rt nodes(1)] unfolding nodes(2) by blast
  with rt show ?thesis by blast
qed

end
