(* ===== verification/Executor_Types.thy ===== *)
theory Executor_Types
  imports Executor_Facts
begin

text \<open>
  Well-formedness of the executor's state: the incarnation a node points to exists, belongs to the
  node and is alive; the vectors of the blocking pool fit together, and only a thread that is in a
  job is asked to abort it. Every operation keeps this, whatever the simulated program does.
\<close>

definition nodes_ok :: "('g, 'c, 'p) exec \<Rightarrow> bool" where
  "nodes_ok ex \<longleftrightarrow> (\<forall>n i. get_node n ex = Some i \<longrightarrow>
     i < ex_next_info ex \<and> ti_node (info_of i ex) = n \<and> \<not> ti_killed (info_of i ex))"

definition pool_ok :: "pool \<Rightarrow> bool" where
  "pool_ok p \<longleftrightarrow> length (qs_abort_requested p) = length (qs_current p) \<and>
     (\<forall>i < length (qs_current p). qs_abort_requested p ! i \<longrightarrow> qs_current p ! i \<noteq> None)"

definition exec_ok :: "('g, 'c, 'p) exec \<Rightarrow> bool" where
  "exec_ok ex \<longleftrightarrow> nodes_ok ex \<and> pool_ok (ex_pool ex)"

text \<open>
  The well-formedness may be joined with a property \<open>J\<close> of the set of nodes and of the program's
  state, in which the registered simulators live: one that the program's own steps keep (\<open>sim\<close>
  relates the states before and after) and the simulators' handlers carry along.
\<close>

definition state_ok ::
    "(node_id set \<Rightarrow> 'p \<Rightarrow> bool) \<Rightarrow> ('g, 'c, 'p) exec \<Rightarrow> bool" where
  "state_ok J ex \<longleftrightarrow> exec_ok ex \<and> J (dom (ex_nodes ex)) (ex_prog ex)"

text \<open>Two states that differ in nothing of this but the program's steps.\<close>

definition calm :: "('p \<Rightarrow> 'p \<Rightarrow> bool) \<Rightarrow> ('g, 'c, 'p) exec \<Rightarrow> ('g, 'c, 'p) exec \<Rightarrow> bool" where
  "calm sim ex ex' \<longleftrightarrow> same_infos ex ex' \<and> (\<forall>n. get_node n ex' = get_node n ex) \<and>
     qs_current (ex_pool ex') = qs_current (ex_pool ex) \<and>
     qs_abort_requested (ex_pool ex') = qs_abort_requested (ex_pool ex) \<and> sim (ex_prog ex) (ex_prog ex')"

lemmas calm_defs = calm_def same_infos_def get_node_def

lemmas ok_defs = state_ok_def exec_ok_def

lemma dom_nodes: "dom (ex_nodes ex) = {n. get_node n ex \<noteq> None}"
  by (auto simp: get_node_def)

lemma same_nodes_dom: "(\<And>n. get_node n ex' = get_node n ex) \<Longrightarrow> dom (ex_nodes ex') = dom (ex_nodes ex)"
  by (simp add: dom_nodes)

lemma schedule_pool [simp]: "ex_pool (schedule t ex) = ex_pool ex" "ex_prog (schedule t ex) = ex_prog ex"
  by (simp_all add: schedule_def split: option.split)

lemma schedule_all_pool [simp]:
  "ex_pool (schedule_all ts ex) = ex_pool ex" "ex_prog (schedule_all ts ex) = ex_prog ex"
  unfolding schedule_all_def by (induction ts arbitrary: ex) simp_all

lemma spawn_local_pool [simp]:
  "ex_pool (snd (spawn_local i ex)) = ex_pool ex" "ex_prog (snd (spawn_local i ex)) = ex_prog ex"
  by (simp_all add: spawn_local_def Let_def)

lemma call_init_pool [simp]: "ex_pool (call_init env init i ex) = ex_pool ex"
  by (simp add: call_init_def spawn_local_def Let_def split: option.split)

lemma job_result_nodes [simp]: "ex_nodes (job_result job r ex) = ex_nodes ex" "ex_prog (job_result job r ex) = ex_prog ex"
  by (simp_all add: job_result_def Let_def split: option.split)

lemma pool_ok_request:
  assumes "pool_ok (ex_pool ex)"
  shows "pool_ok (ex_pool (request_abort_node n ex))"
  using assms by (auto simp: pool_ok_def request_abort_node_def Let_def split: option.splits)

lemma kill_pool:
  assumes "task_kill env ctx n ex = Ret ex'"
  shows "\<exists>ex1. ex' = request_abort_node n ex1 \<and> ex_pool ex1 = ex_pool ex"
  using assms by (auto simp: task_kill_def Let_def new_info_def mark_killed_def upd_info_def)

lemma nodes_okD:
  assumes "nodes_ok ex" "ex_nodes ex n = Some nd"
  shows "ne_info nd < ex_next_info ex" "ti_node (info_of (ne_info nd) ex) = n" "\<not> ti_killed (info_of (ne_info nd) ex)"
  using assms by (auto simp: nodes_ok_def get_node_def)

lemma kill_exec_ok:
  assumes "task_kill env ctx n ex = Ret ex'" "exec_ok ex"
  shows "exec_ok ex'"
proof -
  from assms(2) have ok: "nodes_ok ex" "pool_ok (ex_pool ex)" by (simp_all add: exec_ok_def)
  have "pool_ok (ex_pool ex')" using kill_pool [OF assms(1)] pool_ok_request ok(2) by metis
  moreover have "nodes_ok ex'"
    using assms(1)
  proof (rule task_kill_spec)
    fix nd
    assume nd: "ex_nodes ex n = Some nd" and nx: "ex_next_info ex' = ex_next_info ex + 1"
      and infos: "ex_infos ex' = (let f = (ex_infos ex)(ex_next_info ex := task_info_new n (ti_name (info_of (ne_info nd) ex)))
                     in f(ne_info nd := (f (ne_info nd))\<lparr>ti_killed := True\<rparr>))"
      and nodes: "ex_nodes ex' = (ex_nodes ex)(n \<mapsto> nd\<lparr>ne_paused := [], ne_info := ex_next_info ex\<rparr>)"
    have old: "ne_info nd < ex_next_info ex" "ti_node (info_of (ne_info nd) ex) = n"
      using ok(1) nd by (auto simp: nodes_ok_def get_node_def)
    have other: "ne_info z < ex_next_info ex" "ne_info z \<noteq> ne_info nd" "ne_info z \<noteq> ex_next_info ex"
      if "ex_nodes ex na = Some z" "na \<noteq> n" for na z
      using nodes_okD(1,2) [OF ok(1) that(1)] that(2) old by auto
    show "nodes_ok ex'"
      unfolding nodes_ok_def
    proof (intro allI impI)
      fix na j
      assume na: "get_node na ex' = Some j"
      show "j < ex_next_info ex' \<and> ti_node (info_of j ex') = na \<and> \<not> ti_killed (info_of j ex')"
      proof (cases "na = n")
        case True
        with na old show ?thesis by (auto simp: nx infos nodes get_node_def info_of_def task_info_new_def Let_def)
      next
        case False
        with na obtain z where "ex_nodes ex na = Some z" "j = ne_info z" by (auto simp: nodes get_node_def)
        with False other nodes_okD [OF ok(1)] show ?thesis by (simp add: nx infos info_of_def Let_def less_SucI)
      qed
    qed
  qed
  ultimately show ?thesis by (simp add: exec_ok_def)
qed

lemma create_exec_ok: "exec_ok ex \<Longrightarrow> exec_ok (snd (task_create_node env name init ex))"
  by (auto simp: task_create_node_def Let_def new_info_def exec_ok_def nodes_ok_def info_of_def get_node_def
      task_info_new_def less_Suc_eq)

lemma delete_exec_ok:
  assumes "task_delete_node env ctx n ex = Ret ex'" "exec_ok ex"
  shows "exec_ok ex'"
proof -
  from assms(1) obtain ex1 where k: "task_kill env ctx n ex = Ret ex1"
    and ex': "ex' = ex1\<lparr>ex_nodes := (ex_nodes ex1)(n := None)\<rparr>"
    by (auto simp: task_delete_node_def run_simps)
  from kill_exec_ok [OF k assms(2)] show ?thesis
    by (simp add: ex' exec_ok_def nodes_ok_def get_node_def info_of_def)
qed

lemma kill_dom:
  assumes "task_kill env ctx n ex = Ret ex'"
  shows "n \<in> dom (ex_nodes ex)" "dom (ex_nodes ex') = dom (ex_nodes ex)"
  using assms by (auto elim!: task_kill_spec split: if_splits)

text \<open>The contract between the executor, the program and the simulators.\<close>

locale sims_invariant =
  fixes env :: "('g, 'f, 'c, 'p) env"
    and sim :: "'p \<Rightarrow> 'p \<Rightarrow> bool"
    and J :: "node_id set \<Rightarrow> 'p \<Rightarrow> bool"
  assumes sim_refl: "sim p p"
    and sim_trans: "sim p q \<Longrightarrow> sim q r \<Longrightarrow> sim p r"
    and poll_sim: "sim (ex_prog ex) (snd (snd (en_poll env t ex)))"
    and job_sim: "sim (ex_prog ex) (snd (snd (en_job env t ex)))"
    and drop_sim: "sim p (snd (en_drop env ctx t p))"
    and drop_job_sim: "sim p (snd (en_drop_job env ctx t p))"
    and done_sim: "sim p (snd (en_done env t p))"
    and killed_sim: "sim p (snd (en_killed env t p))"
    and fire_sim: "sim p (snd (en_fire env c p))"
    and init_sim: "sim p (en_init env i t p)"
    and J_sim: "J ns p \<Longrightarrow> sim p q \<Longrightarrow> J ns q"
    and J_create: "J ns p \<Longrightarrow> en_sim_create env n ip p = Ret q \<Longrightarrow> J (insert n ns) q"
    and J_reset: "J ns p \<Longrightarrow> n \<in> ns \<Longrightarrow> en_sim_reset env n p = Ret q \<Longrightarrow> J ns q"
    and J_delete: "J ns p \<Longrightarrow> n \<in> ns \<Longrightarrow> en_sim_delete env n p = Ret q \<Longrightarrow> J (ns - {n}) q"
begin

declare sim_refl [simp, intro]

section \<open>Operations that touch neither\<close>

lemma calm_ok: "calm sim ex ex' \<Longrightarrow> state_ok J ex \<Longrightarrow> state_ok J ex'"
  using same_nodes_dom [of ex' ex] J_sim
  by (auto simp: calm_def ok_defs nodes_ok_def pool_ok_def same_infos_def info_of_def)

lemma calm_refl [simp, intro]: "calm sim ex ex"
  by (simp add: calm_def same_infos_def sim_refl)

lemma calm_trans: "calm sim a b \<Longrightarrow> calm sim b c \<Longrightarrow> calm sim a c"
  using sim_trans by (auto simp: calm_def same_infos_def)

lemma prog_wakes_prog [simp]: "ex_prog (prog_wakes f ex) = snd (f (ex_prog ex))"
  by (simp add: prog_wakes_def split_def)

lemma calm_prog: "sim (ex_prog ex) p \<Longrightarrow> calm sim ex (ex\<lparr>ex_prog := p\<rparr>)"
  by (simp add: calm_defs)

lemma calm_wakes: "(\<And>p. sim p (snd (f p))) \<Longrightarrow> calm sim ex (prog_wakes f ex)"
  by (simp add: calm_defs)

lemma calm_updates [simp, intro]:
  "calm sim ex (schedule t ex)" "calm sim ex (schedule_all ts ex)" "calm sim ex (drop_runnable env ctx t ex)"
  "calm sim ex (snd (spawn_local i ex))" "calm sim ex (call_init env init i ex)" "calm sim ex (set_sys t s ex)"
  "calm sim ex (set_latency l ex)" "calm sim ex (job_result job r ex)" "calm sim ex (sys_done env t ex)"
  "calm sim ex (ex\<lparr>ex_time := tm\<rparr>)"
  by (auto simp: calm_defs set_sys_def set_latency_def drop_runnable_def sys_done_def call_init_def split_def
      sim_refl drop_sim done_sim init_sim split: option.split)

lemmas calm_ok_updates = calm_updates [THEN calm_ok]

lemma calm_draw: "exec_draw env f ex = Ret (x, ex') \<Longrightarrow> calm sim ex ex'"
  by (auto simp: exec_draw_def calm_defs)

lemma calm_pool_spawn: "pool_spawn job i ex = Ret ex' \<Longrightarrow> calm sim ex ex'"
  by (auto simp: pool_spawn_def calm_defs split: prod.splits option.splits)

lemma calm_sample_range: "sample_range env r ex = Ret (x, ex') \<Longrightarrow> calm sim ex ex'"
  by (auto simp: sample_range_def split: if_splits dest: calm_draw)

lemma calm_sample_latency: "sample_latency env ex = Ret (x, ex') \<Longrightarrow> calm sim ex ex'"
  by (auto simp: sample_latency_def split: option.splits dest!: calm_sample_range intro: calm_trans)

lemma calm_spawn_blocking: "spawn_blocking env i ex = Ret (x, ex') \<Longrightarrow> calm sim ex ex'"
  by (auto simp: spawn_blocking_def run_simps Let_def split_def calm_defs
      dest!: calm_sample_latency [unfolded calm_defs] calm_pool_spawn [unfolded calm_defs] intro: sim_trans)

lemma calm_sleeps:
  fixes ex :: "('g, 'c, 'p) exec"
  shows "poll_sys_sleep n t sl ex = Ret (b, ex') \<Longrightarrow> calm sim ex ex'"
  "new_sys_sleep d ex = Ret (sl', ex') \<Longrightarrow> calm sim ex ex'"
  by (auto simp: poll_sys_sleep_def new_sys_sleep_def)

lemma calm_advance: "advance_a_little env ex = Ret ex' \<Longrightarrow> calm sim ex ex'"
  by (auto simp: advance_a_little_def dest!: calm_draw intro: calm_trans)

lemma calm_park: "park t i ex = Ret ex' \<Longrightarrow> calm sim ex ex'"
  by (auto simp: park_def Let_def calm_defs run_simps)

lemma calm_poll_await: "poll_blocking_await env t i job fin ex = Ret ex' \<Longrightarrow> calm sim ex ex'"
  by (auto simp: poll_blocking_await_def run_simps split: option.splits bool.splits
      dest!: calm_sleeps intro: calm_trans) (auto simp: calm_defs set_sys_def)

lemma calm_poll_start: "poll_blocking_start env t i job fin sl ex = Ret ex' \<Longrightarrow> calm sim ex ex'"
  by (auto simp: poll_blocking_start_def run_simps split: if_splits
      dest!: calm_sleeps calm_pool_spawn calm_poll_await intro: calm_trans)

lemma calm_poll_blocking: "poll_blocking env t i job fin stage ex = Ret ex' \<Longrightarrow> calm sim ex ex'"
  by (auto simp: poll_blocking_def split: blocking_stage.splits if_splits
      dest!: calm_sleeps calm_poll_start calm_poll_await intro: calm_trans)

section \<open>Operations on nodes\<close>

lemma exec_ok_cong:
  assumes "state_ok J ex" "ex_infos ex' = ex_infos ex" "ex_next_info ex' = ex_next_info ex"
    "\<And>n. get_node n ex' = get_node n ex" "pool_ok (ex_pool ex')" "ex_prog ex' = ex_prog ex"
  shows "state_ok J ex'"
  using assms same_nodes_dom [OF assms(4)] by (simp add: ok_defs nodes_ok_def info_of_def)

lemma kill_prog:
  assumes "task_kill env ctx n ex = Ret ex'"
  shows "sim (ex_prog ex) (ex_prog ex')"
proof -
  have paused: "sim (ex_prog ex) (ex_prog (fold (drop_runnable env ctx) ts ex))" for ts ex
  proof (induction ts arbitrary: ex)
    case (Cons t ts)
    have "sim (ex_prog ex) (ex_prog (drop_runnable env ctx t ex))" by (simp add: drop_runnable_def drop_sim)
    from sim_trans [OF this Cons.IH] show ?case by simp
  qed simp
  let ?ex = "ex\<lparr>ex_time := disable_node_and_cancel_timers n (ex_time ex)\<rparr>"
  from assms obtain nd where nd: "ex_nodes ex n = Some nd" by (auto simp: task_kill_def Let_def)
  with assms have "ex_prog ex' = snd (en_killed env (ne_info nd) (ex_prog (fold (drop_runnable env ctx) (ne_paused nd) ?ex)))"
    by (auto simp: task_kill_def Let_def new_info_def mark_killed_def upd_info_def request_abort_node_def)
  then show ?thesis using sim_trans [OF paused [of ?ex "ne_paused nd"] killed_sim] by simp
qed

lemma kill_ok:
  assumes "task_kill env ctx n ex = Ret ex'" "state_ok J ex"
  shows "state_ok J ex'"
  using kill_exec_ok [OF assms(1)] kill_dom(2) [OF assms(1)] J_sim [OF _ kill_prog [OF assms(1)]] assms(2)
  by (simp add: state_ok_def)

lemma upd_info_ok:
  assumes "state_ok J ex" "\<And>ti. ti_node (f ti) = ti_node ti" "\<And>ti. ti_killed (f ti) = ti_killed ti"
  shows "state_ok J (upd_info i f ex)"
  using assms by (auto simp: ok_defs nodes_ok_def upd_info_def info_of_def get_node_def)

lemma new_info_ok: "state_ok J ex \<Longrightarrow> state_ok J (snd (new_info n name ex))"
  by (auto simp: ok_defs nodes_ok_def new_info_def info_of_def get_node_def less_Suc_eq)

lemma shutdown_ok':
  fixes ex :: "('g, 'c, 'p) exec"
  assumes "begin_graceful_shutdown n r b d ex = Ret ex'" "state_ok J ex"
  shows "state_ok J ex'"
proof -
  from assms(1) obtain nd where "ex_nodes ex n = Some nd" by (auto simp: begin_graceful_shutdown_def)
  show ?thesis
  proof (cases "is_shutting_down (info_of (ne_info nd) ex)")
    case True
    with assms \<open>ex_nodes ex n = Some nd\<close> show ?thesis by (simp add: begin_graceful_shutdown_def)
  next
    case False
    let ?f = "\<lambda>dl ti. ti\<lparr>ti_shutdown := Some \<lparr>gs_restart_after = r, gs_deadline = dl\<rparr>,
        ti_polls_left := min b (usize_max - 1)\<rparr>"
    from assms(1) False \<open>ex_nodes ex n = Some nd\<close> obtain dl tm l where
      ex': "ex' = (upd_info (ne_info nd) (?f dl) (ex\<lparr>ex_time := tm\<rparr>))\<lparr>ex_shutting := l\<rparr>"
      by (auto simp: begin_graceful_shutdown_def Let_def)
    have "state_ok J (upd_info (ne_info nd) (?f dl) (ex\<lparr>ex_time := tm\<rparr>))"
      using calm_ok [OF calm_updates(10) assms(2)] by (rule upd_info_ok) simp_all
    then show ?thesis unfolding ex' by (rule exec_ok_cong)
      (use assms(2) in \<open>auto simp: get_node_def ok_defs upd_info_def\<close>)
  qed
qed

lemma pause_ok: "task_pause n ex = Ret ex' \<Longrightarrow> state_ok J ex \<Longrightarrow> state_ok J ex'"
  by (auto simp: task_pause_def intro!: upd_info_ok)

lemma resume_ok:
  assumes "task_resume n ex = Ret ex'" "state_ok J ex"
  shows "state_ok J ex'"
proof -
  from assms(1) obtain nd q where nd: "ex_nodes ex n = Some nd"
    and ex': "ex' = (upd_info (ne_info nd) (\<lambda>ti. ti\<lparr>ti_paused := False\<rparr>) ex)
        \<lparr>ex_queue := q, ex_nodes := (ex_nodes ex)(n \<mapsto> nd\<lparr>ne_paused := []\<rparr>)\<rparr>"
    by (auto simp: task_resume_def Let_def upd_info_def)
  have "state_ok J (upd_info (ne_info nd) (\<lambda>ti. ti\<lparr>ti_paused := False\<rparr>) ex)"
    using assms(2) by (rule upd_info_ok) simp_all
  then show ?thesis unfolding ex' by (rule exec_ok_cong)
      (use nd assms(2) in \<open>auto simp: get_node_def ok_defs upd_info_def\<close>)
qed

lemma restart_ok:
  assumes "task_restart env ctx n ex = Ret ex'" "state_ok J ex"
  shows "state_ok J ex'"
proof -
  from assms(1) obtain ex1 where k: "task_kill env ctx n ex = Ret ex1" and "calm sim ex1 ex'"
    by (auto simp: task_restart_def run_simps intro!: calm_trans [OF calm_updates(10) calm_updates(5)])
  then show ?thesis using kill_ok assms(2) calm_ok by blast
qed

lemma reset_ok:
  assumes "on_sims (en_sim_reset env n) ex = Ret ex'" "state_ok J ex" "n \<in> dom (ex_nodes ex)"
  shows "state_ok J ex'"
proof -
  from assms(1) obtain q where q: "en_sim_reset env n (ex_prog ex) = Ret q" and ex': "ex' = ex\<lparr>ex_prog := q\<rparr>"
    by (auto simp: on_sims_def)
  have "J (dom (ex_nodes ex)) q" by (rule J_reset [OF _ assms(3) q]) (use assms(2) in \<open>simp add: state_ok_def\<close>)
  with assms(2) show ?thesis by (simp add: ex' ok_defs nodes_ok_def get_node_def info_of_def)
qed

lemma restart_dom: "task_restart env ctx n ex = Ret ex' \<Longrightarrow> n \<in> dom (ex_nodes ex')"
  by (auto simp: task_restart_def run_simps)

lemma handle_kill_ok:
  assumes "handle_kill env ctx n ex = Ret ex'" "state_ok J ex"
  shows "state_ok J ex'"
proof -
  from assms(1) obtain ex1 where k: "task_kill env ctx n ex = Ret ex1" and r: "on_sims (en_sim_reset env n) ex1 = Ret ex'"
    by (auto simp: handle_kill_def)
  from kill_dom [OF k] have "n \<in> dom (ex_nodes ex1)" by simp
  with r kill_ok [OF k assms(2)] show ?thesis by (rule reset_ok)
qed

lemma handle_restart_ok:
  assumes "handle_restart env ctx n ex = Ret ex'" "state_ok J ex"
  shows "state_ok J ex'"
proof -
  from assms(1) obtain ex1 where k: "task_restart env ctx n ex = Ret ex1" and r: "on_sims (en_sim_reset env n) ex1 = Ret ex'"
    by (auto simp: handle_restart_def)
  from r restart_ok [OF k assms(2)] restart_dom [OF k] show ?thesis by (rule reset_ok)
qed

lemma handle_delete_ok:
  assumes "handle_delete_node env ctx n ex = Ret ex'" "state_ok J ex"
  shows "state_ok J ex'"
proof -
  from assms(1) obtain ex1 ex2 q where k: "task_kill env ctx n ex = Ret ex1" and d: "task_delete_node env ctx n ex = Ret ex2"
    and ex2: "ex2 = ex1\<lparr>ex_nodes := (ex_nodes ex1)(n := None)\<rparr>"
    and q: "en_sim_delete env n (ex_prog ex2) = Ret q" "ex' = ex2\<lparr>ex_prog := q\<rparr>"
    by (auto simp: handle_delete_node_def task_delete_node_def on_sims_def run_simps)
  have "state_ok J ex1" using kill_ok [OF k assms(2)] .
  then have "J (dom (ex_nodes ex1) - {n}) q"
    using q(1) kill_dom [OF k] by (auto simp: ex2 state_ok_def intro: J_delete)
  then show ?thesis using delete_exec_ok [OF d] assms(2)
    by (simp add: q(2) ex2 ok_defs nodes_ok_def get_node_def info_of_def)
qed

lemma build_ok:
  assumes "node_builder_build env b ex = Ret (n, ex')" "state_ok J ex"
  shows "state_ok J ex'"
proof -
  let ?c = "task_create_node env (nb_name b) (nb_init b) ex"
  from assms(1) obtain q where n: "n = fst (fst ?c)" and q: "en_sim_create env n (nb_ip b) (ex_prog (snd ?c)) = Ret q"
    and ex': "ex' = (snd ?c)\<lparr>ex_prog := q\<rparr>"
    by (auto simp: node_builder_build_def on_sims_def split: prod.splits)
  have d: "dom (ex_nodes (snd ?c)) = insert n (dom (ex_nodes ex))" and sm: "sim (ex_prog ex) (ex_prog (snd ?c))"
    unfolding n by (auto simp: task_create_node_def Let_def new_info_def call_init_def split_def
        sim_refl init_sim split: option.split)
  have "J (dom (ex_nodes ex)) (ex_prog (snd ?c))" using J_sim [OF _ sm] assms(2) by (simp add: state_ok_def)
  then have "J (dom (ex_nodes (snd ?c))) q" unfolding d by (rule J_create [OF _ q])
  with create_exec_ok [of ex env "nb_name b" "nb_init b"] assms(2) show ?thesis
    by (simp add: ex' ok_defs nodes_ok_def get_node_def info_of_def)
qed

lemma apply_call_ok: "apply_call env ctx c ex = Ret ex' \<Longrightarrow> state_ok J ex \<Longrightarrow> state_ok J ex'"
  by (cases c) (auto simp: or_nothing_def run_simps intro: handle_kill_ok handle_restart_ok handle_delete_ok build_ok pause_ok resume_ok
    shutdown_ok' calm_ok [OF calm_spawn_blocking] calm_ok_updates)

lemma apply_calls_ok: "apply_calls env ctx cs ex = Ret ex' \<Longrightarrow> state_ok J ex \<Longrightarrow> state_ok J ex'"
  by (induction cs arbitrary: ex) (auto dest: apply_call_ok)

section \<open>Running\<close>

lemma spawn_main_ok:
  fixes ex :: "('g, 'c, 'p) exec"
  shows "state_ok J ex \<Longrightarrow> state_ok J (snd (spawn_on_main_task ex))"
  using new_info_ok [of ex 0 "''main''"]
  by (auto simp: spawn_on_main_task_def split_def intro: calm_ok)

lemma handle_task_panic_ok:
  fixes ex :: "('g, 'c, 'p) exec"
  shows "state_ok J ex \<Longrightarrow> state_ok J (handle_task_panic n r ex)"
  using spawn_main_ok [of ex]
  by (auto simp: handle_task_panic_def split_def
      intro: calm_ok [OF calm_updates(6) [unfolded set_sys_def]] split: option.split)

lemma kill_current_ok:
  "kill_current_node_impl env i ex = Ret ex' \<Longrightarrow> state_ok J ex \<Longrightarrow> state_ok J ex'"
  "kill_current_node env i r ex = Ret (d, ex') \<Longrightarrow> state_ok J ex \<Longrightarrow> state_ok J ex'"
  by (auto simp: kill_current_node_impl_def kill_current_node_def run_simps
      intro: handle_kill_ok calm_ok [OF calm_draw] split: option.splits)

lemma poll_restart_ok:
  "poll_restart env t i n stage ex = Ret ex' \<Longrightarrow> state_ok J ex \<Longrightarrow> state_ok J ex'"
  by (auto simp: poll_restart_def Let_def run_simps split: if_splits restart_stage.splits
      intro!: calm_ok [OF calm_updates(6)] intro: handle_restart_ok
      dest!: calm_ok [OF calm_sleeps(1)] calm_ok [OF calm_sleeps(2)])

lemma run_task_ok:
  assumes "run_task env t i ex = Ret ex'" "state_ok J ex"
  shows "state_ok J ex'"
proof (cases "ex_sys ex t")
  case None
  obtain out calls p where e: "en_poll env t ex = (out, calls, p)" by (metis prod_cases3)
  moreover have "state_ok J (ex\<lparr>ex_prog := p\<rparr>)" using poll_sim [of ex t] assms(2) by (auto simp: e intro: calm_ok [OF calm_prog])
  ultimately show ?thesis using assms(1) None
    by (cases out) (auto simp: run_task_def
        intro: handle_task_panic_ok dest: apply_calls_ok kill_current_ok)
next
  case (Some s)
  with assms show ?thesis
    by (auto simp: run_task_def split: sys_task.splits intro: poll_restart_ok calm_ok [OF calm_poll_blocking])
qed

lemma finish_shutdown_ok:
  assumes "finish_graceful_shutdown env i ex = Ret ex'" "state_ok J ex"
  shows "state_ok J ex'"
proof -
  have "state_ok J (ex\<lparr>ex_shutting := filter (\<lambda>j. j \<noteq> i) (ex_shutting ex)\<rparr>)"
    using assms(2) by (rule exec_ok_cong) (use assms(2) in \<open>auto simp: get_node_def ok_defs\<close>)
  with assms(1) show ?thesis
    by (auto simp: finish_graceful_shutdown_def Let_def split: if_splits
        intro: handle_task_panic_ok dest: handle_kill_ok)
qed

lemma handle_runnable_ok:
  assumes "handle_runnable env t i ex = Ret (e, ex')" "state_ok J ex"
  shows "state_ok J ex'"
proof -
  have "state_ok J (upd_info i (\<lambda>ti. ti\<lparr>ti_polls_left := ti_polls_left ti - 1\<rparr>) ex)"
    using assms(2) by (rule upd_info_ok) simp_all
  with assms show ?thesis
    by (auto simp: handle_runnable_def Let_def run_simps split: if_splits
        intro!: calm_ok [OF calm_updates(3)] intro: calm_ok [OF calm_park] calm_ok [OF calm_advance]
        dest: run_task_ok finish_shutdown_ok)
qed

lemma same_ok:
  assumes "state_ok J ex" "same_infos ex ex'" "ex_nodes ex' = ex_nodes ex" "ex_pool ex' = ex_pool ex"
    "ex_prog ex' = ex_prog ex"
  shows "state_ok J ex'"
  using assms by (simp add: ok_defs nodes_ok_def same_infos_def info_of_def get_node_def)

lemma ready_iter_ok:
  assumes "ready_iter env ex = Ret (r, ex')" "state_ok J ex"
  shows "state_ok J ex'"
proof -
  from assms(1) obtain x q clk gr where
    rc: "chan_try_recv_random (en_ops env) (Some (th_clock (ex_time ex))) (ex_rand ex) (ex_queue ex) = Ret (x, q, clk, gr)"
    by (auto simp: ready_iter_def)
  let ?ex = "ex\<lparr>ex_queue := q, ex_rand := gr,
           ex_time := (case clk of Some c \<Rightarrow> (ex_time ex)\<lparr>th_clock := c\<rparr> | None \<Rightarrow> ex_time ex)\<rparr>"
  have ok: "state_ok J ?ex" by (rule same_ok [OF assms(2)]) (simp_all add: same_infos_def)
  show ?thesis
  proof (cases x)
    case (Inl a)
    with assms(1) rc ok show ?thesis by (simp add: ready_iter_def)
  next
    case (Inr ti)
    obtain t i where "ti = (t, i)" by fastforce
    with assms(1) rc Inr obtain e where "handle_runnable env t i ?ex = Ret (e, ex')"
      by (auto simp: ready_iter_def)
    from handle_runnable_ok [OF this ok] show ?thesis .
  qed
qed

lemma finish_all_ok: "finish_all env is ex = Ret ex' \<Longrightarrow> state_ok J ex \<Longrightarrow> state_ok J ex'"
  by (induction "is" arbitrary: ex) (auto dest: finish_shutdown_ok)

lemma finish_expired_ok: "finish_expired env ex = Ret ex' \<Longrightarrow> state_ok J ex \<Longrightarrow> state_ok J ex'"
  by (auto simp: finish_expired_def Let_def dest!: finish_all_ok intro: calm_ok [OF calm_updates(10)])

section \<open>The blocking pool\<close>

lemma upd_pool_ok: "state_ok J ex \<Longrightarrow> pool_ok (f (ex_pool ex)) \<Longrightarrow> state_ok J (upd_pool f ex)"
  by (simp add: ok_defs nodes_ok_def upd_pool_def info_of_def get_node_def)

lemma nth_upd: "j < length xs \<Longrightarrow> xs[i := x] ! j = (if j = i then x else xs ! j)"
  by (cases "i < length xs") (auto simp: nth_list_update)

lemma pool_ok_clear:
  "pool_ok p \<Longrightarrow> pool_ok (p\<lparr>qs_current := (qs_current p)[me := None], qs_abort_requested := (qs_abort_requested p)[me := False]\<rparr>)"
  by (auto simp: pool_ok_def nth_upd split: if_splits)

lemma pool_ok_complete: "pool_ok p \<Longrightarrow> pool_ok (note_complete me p)"
  using pool_ok_clear by (simp add: note_complete_def)

lemma pool_ok_dequeue:
  assumes "pool_ok p" "job = None \<Longrightarrow> me < length (qs_current p) \<Longrightarrow> qs_current p ! me = None"
  shows "pool_ok (note_dequeue me job p)"
  using assms by (cases job) (auto simp: pool_ok_def note_dequeue_def nth_upd split: if_splits)

lemma pool_ok_unwound:
  "pool_ok p \<Longrightarrow> pool_ok (p\<lparr>qs_current := (qs_current p)[me := None],
     qs_abort_requested := (qs_abort_requested p)[me := False], qs_pending_panics := ps\<rparr>)"
  by (auto simp: pool_ok_def nth_upd split: if_splits)

lemma exec_pool_ok [dest]: "state_ok J ex \<Longrightarrow> pool_ok (ex_pool ex)"
  by (simp add: ok_defs)

lemma job_result_ok:
  fixes ex :: "('g, 'c, 'p) exec"
  shows "state_ok J ex \<Longrightarrow> state_ok J (job_result job r ex)"
  by (rule calm_ok [OF calm_updates(8)])

lemma job_unwound_ok:
  fixes ex :: "('g, 'c, 'p) exec"
  shows "state_ok J ex \<Longrightarrow> state_ok J (job_unwound me job i r ex)"
  unfolding job_unwound_def
  by (intro upd_pool_ok job_result_ok pool_ok_unwound exec_pool_ok) simp_all

lemma run_job_ok:
  assumes "run_job env me job i ex = Ret ex'" "state_ok J ex"
  shows "state_ok J ex'"
proof -
  obtain out calls p where e: "en_job env job ex = (out, calls, p)" by (metis prod_cases3)
  have "state_ok J (ex\<lparr>ex_prog := p\<rparr>)" using job_sim [of ex job] assms(2) by (auto simp: e intro: calm_ok [OF calm_prog])
  with assms(1) e show ?thesis
    by (cases out) (auto simp: run_job_def
        intro!: upd_pool_ok job_result_ok pool_ok_complete exec_pool_ok job_unwound_ok
        dest: apply_calls_ok kill_current_ok)
qed

lemma run_one_ok:
  assumes "run_one env me ex = Ret ex'" "state_ok J ex"
    and idle: "me < length (qs_current (ex_pool ex)) \<Longrightarrow> qs_current (ex_pool ex) ! me = None"
  shows "state_ok J ex'"
proof -
  from assms(1) obtain x q clk gr where
    rc: "chan_try_recv_random (en_ops env) (Some (th_clock (ex_time ex))) (ex_rand ex) (bp_queue (ex_pool ex)) = Ret (x, q, clk, gr)"
    by (auto simp: run_one_def)
  let ?ex = "upd_pool (\<lambda>p. p\<lparr>bp_queue := q\<rparr>) (ex\<lparr>ex_rand := gr,
           ex_time := (case clk of Some c \<Rightarrow> (ex_time ex)\<lparr>th_clock := c\<rparr> | None \<Rightarrow> ex_time ex)\<rparr>)"
  have ok: "state_ok J ?ex"
    using assms(2) by (intro upd_pool_ok same_ok [OF assms(2)]) (auto simp: same_infos_def pool_ok_def ok_defs)
  have deq: "state_ok J (upd_pool (note_dequeue me j) ?ex)" for j
    by (rule upd_pool_ok [OF ok pool_ok_dequeue]) (use ok idle in \<open>auto simp: upd_pool_def\<close>)
  have send: "state_ok J (upd_pool (\<lambda>p. p\<lparr>bp_queue := f p\<rparr>) ?ex)" for f
    by (rule upd_pool_ok [OF ok]) (use ok in \<open>auto simp: pool_ok_def ok_defs\<close>)
  show ?thesis
  proof (cases x)
    case (Inl a)
    with assms(1) rc ok show ?thesis by (simp add: run_one_def)
  next
    case (Inr ji)
    obtain job i where ji: "ji = (job, i)" by fastforce
    define e0 where "e0 = ?ex"
    have ok0: "state_ok J e0" and deq0: "state_ok J (upd_pool (note_dequeue me j) e0)"
      and send0: "state_ok J (upd_pool (\<lambda>p. p\<lparr>bp_queue := f p\<rparr>) e0)" for j f
      using ok deq send by (simp_all only: e0_def)
    have eq: "run_one env me ex =
        (if ti_killed (info_of i e0) then Ret (job_result job None
             (prog_wakes (en_drop_job env (Some i) job) (upd_pool (note_dequeue me None) e0)))
         else if ti_paused (info_of i e0)
           then Ret (upd_pool (\<lambda>p. p\<lparr>bp_queue := snd (chan_send (job, i) (bp_queue p))\<rparr>) e0)
         else run_job env me job i (upd_pool (note_dequeue me (Some (job, i))) e0))"
      by (simp only: run_one_def rc Inr ji bind_run.simps prod.case sum.case Let_def e0_def)
    show ?thesis
    proof (cases "ti_killed (info_of i e0)")
      case True
      with assms(1) have "ex' = job_result job None
          (prog_wakes (en_drop_job env (Some i) job) (upd_pool (note_dequeue me None) e0))"
        unfolding eq by simp
      then show ?thesis using deq0 by (simp only: job_result_ok calm_ok [OF calm_wakes [OF drop_job_sim]])
    next
      case False
      show ?thesis
      proof (cases "ti_paused (info_of i e0)")
        case True
        with False assms(1) have "ex' = upd_pool (\<lambda>p. p\<lparr>bp_queue := snd (chan_send (job, i) (bp_queue p))\<rparr>) e0"
          unfolding eq by simp
        then show ?thesis using send0 by simp
      next
        case unpaused: False
        with False have "run_job env me job i (upd_pool (note_dequeue me (Some (job, i))) e0) = Ret ex'"
          using assms(1) unfolding eq by simp
        then show ?thesis by (rule run_job_ok [OF _ deq0])
      qed
    qed
  qed
qed

lemma thread_turn_ok:
  assumes "thread_turn env k me ex = Ret ex'" "state_ok J ex"
    and flag: "me < length (qs_current (ex_pool ex)) \<Longrightarrow> k = AbortTurn \<Longrightarrow> \<not> qs_abort_requested (ex_pool ex) ! me"
  shows "state_ok J ex'"
proof (cases "qs_current (ex_pool ex) ! me")
  case None
  with assms show ?thesis by (cases k) (auto simp: thread_turn_def intro: run_one_ok)
next
  case (Some ji)
  obtain job i where ji: "ji = (job, i)" by fastforce
  have "state_ok J (upd_pool (\<lambda>p. p\<lparr>qs_current := (qs_current p)[me := None]\<rparr>) ex)" if "k = AbortTurn"
    using flag [OF _ that] assms(2)
    by (intro upd_pool_ok) (auto simp: pool_ok_def ok_defs nth_upd split: if_splits)
  with assms Some ji show ?thesis
    by (cases k) (auto simp: thread_turn_def intro: run_job_ok intro!: job_result_ok calm_ok [OF calm_wakes [OF drop_job_sim]])
qed

lemma grant_turn_ok:
  assumes "grant_turn env i ex = Ret ex'" "state_ok J ex"
  shows "state_ok J ex'"
proof (cases "pick_turn i ex")
  case None
  with assms show ?thesis by (simp add: grant_turn_def)
next
  case (Some k)
  with assms(1) obtain ex1 where t: "thread_turn env k i (take_turn k i ex) = Ret ex1" and a: "advance_a_little env ex1 = Ret ex'"
    by (auto simp: grant_turn_def)
  have p: "pool_ok (ex_pool ex)" using assms(2) by auto
  have ok: "state_ok J (take_turn k i ex)"
    using assms(2) p by (auto simp: take_turn_def pool_ok_def nth_upd split: if_splits intro!: upd_pool_ok)
  have len: "length (qs_current (ex_pool ex)) = length (qs_abort_requested (ex_pool ex))"
    using p by (simp add: pool_ok_def)
  have "state_ok J ex1"
    by (rule thread_turn_ok [OF t ok]) (simp add: take_turn_def upd_pool_def len)
  then show ?thesis by (rule calm_ok [OF calm_advance [OF a]])
qed

lemma grant_turns_ok: "grant_turns env is ex = Ret ex' \<Longrightarrow> state_ok J ex \<Longrightarrow> state_ok J ex'"
  by (induction "is" arbitrary: ex) (auto dest: grant_turn_ok)

lemma round_end_ok:
  assumes "state_ok J ex"
  shows "state_ok J (snd (round_end d ex))"
  using exec_pool_ok [OF assms] by (auto simp: round_end_def pool_ok_def intro!: upd_pool_ok assms)

lemma wake_round_ok:
  assumes "wake_round env ex = Ret (st, ex')" "state_ok J ex"
  shows "state_ok J ex'"
proof -
  let ?order = "select_threads (upd_pool (\<lambda>p. p\<lparr>bp_started := True\<rparr>) ex) (length (ch_queue (bp_queue (ex_pool ex))))
    [0..<length (qs_current (ex_pool ex))]"
  have keep: "state_ok J (upd_pool f ex)"
    if "\<And>p. qs_current (f p) = qs_current p" "\<And>p. qs_abort_requested (f p) = qs_abort_requested p" for f
    using exec_pool_ok [OF assms(2)] by (auto simp: pool_ok_def that intro!: upd_pool_ok assms(2))
  consider "ex' = ex" | d where "ex' = snd (round_end d (upd_pool (\<lambda>p. p\<lparr>bp_started := True\<rparr>) ex))"
    | f d ex1 ex2 order where "exec_draw env f (upd_pool (\<lambda>p. p\<lparr>bp_started := True, qs_dequeued := 0\<rparr>) ex) = Ret (order, ex1)"
        "grant_turns env order ex1 = Ret ex2" "ex' = snd (round_end d ex2)"
    using assms(1) by (fastforce simp: wake_round_def Let_def upd_pool_def round_end_def split: if_splits)
  then show ?thesis
  proof cases
    case 1
    with assms(2) show ?thesis by simp
  next
    case 2
    then show ?thesis by (auto intro!: round_end_ok keep)
  next
    case 3
    have "state_ok J (upd_pool (\<lambda>p. p\<lparr>bp_started := True, qs_dequeued := 0\<rparr>) ex)" by (rule keep) simp_all
    from grant_turns_ok [OF 3(2) calm_ok [OF calm_draw [OF 3(1)] this]] show ?thesis
      unfolding 3(3) by (rule round_end_ok)
  qed
qed

section \<open>The main loop\<close>

lemma calm_fire: "calm sim ex (fold (fire_event env) es ex)"
proof (induction es arbitrary: ex)
  case (Cons e es)
  have "calm sim ex (fire_event env e ex)"
    by (auto simp: fire_event_def split: option.split exec_cb.split intro: calm_wakes fire_sim)
  with Cons show ?case by (auto intro: calm_trans)
qed simp

lemma calm_exec_advance: "exec_advance env ex = Ret (b, ex') \<Longrightarrow> calm sim ex ex'"
  by (auto simp: exec_advance_def intro: calm_trans [OF calm_updates(10) calm_fire])

lemma handle_panics_ok:
  fixes ex :: "('g, 'c, 'p) exec"
  shows "state_ok J ex \<Longrightarrow> state_ok J (handle_panics ps ex)"
  unfolding handle_panics_def
  by (induction ps arbitrary: ex) (auto simp: split_def intro: handle_task_panic_ok)

lemma calm_stall_check: "stall_check env st k ex = Ret (k', ex') \<Longrightarrow> calm sim ex ex'"
  by (auto simp: stall_check_def split: if_splits dest: calm_exec_advance)

lemma calm_time_limit:
  fixes ex :: "('g, 'c, 'p) exec"
  shows "check_time_limit l ex = Ret ex' \<Longrightarrow> calm sim ex ex'"
  by (auto simp: check_time_limit_def split: option.splits)

lemma after_ready_ok:
  "after_ready env limit k ex = Ret (k', ex') \<Longrightarrow> state_ok J ex \<Longrightarrow> state_ok J ex'"
  by (auto simp: after_ready_def intro!: handle_panics_ok
      dest!: calm_ok [OF calm_time_limit] calm_ok [OF calm_stall_check] dest: wake_round_ok)

lemma exec_run_ok: "exec_run env limit ex evs ex' \<Longrightarrow> state_ok J ex \<Longrightarrow> state_ok J ex'"
  by (induction rule: exec_run.induct) (auto dest: ready_iter_ok finish_expired_ok after_ready_ok)

end

section \<open>Every reachable state\<close>

text \<open>
  The states an executor can get into from the start, where the program's state is \<open>p0\<close>: by calls
  from outside, and by runs of \<open>block_on\<close>.
\<close>

inductive exec_reach :: "('g, 'f, 'c, 'p) env \<Rightarrow> 'p \<Rightarrow> ('g, 'c, 'p) exec \<Rightarrow> bool" for env p0 where
  reach_new: "pool_new var = Ret pool \<Longrightarrow> exec_reach env p0 (executor_new pool time rand p0)"
| reach_call: "exec_reach env p0 ex \<Longrightarrow> apply_call env ctx c ex = Ret ex' \<Longrightarrow> exec_reach env p0 ex'"
| reach_main: "exec_reach env p0 ex \<Longrightarrow> exec_reach env p0 (snd (spawn_on_main_task ex))"
| reach_run: "exec_reach env p0 ex \<Longrightarrow> exec_run env limit ex evs ex' \<Longrightarrow> exec_reach env p0 ex'"

lemma new_ok:
  assumes "pool_new var = Ret pool"
  shows "exec_ok (executor_new pool time rand p)" "ex_nodes (executor_new pool time rand p) = Map.empty"
    "ex_prog (executor_new pool time rand p) = p"
proof -
  from assms obtain n where "qs_current pool = replicate n None" "qs_abort_requested pool = replicate n False"
    by (auto simp: pool_new_def)
  then show "exec_ok (executor_new pool time rand p)"
    by (simp add: exec_ok_def nodes_ok_def pool_ok_def executor_new_def get_node_def)
qed (simp_all add: executor_new_def)

context sims_invariant
begin

lemma reach_ok: "exec_reach env p0 ex \<Longrightarrow> J {} p0 \<Longrightarrow> state_ok J ex"
  by (induction rule: exec_reach.induct)
    (auto simp: state_ok_def [of J "executor_new a b c d" for a b c d] new_ok
      intro: apply_call_ok spawn_main_ok exec_run_ok)

end

text \<open>Without any assumption on the program.\<close>

interpretation any_program: sims_invariant env "\<lambda>_ _. True" "\<lambda>_ _. True" for env :: "('g, 'f, 'c, 'p) env"
  by unfold_locales simp_all

text \<open>C18: the executor's state is well formed in every state it reaches, whatever the simulated
  program does: the incarnation each node points to has been created, belongs to that node and is
  alive, the vectors of the blocking pool have one entry per thread, and a thread is only ever
  told to abort while it is in a job.\<close>

theorem executor_well_formed:
  assumes "exec_reach env p0 ex"
  shows "(\<forall>n i. get_node n ex = Some i \<longrightarrow>
       i < ex_next_info ex \<and> ti_node (info_of i ex) = n \<and> \<not> ti_killed (info_of i ex)) \<and>
     length (qs_abort_requested (ex_pool ex)) = length (qs_current (ex_pool ex)) \<and>
     (\<forall>i < length (qs_current (ex_pool ex)). pick_turn i ex = Some AbortTurn \<longrightarrow> qs_current (ex_pool ex) ! i \<noteq> None)"
  using any_program.reach_ok [OF assms]
  by (auto simp: ok_defs nodes_ok_def pool_ok_def pick_turn_def Let_def split: if_splits option.splits)

theorem executor_well_formed_witness:
  "\<exists>pool ex. pool_new None = Ret pool \<and>
     apply_calls demo_env None [CCreate (nb_set_init 0 node_builder_new), CKill 1] (executor_new pool (ex_time demo_exec) (ex_rand demo_exec) (ex_prog demo_exec)) = Ret ex \<and>
     get_node 1 ex = Some 1 \<and> ti_node (info_of 1 ex) = 1 \<and> \<not> ti_killed (info_of 1 ex)"
proof -
  obtain pool where p: "pool_new None = Ret pool" by (simp add: pool_new_def)
  let ?ex = "executor_new pool (ex_time demo_exec) (ex_rand demo_exec) (ex_prog demo_exec)"
  obtain ex1 ex2 where c: "apply_call demo_env None (CCreate (nb_set_init 0 node_builder_new)) ?ex = Ret ex1"
    "apply_call demo_env None (CKill 1) ex1 = Ret ex2" and g: "get_node 1 ex2 = Some 1"
    by (simp add: node_builder_build_def nb_set_init_def node_builder_new_def or_nothing_def task_create_node_def executor_new_def new_info_def call_init_def
        spawn_local_def schedule_def handle_kill_def task_kill_def Let_def on_sims_def get_node_def
        mark_killed_def request_abort_node_def upd_info_def prog_wakes_def split_def schedule_all_def demo_simps)
  have "exec_reach demo_env (ex_prog demo_exec) ex2" by (intro reach_call [OF reach_call [OF reach_new [OF p] c(1)] c(2)])
  from executor_well_formed [OF this] g have "ti_node (info_of 1 ex2) = 1 \<and> \<not> ti_killed (info_of 1 ex2)" by blast
  with p c g show ?thesis by (intro exI [of _ pool] exI [of _ ex2]) simp
qed

end
