(* ===== verification/Sim_World.thy ===== *)
theory Sim_World
  imports Sim_Plugin Executor_Types
begin

text \<open>
  The executor together with the two simulators it tells about nodes, the network and the file
  system: what \<open>runtime::Handle\<close> and \<open>NodeBuilder\<close> (\<open>msim/src/sim/runtime/mod.rs\<close>) do when a node is
  built, killed, restarted or deleted, and that the three then agree on which nodes there are.
\<close>

section \<open>The handlers of the simulators\<close>

text \<open>The program's state with the registered simulators.\<close>

record ('g, 'f, 'q) world =
  wd_net :: "('g, 'f, nat) net_sim"
  wd_fs :: fs_sim
  wd_prog :: 'q

definition net_handler ::
    "(('g, 'f, nat) net_sim \<Rightarrow> ('g, 'f, nat) net_sim run) \<Rightarrow> ('g, 'f, 'q) world \<Rightarrow> ('g, 'f, 'q) world run" where
  "net_handler f w = bind_run (f (wd_net w)) (\<lambda>ns. Ret (w\<lparr>wd_net := ns\<rparr>))"

definition fs_handler ::
    "(fs_sim \<Rightarrow> unit fs_result) \<Rightarrow> ('g, 'f, 'q) world \<Rightarrow> ('g, 'f, 'q) world run" where
  "fs_handler f w =
     (case f (wd_fs w) of (Ret _, fs) \<Rightarrow> Ret (w\<lparr>wd_fs := fs\<rparr>) | (Panic p, _) \<Rightarrow> Panic p)"

text \<open>The simulators in the order in which the map gives them: the network first, or the files.\<close>

definition each_sim :: "bool \<Rightarrow> ('w \<Rightarrow> 'w run) \<Rightarrow> ('w \<Rightarrow> 'w run) \<Rightarrow> 'w \<Rightarrow> 'w run" where
  "each_sim net_first net fs w = (if net_first then bind_run (net w) fs else bind_run (fs w) net)"

text \<open>The loop of \<open>NodeBuilder::build\<close>: only the network takes an address.\<close>

definition net_create_node ::
    "node_id \<Rightarrow> ip_addr option \<Rightarrow> ('g, 'f, nat) net_sim \<Rightarrow> ('g, 'f, nat) net_sim run" where
  "net_create_node n ip ns =
     (let ns = ns_create_node n ns in case ip of None \<Rightarrow> Ret ns | Some ip \<Rightarrow> ns_set_ip n ip ns)"

definition sims_create ::
    "bool \<Rightarrow> node_id \<Rightarrow> ip_addr option \<Rightarrow> ('g, 'f, 'q) world \<Rightarrow> ('g, 'f, 'q) world run" where
  "sims_create net_first n ip =
     each_sim net_first (net_handler (net_create_node n ip)) (fs_handler (fs_create_node n))"

definition sims_reset :: "bool \<Rightarrow> node_id \<Rightarrow> ('g, 'f, 'q) world \<Rightarrow> ('g, 'f, 'q) world run" where
  "sims_reset net_first n =
     each_sim net_first (net_handler (ns_reset_node n)) (fs_handler (fs_reset_node n))"

definition sims_delete :: "bool \<Rightarrow> node_id \<Rightarrow> ('g, 'f, 'q) world \<Rightarrow> ('g, 'f, 'q) world run" where
  "sims_delete net_first n =
     each_sim net_first (net_handler (ns_delete_node n)) (fs_handler (fs_delete_node n))"

text \<open>A program's environment with these simulators registered.\<close>

definition with_sims ::
    "bool \<Rightarrow> ('g, 'f, 'c, ('g, 'f, 'q) world) env \<Rightarrow> ('g, 'f, 'c, ('g, 'f, 'q) world) env" where
  "with_sims net_first env = env\<lparr>en_sim_create := sims_create net_first, en_sim_reset := sims_reset net_first,
     en_sim_delete := sims_delete net_first\<rparr>"

definition world_start :: "('g, 'f, 'c, 'p) runtime \<Rightarrow> 'q \<Rightarrow> ('g, 'f, 'q) world" where
  "world_start rt q = \<lparr>wd_net = rt_net rt, wd_fs = rt_fs rt, wd_prog = q\<rparr>"

section \<open>Agreement\<close>

text \<open>
  Both simulators have the nodes of the executor, and node 0, which is no node of the executor
  unless the counter of nodes wraps around; and no panic has poisoned the table of files.
\<close>

definition world_ok :: "node_id set \<Rightarrow> ('g, 'f, 'q) world \<Rightarrow> bool" where
  "world_ok ns w \<longleftrightarrow> \<not> fs_poisoned (wd_fs w) \<and> fs_known (wd_fs w) = net_known (wd_net w) \<and>
     ns \<subseteq> net_known (wd_net w) \<and> net_known (wd_net w) \<subseteq> insert 0 ns"

text \<open>What a program's own steps leave as it is: it creates and deletes nodes by its calls only.\<close>

definition keeps_nodes :: "('g, 'f, 'q) world \<Rightarrow> ('g, 'f, 'q) world \<Rightarrow> bool" where
  "keeps_nodes w w' \<longleftrightarrow> net_known (wd_net w') = net_known (wd_net w) \<and> fs_known (wd_fs w') = fs_known (wd_fs w) \<and>
     (\<not> fs_poisoned (wd_fs w) \<longrightarrow> \<not> fs_poisoned (wd_fs w'))"

definition quiet_program :: "('g, 'f, 'c, ('g, 'f, 'q) world) env \<Rightarrow> bool" where
  "quiet_program env \<longleftrightarrow>
     (\<forall>t ex. keeps_nodes (ex_prog ex) (snd (snd (en_poll env t ex))) \<and> keeps_nodes (ex_prog ex) (snd (snd (en_job env t ex)))) \<and>
     (\<forall>ctx t w. keeps_nodes w (snd (en_drop env ctx t w)) \<and> keeps_nodes w (snd (en_drop_job env ctx t w))) \<and>
     (\<forall>t w. keeps_nodes w (snd (en_done env t w)) \<and> keeps_nodes w (snd (en_killed env t w))) \<and>
     (\<forall>c w. keeps_nodes w (snd (en_fire env c w))) \<and> (\<forall>i t w. keeps_nodes w (en_init env i t w))"

lemma net_create_known:
  "net_create_node n ip ns = Ret ns' \<Longrightarrow> net_known ns' = insert n (net_known ns)"
  by (auto simp: net_create_node_def net_known_def ns_create_node_def insert_node_def Let_def dom_nodes_drop_sockets
      ns_set_ip_def with_network'_def set_ip_def split: option.splits if_splits)

lemma net_keeps_known:
  "ns_reset_node n ns = Ret ns' \<Longrightarrow> net_known ns' = net_known ns"
  "ns_delete_node n ns = Ret ns' \<Longrightarrow> net_known ns' = net_known ns - {n}"
  by (auto simp: net_known_def ns_reset_node_def ns_delete_node_def with_network'_def reset_node_def delete_node_def
      dom_nodes_drop_sockets split: if_splits)

lemma each_sim_fs:
  assumes "g (wd_fs w) = (Ret (), fs')"
  shows "each_sim b (net_handler f) (fs_handler g) w =
    bind_run (f (wd_net w)) (\<lambda>ns. Ret (w\<lparr>wd_net := ns, wd_fs := fs'\<rparr>))"
  using assms by (cases "f (wd_net w)") (simp_all add: each_sim_def net_handler_def fs_handler_def)

lemma fs_handlers_return:
  assumes "\<not> fs_poisoned fs"
  shows "fs_create_node n fs = (Ret (), fs\<lparr>fs_handles := (fs_handles fs)(n \<mapsto> fs_node_new)\<rparr>)"
    "fs_reset_node n fs = (Ret (), fs)"
    "fs_delete_node n fs = (Ret (), fs\<lparr>fs_handles := (fs_handles fs)(n := None)\<rparr>)"
  using assms by (simp_all add: fs_create_node_def fs_reset_node_def power_fail_def fs_delete_node_def fs_bind_def
      lock_handles_def)

lemma sims_eq:
  assumes "\<not> fs_poisoned (wd_fs w)"
  shows "sims_create b n ip w = bind_run (net_create_node n ip (wd_net w)) (\<lambda>ns. Ret (w\<lparr>wd_net := ns,
      wd_fs := (wd_fs w)\<lparr>fs_handles := (fs_handles (wd_fs w))(n \<mapsto> fs_node_new)\<rparr>\<rparr>))"
    "sims_reset b n w = bind_run (ns_reset_node n (wd_net w)) (\<lambda>ns. Ret (w\<lparr>wd_net := ns, wd_fs := wd_fs w\<rparr>))"
    "sims_delete b n w = bind_run (ns_delete_node n (wd_net w)) (\<lambda>ns. Ret (w\<lparr>wd_net := ns,
      wd_fs := (wd_fs w)\<lparr>fs_handles := (fs_handles (wd_fs w))(n := None)\<rparr>\<rparr>))"
  unfolding sims_create_def sims_reset_def sims_delete_def
  by (rule each_sim_fs, rule fs_handlers_return [OF assms])+

lemma world_create:
  assumes "world_ok ns w" "sims_create b n ip w = Ret w'"
  shows "world_ok (insert n ns) w'"
proof -
  from assms obtain ns' where n: "net_create_node n ip (wd_net w) = Ret ns'"
    and w': "w' = w\<lparr>wd_net := ns', wd_fs := (wd_fs w)\<lparr>fs_handles := (fs_handles (wd_fs w))(n \<mapsto> fs_node_new)\<rparr>\<rparr>"
    by (auto simp: world_ok_def sims_eq)
  show ?thesis using assms(1) net_create_known [OF n] by (auto simp: w' world_ok_def fs_known_def)
qed

lemma world_reset:
  assumes "world_ok ns w" "sims_reset b n w = Ret w'"
  shows "world_ok ns w'"
proof -
  from assms obtain ns' where n: "ns_reset_node n (wd_net w) = Ret ns'" and w': "w' = w\<lparr>wd_net := ns'\<rparr>"
    by (auto simp: world_ok_def sims_eq)
  show ?thesis using assms(1) net_keeps_known(1) [OF n] by (simp add: w' world_ok_def)
qed

lemma world_delete:
  assumes "world_ok ns w" "n \<in> ns" "sims_delete b n w = Ret w'"
  shows "world_ok (ns - {n}) w'"
proof -
  from assms obtain ns' where n: "ns_delete_node n (wd_net w) = Ret ns'"
    and w': "w' = w\<lparr>wd_net := ns', wd_fs := (wd_fs w)\<lparr>fs_handles := (fs_handles (wd_fs w))(n := None)\<rparr>\<rparr>"
    by (auto simp: world_ok_def sims_eq)
  show ?thesis using assms(1) net_keeps_known(2) [OF n] by (auto simp: w' world_ok_def fs_known_def)
qed

lemma world_keeps: "world_ok ns w \<Longrightarrow> keeps_nodes w w' \<Longrightarrow> world_ok ns w'"
  by (simp add: world_ok_def keeps_nodes_def)

lemma with_sims_invariant:
  assumes "quiet_program env"
  shows "sims_invariant (with_sims b env) keeps_nodes world_ok"
proof -
  have parts: "en_sim_create (with_sims b env) = sims_create b" "en_sim_reset (with_sims b env) = sims_reset b"
    "en_sim_delete (with_sims b env) = sims_delete b" "en_poll (with_sims b env) = en_poll env"
    "en_job (with_sims b env) = en_job env" "en_drop (with_sims b env) = en_drop env"
    "en_drop_job (with_sims b env) = en_drop_job env" "en_done (with_sims b env) = en_done env"
    "en_killed (with_sims b env) = en_killed env" "en_fire (with_sims b env) = en_fire env"
    "en_init (with_sims b env) = en_init env"
    by (simp_all add: with_sims_def)
  show ?thesis
    by unfold_locales
      (use assms in \<open>auto simp: parts quiet_program_def intro: world_keeps world_create world_reset world_delete,
        auto simp: keeps_nodes_def\<close>)
qed

section \<open>Properties\<close>

lemma start_ok:
  assumes "with_seed_and_config ops threads base clk p seed config c = Ret (rt, c')"
  shows "world_ok {} (world_start rt q)"
  using known_at_start [OF assms] by (simp add: world_ok_def world_start_def)

lemma task_kill_returns: "n \<in> dom (ex_nodes ex) \<Longrightarrow> \<exists>ex'. task_kill env ctx n ex = Ret ex'"
  by (auto simp: task_kill_def Let_def split_def)

lemma task_delete_returns: "n \<in> dom (ex_nodes ex) \<Longrightarrow> \<exists>ex'. task_delete_node env ctx n ex = Ret ex'"
  using task_kill_returns [of n ex env ctx] kill_dom [of env ctx n ex]
  by (fastforce simp: task_delete_node_def)

lemma sims_return:
  assumes "world_ok ns w" "n \<in> ns"
  shows "\<exists>w'. sims_reset b n w = Ret w'" "\<exists>w'. sims_delete b n w = Ret w'"
proof -
  have k: "n \<in> net_known (wd_net w)" and p: "\<not> fs_poisoned (wd_fs w)" using assms by (auto simp: world_ok_def)
  from net_reset_law [OF k] show "\<exists>w'. sims_reset b n w = Ret w'"
    by (auto simp: sims_eq [OF p] returned_def split: run.splits)
  from net_delete_law [OF k] show "\<exists>w'. sims_delete b n w = Ret w'"
    by (auto simp: sims_eq [OF p] returned_def split: run.splits)
qed


text \<open>The program's state when the initial task of a new node has been made.\<close>

definition prog_with_init :: "('g, 'f, 'c, 'p) env \<Rightarrow> node_builder \<Rightarrow> ('g, 'c, 'p) exec \<Rightarrow> 'p" where
  "prog_with_init env nb ex =
     (case nb_init nb of None \<Rightarrow> ex_prog ex | Some c \<Rightarrow> en_init env c (ex_next_task ex) (ex_prog ex))"

lemma create_prog: "ex_prog (snd (task_create_node env (nb_name nb) (nb_init nb) ex)) = prog_with_init env nb ex"
  by (simp add: task_create_node_def Let_def new_info_def call_init_def spawn_local_def prog_with_init_def
      split: option.split)

text \<open>C25: building a node with an address fails exactly when another node has that address; otherwise
  the node exists in the executor and in the network, and the network resolves the address to it
  and all others as before.\<close>

theorem built_node_has_address:
  assumes "\<not> fs_poisoned (wd_fs (prog_with_init env nb ex))"
  shows "case node_builder_build (with_sims b env) nb ex of
      Panic p \<Rightarrow> p = IpConflict \<and>
        (\<exists>ip. nb_ip nb = Some ip \<and> addr_to_node (ns_network (wd_net (prog_with_init env nb ex))) ip \<noteq> None)
    | Ret (n, ex') \<Rightarrow> get_node n ex' = Some (ex_next_info ex) \<and>
        get_ip n (ns_network (wd_net (ex_prog ex'))) = Ret (nb_ip nb) \<and>
        addr_to_node (ns_network (wd_net (ex_prog ex'))) =
          (let a = addr_to_node (ns_network (wd_net (prog_with_init env nb ex)))
           in case nb_ip nb of None \<Rightarrow> a | Some ip \<Rightarrow> a(ip \<mapsto> n)) \<and>
        (\<forall>ip. nb_ip nb = Some ip \<longrightarrow> addr_to_node (ns_network (wd_net (prog_with_init env nb ex))) ip = None)"
proof -
  let ?env = "with_sims b env" let ?w = "prog_with_init env nb ex" let ?n = "ex_next_node ex"
  obtain ex1 where c: "task_create_node ?env (nb_name nb) (nb_init nb) ex = ((?n, ex_next_info ex), ex1)"
    and g: "get_node ?n ex1 = Some (ex_next_info ex)"
    by (simp add: task_create_node_def Let_def new_info_def split_def get_node_def)
  have p: "ex_prog ex1 = ?w" using create_prog [of ?env nb ex] c
    by (simp add: prog_with_init_def with_sims_def split: option.split_asm)
  have "node_builder_build ?env nb ex =
      bind_run (net_create_node ?n (nb_ip nb) (wd_net ?w)) (\<lambda>ns. Ret (?n, ex1\<lparr>ex_prog := ?w\<lparr>wd_net := ns,
        wd_fs := (wd_fs ?w)\<lparr>fs_handles := (fs_handles (wd_fs ?w))(?n \<mapsto> fs_node_new)\<rparr>\<rparr>\<rparr>))"
    using sims_eq(1) [OF assms, of b ?n "nb_ip nb"] c p
    by (simp add: node_builder_build_def on_sims_def with_sims_def bind_run_assoc)
  then show ?thesis using g
    by (cases "nb_ip nb") (auto simp: net_create_node_def ns_create_node_def insert_node_def Let_def get_ip_def
      get_node_def drop_sockets_def node_default_def ns_set_ip_def with_network'_def set_ip_def split: option.split)
qed

section \<open>An example\<close>

definition idle_env :: "(nat, nat, nat, (nat, nat, unit) world) env" where
  "idle_env = \<lparr>en_ops = demo_rng, en_shuffle = (\<lambda>xs g. (xs, g)), en_poll = (\<lambda>t ex. (Returned, [], ex_prog ex)),
     en_job = (\<lambda>j ex. (JobDone, [], ex_prog ex)), en_drop = (\<lambda>_ _ p. ([], p)), en_drop_job = (\<lambda>_ _ p. ([], p)),
     en_done = (\<lambda>_ p. ([], p)), en_killed = (\<lambda>_ p. ([], p)),
     en_fire = (\<lambda>_ p. ([], p)), en_init = (\<lambda>_ _ p. p), en_sim_create = (\<lambda>_ _. Ret),
     en_sim_reset = (\<lambda>_. Ret), en_sim_delete = (\<lambda>_. Ret)\<rparr>"

lemma idle_quiet: "quiet_program idle_env"
  by (simp add: quiet_program_def idle_env_def keeps_nodes_def)

definition demo_world :: "(nat, nat, unit) world" where
  "demo_world = \<lparr>wd_net = net_sim_new 3 \<lparr>th_timer = timer_default, th_clock = clock_new 0\<rparr> network_config_default,
     wd_fs = fs_sim_new, wd_prog = ()\<rparr>"

lemma build_at_start:
  assumes "\<not> fs_poisoned (wd_fs w)" "nodes (ns_network (wd_net w)) 1 = None"
    "addr_to_node (ns_network (wd_net w)) (IPv4 7) = None"
  shows "\<exists>ex. node_builder_build (with_sims True idle_env) (nb_set_ip (IPv4 7) node_builder_new)
      (executor_new pool tm gr w) = Ret (1, ex) \<and> get_node 1 ex = Some 0"
  using assms
  by (simp add: node_builder_build_def nb_set_ip_def node_builder_new_def task_create_node_def executor_new_def
      Let_def new_info_def call_init_def on_sims_def with_sims_def sims_eq net_create_node_def ns_create_node_def
      insert_node_def ns_set_ip_def with_network'_def set_ip_def node_default_def get_node_def)

theorem built_node_has_address_witness:
  "\<exists>ex'. node_builder_build (with_sims True idle_env) (nb_set_ip (IPv4 7) node_builder_new)
     (executor_new demo_pool \<lparr>th_timer = timer_default, th_clock = clock_new 0\<rparr> (new_with_seed demo_rng 5) demo_world) =
       Ret (1, ex') \<and> addr_to_node (ns_network (wd_net (ex_prog ex'))) (IPv4 7) = Some 1"
proof -
  let ?ex = "executor_new demo_pool \<lparr>th_timer = timer_default, th_clock = clock_new 0\<rparr> (new_with_seed demo_rng 5) demo_world"
  let ?nb = "nb_set_ip (IPv4 7) node_builder_new"
  have w: "prog_with_init idle_env ?nb ?ex = demo_world"
    by (simp add: prog_with_init_def nb_set_ip_def node_builder_new_def executor_new_def)
  have ok: "\<not> fs_poisoned (wd_fs demo_world)" by (simp add: demo_world_def fs_sim_new_def)
  obtain ex' where r: "node_builder_build (with_sims True idle_env) ?nb ?ex = Ret (1, ex')"
    using build_at_start [of demo_world demo_pool] ok by (auto simp: demo_world_def net_sim_new_def network_new_def)
  from built_node_has_address [of idle_env ?nb ?ex True, unfolded w, OF ok] r show ?thesis
    by (simp add: nb_set_ip_def)
qed


end
