(* ===== verification/Node_Handle.thy ===== *)
theory Node_Handle
  imports Sim_World
begin

text \<open>
  The handles through which a program reaches its runtime and its node: \<open>TaskNodeHandle\<close> and the free
  functions of \<open>msim/src/sim/task.rs\<close>, \<open>NodeHandle\<close> and \<open>Handle\<close> of \<open>runtime/mod.rs\<close>; the future a
  spawned task really is, which watches for the end of its node, and the future that enters a node
  for each of its polls.
\<close>

section \<open>Handles\<close>

text \<open>A handle to a node: its incarnation, and the runtime whose queue and pool it uses.\<close>

record 'h task_node_handle =
  tn_info :: nat
  tn_runtime :: 'h

definition tn_try_current :: "'h thread_ctx \<Rightarrow> 'h task_node_handle option" where
  "tn_try_current c =
     (case try_current_task c of
        None \<Rightarrow> None
      | Some i \<Rightarrow> (case ctx_try_current c of None \<Rightarrow> None | Some h \<Rightarrow> Some \<lparr>tn_info = i, tn_runtime = h\<rparr>))"

definition tn_current :: "'h thread_ctx \<Rightarrow> 'h task_node_handle run" where
  "tn_current c = expect UnwrapNone (tn_try_current c)"

definition tn_id :: "('g, 'c, 'p) exec \<Rightarrow> 'h task_node_handle \<Rightarrow> node_id" where
  "tn_id ex nh = ti_node (info_of (tn_info nh) ex)"

definition tn_spawn :: "'h task_node_handle \<Rightarrow> ('g, 'c, 'p) exec \<Rightarrow> nat \<times> ('g, 'c, 'p) exec" where
  "tn_spawn nh ex = spawn_local (tn_info nh) ex"

definition tn_spawn_blocking ::
    "('g, 'f, 'c, 'p) env \<Rightarrow> 'h task_node_handle \<Rightarrow> ('g, 'c, 'p) exec \<Rightarrow> (nat option \<times> ('g, 'c, 'p) exec) run" where
  "tn_spawn_blocking env nh ex = spawn_blocking env (tn_info nh) ex"

definition tn_enter :: "'h task_node_handle \<Rightarrow> 'h thread_ctx \<Rightarrow> nat option \<times> 'h thread_ctx" where
  "tn_enter nh c = enter_task (tn_info nh) c"

text \<open>\<open>NodeHandle\<close>; joining a node is not implemented and returns at once, and as a future it never ends.\<close>

definition nh_try_current :: "'h thread_ctx \<Rightarrow> 'h task_node_handle option" where
  "nh_try_current c = tn_try_current c"

definition nh_current :: "'h thread_ctx \<Rightarrow> 'h task_node_handle run" where
  "nh_current c = expect UnwrapNone (nh_try_current c)"

definition nh_join :: "'h task_node_handle \<Rightarrow> unit + unit" where
  "nh_join nh = Inr ()"

definition nh_poll :: "'h task_node_handle \<Rightarrow> unit poll" where
  "nh_poll nh = Pending"

definition nh_ip ::
    "('h \<Rightarrow> 'k \<Rightarrow> ('g, 'f, nat) net_sim option) \<Rightarrow> 'k \<Rightarrow> ('g, 'c, 'p) exec \<Rightarrow> 'h task_node_handle \<Rightarrow> 'h thread_ctx \<Rightarrow>
     ip_addr option run" where
  "nh_ip sims net ex nh c = bind_run (simulator sims net c) (ns_get_ip (tn_id ex nh))"

definition handle_get_node :: "'h \<Rightarrow> node_id \<Rightarrow> ('g, 'c, 'p) exec \<Rightarrow> 'h task_node_handle option" where
  "handle_get_node h n ex = map_option (\<lambda>i. \<lparr>tn_info = i, tn_runtime = h\<rparr>) (get_node n ex)"

text \<open>The free functions: on the node of the running task.\<close>

definition current_spawn :: "'h thread_ctx \<Rightarrow> ('g, 'c, 'p) exec \<Rightarrow> (nat \<times> ('g, 'c, 'p) exec) run" where
  "current_spawn c ex = bind_run (tn_current c) (\<lambda>nh. Ret (tn_spawn nh ex))"

definition current_spawn_blocking ::
    "('g, 'f, 'c, 'p) env \<Rightarrow> 'h thread_ctx \<Rightarrow> ('g, 'c, 'p) exec \<Rightarrow> (nat option \<times> ('g, 'c, 'p) exec) run" where
  "current_spawn_blocking env c ex = bind_run (tn_current c) (\<lambda>nh. tn_spawn_blocking env nh ex)"

definition set_blocking_latency ::
    "blocking_latency option \<Rightarrow> 'h thread_ctx \<Rightarrow> ('g, 'c, 'p) exec \<Rightarrow> ('g, 'c, 'p) exec run" where
  "set_blocking_latency l c ex = bind_run (tn_current c) (\<lambda>_. Ret (set_latency l ex))"

definition begin_graceful_shutdown_current_node ::
    "duration option \<Rightarrow> nat \<Rightarrow> duration \<Rightarrow> 'h thread_ctx \<Rightarrow> ('g, 'c, 'p) exec \<Rightarrow> ('g, 'c, 'p) exec run" where
  "begin_graceful_shutdown_current_node restart_after poll_budget max_duration c ex =
     bind_run (ctx_current c) (\<lambda>_.
     bind_run (current_node ex c) (\<lambda>n. begin_graceful_shutdown n restart_after poll_budget max_duration ex))"

section \<open>The future of a spawned task\<close>

text \<open>
  The \<open>watch\<close> channel of an incarnation's \<open>killed\<close> flag: its value and its version, which every
  \<open>send\<close> increases; a receiver knows the version it saw last. The sender lives as long as the
  incarnation, which the task itself keeps alive.
\<close>

record killed_watch =
  kw_value :: bool
  kw_version :: nat

definition kw_new :: killed_watch where
  "kw_new = \<lparr>kw_value = False, kw_version = 0\<rparr>"

definition kw_send :: "bool \<Rightarrow> killed_watch \<Rightarrow> killed_watch" where
  "kw_send b w = \<lparr>kw_value = b, kw_version = Suc (kw_version w)\<rparr>"

definition kw_changed :: "killed_watch \<Rightarrow> nat \<Rightarrow> unit poll \<times> nat" where
  "kw_changed w seen = (if seen < kw_version w then (Ready (), kw_version w) else (Pending, seen))"

text \<open>
  One poll of the wrapper: \<open>select!\<close> starts at a random branch (\<open>picks\<close>, one per round) and takes the
  first that is ready; when the flag changed without being set, it goes round again. The result is
  \<open>None\<close> when the picks are used up, which two never are.
\<close>

fun spawned_poll ::
    "('s \<Rightarrow> 'a poll \<times> 's) \<Rightarrow> killed_watch \<Rightarrow> bool list \<Rightarrow> nat \<Rightarrow> 's \<Rightarrow> ('a poll run \<times> nat \<times> 's) option" where
  "spawned_poll fut w [] seen s = None"
| "spawned_poll fut w (killed_first # picks) seen s =
     (if killed_first then
        (case kw_changed w seen of
           (Ready _, seen) \<Rightarrow>
             if kw_value w then Some (Panic TaskPanic, seen, s) else spawned_poll fut w picks seen s
         | (Pending, seen) \<Rightarrow> (case fut s of (r, s) \<Rightarrow> Some (Ret r, seen, s)))
      else
        (case fut s of
           (Ready x, s) \<Rightarrow> Some (Ret (Ready x), seen, s)
         | (Pending, s) \<Rightarrow>
             (case kw_changed w seen of
                (Ready _, seen) \<Rightarrow>
                  if kw_value w then Some (Panic TaskPanic, seen, s) else spawned_poll fut w picks seen s
              | (Pending, seen) \<Rightarrow> Some (Ret Pending, seen, s))))"

text \<open>
  The flag is only ever set. Until it is, the wrapper is the future itself, polled once per poll;
  once it is, the first poll panics, unless it looks at the future first and finds it ready.
\<close>

lemma kw_sends: "kw_value ((kw_send True ^^ k) kw_new) = (0 < k)" "kw_version ((kw_send True ^^ k) kw_new) = k"
  by (induction k) (simp_all add: kw_new_def kw_send_def)

theorem spawned_poll_spec:
  assumes "w = (kw_send True ^^ k) kw_new" "seen \<le> k" "2 \<le> length picks"
  shows "k = 0 \<Longrightarrow> spawned_poll fut w picks seen s = Some (Ret (fst (fut s)), 0, snd (fut s))"
    and "seen < k \<Longrightarrow> \<exists>s'. spawned_poll fut w picks seen s =
      Some (if hd picks \<or> fst (fut s) = Pending then Panic TaskPanic else Ret (fst (fut s)),
            if hd picks \<or> fst (fut s) = Pending then k else seen, s')"
proof -
  from assms(3) obtain b picks' where p: "picks = b # picks'" by (cases picks) auto
  show "spawned_poll fut w picks seen s = Some (Ret (fst (fut s)), 0, snd (fut s))" if "k = 0"
    using assms that by (cases "fut s"; cases "fst (fut s)") (auto simp: p kw_changed_def kw_new_def)
  show "\<exists>s'. spawned_poll fut w picks seen s =
      Some (if hd picks \<or> fst (fut s) = Pending then Panic TaskPanic else Ret (fst (fut s)),
            if hd picks \<or> fst (fut s) = Pending then k else seen, s')" if "seen < k"
    using assms that by (cases "fut s"; cases "fst (fut s)") (auto simp: p kw_changed_def kw_sends)
qed

section \<open>A future polled in another node\<close>

definition entering_poll ::
    "nat \<Rightarrow> ('h thread_ctx \<Rightarrow> 's \<Rightarrow> 'r \<times> 'h thread_ctx \<times> 's) \<Rightarrow> 'h thread_ctx \<Rightarrow> 's \<Rightarrow> 'r \<times> 'h thread_ctx \<times> 's" where
  "entering_poll i fut c s =
     (case enter_task i c of (old, c) \<Rightarrow> case fut c s of (r, c, s) \<Rightarrow> (r, task_guard_drop old c, s))"

definition await_future_in_node ::
    "'h task_node_handle \<Rightarrow> ('h thread_ctx \<Rightarrow> 's \<Rightarrow> 'r \<times> 'h thread_ctx \<times> 's) \<Rightarrow>
     'h thread_ctx \<Rightarrow> 's \<Rightarrow> 'r \<times> 'h thread_ctx \<times> 's" where
  "await_future_in_node nh fut c s = entering_poll (tn_info nh) fut c s"

text \<open>
  The future is polled with the node's task as the current one; if it leaves the context as it found
  it, which every such future does again, the caller's task is the current one afterwards.
\<close>

lemma entering_poll_spec:
  assumes "\<And>c s. fst (snd (fut c s)) = c"
  shows "entering_poll i fut c s =
    (fst (fut (c\<lparr>tc_task := Some i\<rparr>) s), c, snd (snd (fut (c\<lparr>tc_task := Some i\<rparr>) s)))"
    and "fst (snd (entering_poll i fut c s)) = c"
  using assms [of "c\<lparr>tc_task := Some i\<rparr>" s]
  by (simp_all add: entering_poll_def enter_task_def task_guard_drop_def split_def)

end
