(* ===== verification/Tokio_Runtime.thy ===== *)
theory Tokio_Runtime
  imports Node_Handle
begin

text \<open>
  The runtime of tokio as \<open>msim-tokio/src/sim/runtime.rs\<close> offers it inside the simulator: handles,
  runtimes and local sets that stand for the one simulator that runs, and the builder, whose
  settings it checks and otherwise ignores. \<open>'h\<close> is the simulator's own handle. Beside it the
  replacement of the crate futures-timer.
\<close>

section \<open>Handles and runtimes\<close>

text \<open>\<open>Handle\<close>: the simulator's handle it was made from is kept and never looked at.\<close>

record 'h tokio_handle =
  tk_inner :: 'h

definition tokio_current :: "'h thread_ctx \<Rightarrow> 'h tokio_handle run" where
  "tokio_current c = bind_run (ctx_current c) (\<lambda>h. Ret \<lparr>tk_inner = h\<rparr>)"

datatype try_current_error = TryCurrentError

definition tokio_try_current :: "'h thread_ctx \<Rightarrow> (try_current_error + 'h tokio_handle) run" where
  "tokio_try_current c = bind_run (tokio_current c) (\<lambda>h. Ret (Inr h))"

definition tokio_enter :: "'h tokio_handle \<Rightarrow> 'h thread_ctx \<Rightarrow> ('h option \<times> 'h thread_ctx) run" where
  "tokio_enter th c = bind_run (ctx_current c) (\<lambda>h. Ret (ctx_enter h c))"

definition tokio_handle_block_on :: "'h tokio_handle \<Rightarrow> 'fut \<Rightarrow> 'r run" where
  "tokio_handle_block_on th fut = Panic Todo"

definition tokio_spawn ::
    "'h tokio_handle \<Rightarrow> 'h thread_ctx \<Rightarrow> ('g, 'c, 'p) exec \<Rightarrow> (nat \<times> ('g, 'c, 'p) exec) run" where
  "tokio_spawn th c ex = bind_run (nh_current c) (\<lambda>nh. Ret (tn_spawn nh ex))"

definition tokio_spawn_blocking ::
    "('g, 'f, 'c, 'p) env \<Rightarrow> 'h tokio_handle \<Rightarrow> 'h thread_ctx \<Rightarrow> ('g, 'c, 'p) exec \<Rightarrow>
     (nat option \<times> ('g, 'c, 'p) exec) run" where
  "tokio_spawn_blocking env th c ex = bind_run (nh_current c) (\<lambda>nh. tn_spawn_blocking env nh ex)"

record 'h tokio_runtime =
  tr_handle :: "'h tokio_handle"

definition tokio_runtime_new :: "'h thread_ctx \<Rightarrow> 'h tokio_runtime io_result run" where
  "tokio_runtime_new c = bind_run (ctx_current c) (\<lambda>h. Ret (Ok \<lparr>tr_handle = \<lparr>tk_inner = h\<rparr>\<rparr>))"

definition tokio_runtime_block_on :: "'h tokio_runtime \<Rightarrow> 'fut \<Rightarrow> 'r run" where
  "tokio_runtime_block_on rt fut = Panic Todo"

definition tokio_runtime_enter ::
    "'h tokio_runtime \<Rightarrow> 'h thread_ctx \<Rightarrow> ('h option \<times> 'h thread_ctx) run" where
  "tokio_runtime_enter rt c = tokio_enter (tr_handle rt) c"

definition tokio_runtime_spawn ::
    "'h tokio_runtime \<Rightarrow> 'h thread_ctx \<Rightarrow> ('g, 'c, 'p) exec \<Rightarrow> (nat \<times> ('g, 'c, 'p) exec) run" where
  "tokio_runtime_spawn rt c ex = bind_run (nh_current c) (\<lambda>nh. Ret (tn_spawn nh ex))"

definition tokio_shutdown_timeout :: "'h tokio_runtime \<Rightarrow> duration \<Rightarrow> unit run" where
  "tokio_shutdown_timeout rt d = Panic Todo"

definition tokio_shutdown_background :: "'h tokio_runtime \<Rightarrow> unit run" where
  "tokio_shutdown_background rt = Panic Todo"

section \<open>The builder\<close>

datatype runtime_kind = CurrentThread | MultiThread

text \<open>\<open>'b\<close> are the callbacks; the name of the threads is what the function given returns.\<close>

record 'b tokio_builder =
  tb_kind :: runtime_kind
  tb_enable_io :: bool
  tb_enable_time :: bool
  tb_start_paused :: bool
  tb_worker_threads :: "nat option"
  tb_max_blocking_threads :: nat
  tb_thread_name :: string
  tb_thread_stack_size :: "nat option"
  tb_after_start :: "'b option"
  tb_before_stop :: "'b option"
  tb_before_park :: "'b option"
  tb_after_unpark :: "'b option"
  tb_keep_alive :: "duration option"
  tb_global_queue_interval :: u32
  tb_event_interval :: u32

definition tokio_builder_new :: "runtime_kind \<Rightarrow> 'b tokio_builder" where
  "tokio_builder_new k =
     \<lparr>tb_kind = k, tb_enable_io = False, tb_enable_time = False, tb_start_paused = False,
      tb_worker_threads = None, tb_max_blocking_threads = 512, tb_thread_name = ''tokio-runtime-worker'',
      tb_thread_stack_size = None, tb_after_start = None, tb_before_stop = None, tb_before_park = None,
      tb_after_unpark = None, tb_keep_alive = None, tb_global_queue_interval = 1, tb_event_interval = 1\<rparr>"

definition new_current_thread :: "'b tokio_builder" where
  "new_current_thread = tokio_builder_new CurrentThread"

definition new_multi_thread :: "'b tokio_builder" where
  "new_multi_thread = tokio_builder_new MultiThread"

definition tb_set_io :: "'b tokio_builder \<Rightarrow> 'b tokio_builder" where
  "tb_set_io b = b\<lparr>tb_enable_io := True\<rparr>"

definition tb_set_time :: "'b tokio_builder \<Rightarrow> 'b tokio_builder" where
  "tb_set_time b = b\<lparr>tb_enable_time := True\<rparr>"

definition tb_enable_all :: "'b tokio_builder \<Rightarrow> 'b tokio_builder" where
  "tb_enable_all b = tb_set_time (tb_set_io b)"

definition tb_set_workers :: "nat \<Rightarrow> 'b tokio_builder \<Rightarrow> 'b tokio_builder run" where
  "tb_set_workers n b = bind_run (assert_run (0 < n) AssertFailed) (\<lambda>_. Ret (b\<lparr>tb_worker_threads := Some n\<rparr>))"

definition tb_set_max_blocking :: "nat \<Rightarrow> 'b tokio_builder \<Rightarrow> 'b tokio_builder run" where
  "tb_set_max_blocking n b = bind_run (assert_run (0 < n) AssertFailed) (\<lambda>_. Ret (b\<lparr>tb_max_blocking_threads := n\<rparr>))"

text \<open>The setters that take anything, by the field they set.\<close>

datatype 'b builder_call =
    WorkerThreads nat | MaxBlockingThreads nat | EnableAll | EnableIo | EnableTime | StartPaused bool
  | ThreadName string | ThreadStackSize nat | OnThreadStart 'b | OnThreadStop 'b | OnThreadPark 'b
  | OnThreadUnpark 'b | ThreadKeepAlive duration | GlobalQueueInterval u32 | EventInterval u32

fun tb_call :: "'b builder_call \<Rightarrow> 'b tokio_builder \<Rightarrow> 'b tokio_builder run" where
  "tb_call (WorkerThreads n) b = tb_set_workers n b"
| "tb_call (MaxBlockingThreads n) b = tb_set_max_blocking n b"
| "tb_call EnableAll b = Ret (tb_enable_all b)"
| "tb_call EnableIo b = Ret (tb_set_io b)"
| "tb_call EnableTime b = Ret (tb_set_time b)"
| "tb_call (StartPaused x) b = Ret (b\<lparr>tb_start_paused := x\<rparr>)"
| "tb_call (ThreadName s) b = Ret (b\<lparr>tb_thread_name := s\<rparr>)"
| "tb_call (ThreadStackSize n) b = Ret (b\<lparr>tb_thread_stack_size := Some n\<rparr>)"
| "tb_call (OnThreadStart f) b = Ret (b\<lparr>tb_after_start := Some f\<rparr>)"
| "tb_call (OnThreadStop f) b = Ret (b\<lparr>tb_before_stop := Some f\<rparr>)"
| "tb_call (OnThreadPark f) b = Ret (b\<lparr>tb_before_park := Some f\<rparr>)"
| "tb_call (OnThreadUnpark f) b = Ret (b\<lparr>tb_after_unpark := Some f\<rparr>)"
| "tb_call (ThreadKeepAlive d) b = Ret (b\<lparr>tb_keep_alive := Some d\<rparr>)"
| "tb_call (GlobalQueueInterval n) b = Ret (b\<lparr>tb_global_queue_interval := n\<rparr>)"
| "tb_call (EventInterval n) b = Ret (b\<lparr>tb_event_interval := n\<rparr>)"

fun tb_calls :: "'b builder_call list \<Rightarrow> 'b tokio_builder \<Rightarrow> 'b tokio_builder run" where
  "tb_calls [] b = Ret b"
| "tb_calls (x # xs) b = bind_run (tb_call x b) (tb_calls xs)"

definition build_basic_runtime :: "'b tokio_builder \<Rightarrow> 'h thread_ctx \<Rightarrow> 'h tokio_runtime io_result run" where
  "build_basic_runtime b c = tokio_runtime_new c"

definition build_threaded_runtime :: "'b tokio_builder \<Rightarrow> 'h thread_ctx \<Rightarrow> 'h tokio_runtime io_result run" where
  "build_threaded_runtime b c = tokio_runtime_new c"

definition tb_build :: "'b tokio_builder \<Rightarrow> 'h thread_ctx \<Rightarrow> 'h tokio_runtime io_result run" where
  "tb_build b c =
     (case tb_kind b of CurrentThread \<Rightarrow> build_basic_runtime b c | MultiThread \<Rightarrow> build_threaded_runtime b c)"

section \<open>Local sets\<close>

definition local_set_spawn :: "'h thread_ctx \<Rightarrow> ('g, 'c, 'p) exec \<Rightarrow> (nat \<times> ('g, 'c, 'p) exec) run" where
  "local_set_spawn c ex = bind_run (nh_current c) (\<lambda>nh. Ret (tn_spawn nh ex))"

definition local_set_run_until :: "'fut \<Rightarrow> 'fut" where
  "local_set_run_until fut = fut"

definition local_set_block_on :: "'h tokio_runtime \<Rightarrow> 'fut \<Rightarrow> 'r run" where
  "local_set_block_on rt fut = tokio_runtime_block_on rt (local_set_run_until fut)"

section \<open>The mocked futures-timer\<close>

text \<open>\<open>mocked-crates/futures-timer\<close>: its \<open>Delay\<close> is a sleep of the simulator.\<close>

record futures_delay =
  fd_inner :: sleep

definition delay_new :: "duration \<Rightarrow> 'cb time_state \<Rightarrow> (futures_delay \<times> 'cb time_state) run" where
  "delay_new d s = bind_run (time_sleep d s) (\<lambda>(sl, s). Ret (\<lparr>fd_inner = sl\<rparr>, s))"

definition delay_reset ::
    "duration \<Rightarrow> futures_delay \<Rightarrow> 'cb time_state \<Rightarrow> (futures_delay \<times> 'cb time_state) run" where
  "delay_reset d fd s =
     bind_run (now_instant s) (\<lambda>(n, s).
     bind_run (instant_add n d) (\<lambda>dl. Ret (fd\<lparr>fd_inner := sleep_reset dl (fd_inner fd)\<rparr>, s)))"

definition delay_poll ::
    "node_id \<Rightarrow> 'cb \<Rightarrow> futures_delay \<Rightarrow> 'cb time_state \<Rightarrow> (unit poll \<times> 'cb time_state) run" where
  "delay_poll n wake fd s = sleep_poll n wake (fd_inner fd) s"

text \<open>A delay that is reset is the delay that would be made anew.\<close>

lemma delay_reset_is_new: "delay_reset d fd s = delay_new d s"
proof -
  obtain sl where fd: "fd = \<lparr>fd_inner = sl\<rparr>" by (cases fd)
  obtain dl0 where sl: "sl = \<lparr>deadline = dl0\<rparr>" by (cases sl)
  show ?thesis
    by (simp add: delay_reset_def delay_new_def time_sleep_def sleep_reset_def sleep_until_def bind_run_assoc
        split_def fd sl)
qed

section \<open>Properties\<close>

text \<open>The builder refuses zero threads and nothing else, and what is built does not depend on it.\<close>

definition zero_threads :: "'b builder_call \<Rightarrow> bool" where
  "zero_threads x \<longleftrightarrow> x = WorkerThreads 0 \<or> x = MaxBlockingThreads 0"

lemma tb_call_cases:
  "zero_threads x \<Longrightarrow> tb_call x b = Panic AssertFailed"
  "\<not> zero_threads x \<Longrightarrow> \<exists>b'. tb_call x b = Ret b'"
  by (cases x; auto simp: zero_threads_def tb_set_workers_def tb_set_max_blocking_def)+

lemma tb_calls_cases:
  "if list_ex zero_threads xs then tb_calls xs b = Panic AssertFailed else \<exists>b'. tb_calls xs b = Ret b'"
proof (induction xs arbitrary: b)
  case (Cons x xs)
  then show ?case
    using tb_call_cases(1) [of x b] tb_call_cases(2) [of x b] by (cases "zero_threads x") auto
qed simp

text \<open>Whatever settings are made, a builder of either kind builds the runtime that
  \<open>Runtime::new\<close> gives, unless a number of threads is set to zero, which panics; and entering or
  spawning on any handle, of whatever runtime, is the same as doing so on the handle current on the
  thread, so that outside a simulation all of them panic, \<open>try_current\<close> included, where tokio
  returns an error or enters the handle's own runtime.\<close>

theorem tokio_facade_is_current:
  shows "bind_run (tb_calls xs (tokio_builder_new k)) (\<lambda>b. tb_build b c) =
      (if list_ex zero_threads xs then Panic AssertFailed else tokio_runtime_new c) \<and>
    tokio_enter th c = bind_run (tokio_current c) (\<lambda>cur. tokio_enter cur c) \<and>
    tokio_spawn th c ex = current_spawn c ex \<and>
    (tokio_try_current c = Panic ContextMissing \<longleftrightarrow> tc_handle c = None) \<and>
    (tokio_enter th c = Panic ContextMissing \<longleftrightarrow> tc_handle c = None)"
proof -
  have "bind_run (tb_calls xs b) (\<lambda>b. tb_build b c) =
      (if list_ex zero_threads xs then Panic AssertFailed else tokio_runtime_new c)" for b
    using tb_calls_cases [of xs b]
    by (auto simp: tb_build_def build_basic_runtime_def build_threaded_runtime_def split: runtime_kind.split if_splits)
  moreover have "tokio_spawn th c ex = current_spawn c ex"
    by (cases "tn_try_current c") (simp_all add: tokio_spawn_def current_spawn_def nh_current_def nh_try_current_def tn_current_def)
  ultimately show ?thesis
    by (cases "tc_handle c") (simp_all add: tokio_enter_def tokio_current_def tokio_try_current_def ctx_current_def)
qed

end
