(* ===== verification/Sim_Test.thy ===== *)
theory Sim_Test
  imports Virtual_Time
begin

text \<open>
  The test attribute \<open>sim_test\<close> of \<open>msim-macros/src/lib.rs\<close>: how its arguments are read, and the
  loop over configurations and seeds that the generated test runs; with \<open>TestConfig\<close> of
  \<open>msim/src/sim/config.rs\<close>. The syntax trees of the \<open>syn\<close> crate are reduced to what the macro
  looks at; parsing an expression or a path is the crate's, and a parameter.
\<close>

section \<open>Test configurations\<close>

text \<open>Pairs of a repeat count and a configuration, and the conversions into them.\<close>

type_synonym 'c test_configs = "(nat \<times> 'c) list"

definition from_sim_config :: "'c \<Rightarrow> 'c test_configs" where
  "from_sim_config config = [(1, config)]"

definition from_sim_configs :: "'c list \<Rightarrow> 'c test_configs" where
  "from_sim_configs config = map (\<lambda>c. (1, c)) config"

definition from_repeats :: "(nat \<times> 'c) list \<Rightarrow> 'c test_configs" where
  "from_repeats configs = configs"

section \<open>The generated test\<close>

text \<open>
  \<open>run s c\<close> is a whole simulation on its own thread with seed \<open>s\<close> and configuration \<open>c\<close>: its result,
  or its panic. The loops also give the simulations they ran, and the seed that comes next.
\<close>

type_synonym ('c, 'r) test_state = "(u64 \<times> 'r option) run \<times> (u64 \<times> 'c) list"

fun run_repeats ::
    "(u64 \<Rightarrow> 'c \<Rightarrow> 'r run) \<Rightarrow> nat \<Rightarrow> 'c \<Rightarrow> u64 \<Rightarrow> 'r option \<Rightarrow> (u64 \<times> 'c) list \<Rightarrow> ('c, 'r) test_state" where
  "run_repeats run 0 c inner_seed rv hist = (Ret (inner_seed, rv), hist)"
| "run_repeats run (Suc k) c inner_seed rv hist =
     (case run inner_seed c of
        Panic e \<Rightarrow> (Panic e, hist @ [(inner_seed, c)])
      | Ret r \<Rightarrow>
          if unat inner_seed + 1 < 2 ^ 64
          then run_repeats run k c (inner_seed + 1) (Some r) (hist @ [(inner_seed, c)])
          else (Panic Overflow, hist @ [(inner_seed, c)]))"

fun run_configs ::
    "(u64 \<Rightarrow> 'c \<Rightarrow> 'r run) \<Rightarrow> 'c test_configs \<Rightarrow> u64 \<Rightarrow> 'r option \<Rightarrow> (u64 \<times> 'c) list \<Rightarrow> ('c, 'r) test_state" where
  "run_configs run [] inner_seed rv hist = (Ret (inner_seed, rv), hist)"
| "run_configs run ((repeat, c) # cs) inner_seed rv hist =
     (if repeat = 0 then (Panic AssertFailed, hist)
      else (case run_repeats run repeat c inner_seed rv hist of
          (Ret (s, rv), hist) \<Rightarrow> run_configs run cs s rv hist
        | (Panic e, hist) \<Rightarrow> (Panic e, hist)))"

text \<open>
  The environment of the test: the variables it reads, and the seconds since 1970. The floating-point
  time limit goes to the simulations; here it only has to parse.
\<close>

record test_env =
  te_test_num :: "string option"
  te_check_determinism :: "string option"
  te_seed :: "string option"
  te_time_limit_ok :: bool
  te_watchdog_timeout_ms :: "string option"
  te_now_secs :: u64

definition test_seed :: "test_env \<Rightarrow> u64 run" where
  "test_seed env =
     (case te_seed env of
        Some s \<Rightarrow> bind_run (expect UnwrapNone (parse_u64 s)) (\<lambda>n. Ret (of_nat n))
      | None \<Rightarrow> Ret (te_now_secs env))"

definition watchdog_timeout :: "test_env \<Rightarrow> duration run" where
  "watchdog_timeout env =
     (case te_watchdog_timeout_ms env of
        Some s \<Rightarrow> bind_run (expect UnwrapNone (parse_u64 s)) (\<lambda>n. Ret (n * 1000000))
      | None \<Rightarrow> Ret (5000 * 1000000))"

text \<open>\<open>gen\<close> evaluates the configuration expression in a runtime of its own with the given seed.\<close>

definition sim_test ::
    "test_env \<Rightarrow> (u64 \<Rightarrow> 'c test_configs run) \<Rightarrow> (duration \<Rightarrow> u64 \<Rightarrow> 'c \<Rightarrow> 'r run) \<Rightarrow>
     'r run \<times> (u64 \<times> 'c) list" where
  "sim_test env gen run =
     (case bind_run (assert_run (te_test_num env \<in> {None, Some ''1''}) AssertFailed) (\<lambda>_.
           bind_run (assert_run (te_check_determinism env = None) AssertFailed) (\<lambda>_.
           bind_run (test_seed env) (\<lambda>seed.
           bind_run (assert_run (te_time_limit_ok env) UnwrapNone) (\<lambda>_.
           bind_run (watchdog_timeout env) (\<lambda>timeout.
           bind_run (gen seed) (\<lambda>configs. Ret (seed, timeout, configs))))))) of
        Panic e \<Rightarrow> (Panic e, [])
      | Ret (seed, timeout, configs) \<Rightarrow>
          (case run_configs (run timeout) configs seed None [] of
             (Panic e, hist) \<Rightarrow> (Panic e, hist)
           | (Ret (_, rv), hist) \<Rightarrow> (expect UnwrapNone rv, hist)))"

section \<open>Arguments of the attribute\<close>

datatype syn_lit = LitStr string | LitOther

text \<open>An argument, with the identifier of its path if the path is one.\<close>

datatype nested_meta = NameValue "string option" syn_lit | MetaPath "string option" | MetaOther

datatype syn_error =
    NotAsync | MissingIdent | ExpectedStringLiteral | SynParseError string | CrateSetTwice | NotAnIdent
  | UnknownAttribute string | SetFlavor string | NeedsArgument string | UnknownInMacro

record 'e test_args =
  crate_name :: "string option"
  network_config_expr :: "'e option"
  run_in_client_node :: bool

definition test_args_default :: "'e test_args" where
  "test_args_default = \<lparr>crate_name = None, network_config_expr = None, run_in_client_node = True\<rparr>"

text \<open>\<open>to_lowercase\<close> on identifiers of ASCII letters.\<close>

definition to_lowercase :: "string \<Rightarrow> string" where
  "to_lowercase = map (\<lambda>c. let n = of_char c :: nat in
     if 65 \<le> n \<and> n \<le> 90 then char_of (n + 32) else c)"

definition parse_ident :: "(string \<Rightarrow> string option option) \<Rightarrow> syn_lit \<Rightarrow> syn_error + string" where
  "parse_ident parse_path lit =
     (case lit of
        LitOther \<Rightarrow> Inl NotAnIdent
      | LitStr s \<Rightarrow> (case parse_path s of Some (Some i) \<Rightarrow> Inr i | _ \<Rightarrow> Inl NotAnIdent))"

definition set_crate_name ::
    "(string \<Rightarrow> string option option) \<Rightarrow> syn_lit \<Rightarrow> 'e test_args \<Rightarrow> syn_error + 'e test_args" where
  "set_crate_name parse_path lit cfg =
     (if crate_name cfg \<noteq> None then Inl CrateSetTwice
      else (case parse_ident parse_path lit of
          Inl e \<Rightarrow> Inl e
        | Inr i \<Rightarrow> Inr (cfg\<lparr>crate_name := Some i\<rparr>)))"

definition set_config_network_expr :: "'e \<Rightarrow> 'e test_args \<Rightarrow> 'e test_args" where
  "set_config_network_expr e cfg = cfg\<lparr>network_config_expr := Some e\<rparr>"

definition build_named ::
    "(string \<Rightarrow> string option option) \<Rightarrow> (string \<Rightarrow> 'e option) \<Rightarrow> string \<Rightarrow> syn_lit \<Rightarrow>
     'e test_args \<Rightarrow> syn_error + 'e test_args" where
  "build_named parse_path parse_expr name lit cfg =
     (if name \<in> {''worker_threads'', ''flavor'', ''start_paused''} then Inr cfg
      else if name = ''no_client_node'' then Inr (cfg\<lparr>run_in_client_node := False\<rparr>)
      else if name = ''config'' then
        (case lit of
           LitOther \<Rightarrow> Inl ExpectedStringLiteral
         | LitStr s \<Rightarrow>
             (case parse_expr s of
                None \<Rightarrow> Inl (SynParseError s)
              | Some e \<Rightarrow> Inr (set_config_network_expr e cfg)))
      else if name = ''crate'' then set_crate_name parse_path lit cfg
      else Inl (UnknownAttribute name))"

definition build_path :: "string \<Rightarrow> 'e test_args \<Rightarrow> syn_error + 'e test_args" where
  "build_path name cfg =
     (if name = ''check_determinism'' then Inr cfg
      else if name \<in> {''threaded_scheduler'', ''multi_thread''} then Inl (SetFlavor ''multi_thread'')
      else if name \<in> {''basic_scheduler'', ''current_thread'', ''single_threaded''}
        then Inl (SetFlavor ''current_thread'')
      else if name \<in> {''flavor'', ''worker_threads'', ''start_paused''} then Inl (NeedsArgument name)
      else Inl (UnknownAttribute name))"

definition build_arg ::
    "(string \<Rightarrow> string option option) \<Rightarrow> (string \<Rightarrow> 'e option) \<Rightarrow> nested_meta \<Rightarrow>
     'e test_args \<Rightarrow> syn_error + 'e test_args" where
  "build_arg parse_path parse_expr arg cfg =
     (case arg of
        NameValue None _ \<Rightarrow> Inl MissingIdent
      | NameValue (Some i) lit \<Rightarrow> build_named parse_path parse_expr (to_lowercase i) lit cfg
      | MetaPath None \<Rightarrow> Inl MissingIdent
      | MetaPath (Some i) \<Rightarrow> build_path (to_lowercase i) cfg
      | MetaOther \<Rightarrow> Inl UnknownInMacro)"

fun build_args ::
    "(string \<Rightarrow> string option option) \<Rightarrow> (string \<Rightarrow> 'e option) \<Rightarrow> nested_meta list \<Rightarrow>
     'e test_args \<Rightarrow> syn_error + 'e test_args" where
  "build_args parse_path parse_expr [] cfg = Inr cfg"
| "build_args parse_path parse_expr (a # as) cfg =
     (case build_arg parse_path parse_expr a cfg of
        Inl e \<Rightarrow> Inl e
      | Inr cfg \<Rightarrow> build_args parse_path parse_expr as cfg)"

definition build_test_config ::
    "(string \<Rightarrow> string option option) \<Rightarrow> (string \<Rightarrow> 'e option) \<Rightarrow> nested_meta list \<Rightarrow>
     syn_error + 'e test_args" where
  "build_test_config parse_path parse_expr args = build_args parse_path parse_expr args test_args_default"

text \<open>
  What the macro makes of a test: an error for a function that is not \<open>async\<close> or for a bad argument,
  or the crate its generated code names, the configuration expression, and whether the body runs on
  a client node of its own.
\<close>

definition parse_test ::
    "(string \<Rightarrow> string option option) \<Rightarrow> (string \<Rightarrow> 'e option) \<Rightarrow> bool \<Rightarrow> nested_meta list \<Rightarrow>
     (syn_error + string \<times> 'e option \<times> bool)" where
  "parse_test parse_path parse_expr asyncness args =
     (if \<not> asyncness then Inl NotAsync
      else (case build_test_config parse_path parse_expr args of
          Inl e \<Rightarrow> Inl e
        | Inr cfg \<Rightarrow>
            Inr (case crate_name cfg of Some c \<Rightarrow> c | None \<Rightarrow> ''msim'',
                 network_config_expr cfg, run_in_client_node cfg)))"

section \<open>Seeds\<close>

text \<open>The simulations a test is to run: each configuration as often as it says, seeds counting up.\<close>

definition planned :: "'c test_configs \<Rightarrow> u64 \<Rightarrow> (u64 \<times> 'c) list" where
  "planned configs seed =
     (let cs = concat (map (\<lambda>(k, c). replicate k c) configs)
      in zip (map (\<lambda>i. seed + of_nat i) [0..<length cs]) cs)"

text \<open>Run one after the other until one panics: the outcome and what ran.\<close>

fun until_panic :: "(u64 \<Rightarrow> 'c \<Rightarrow> 'r run) \<Rightarrow> (u64 \<times> 'c) list \<Rightarrow> 'r option \<Rightarrow> 'r run \<times> (u64 \<times> 'c) list" where
  "until_panic run [] rv = (expect UnwrapNone rv, [])"
| "until_panic run ((s, c) # ps) rv =
     (case run s c of
        Panic e \<Rightarrow> (Panic e, [(s, c)])
      | Ret r \<Rightarrow> (case until_panic run ps (Some r) of (q, hist) \<Rightarrow> (q, (s, c) # hist)))"

end
