(* ===== verification/Sim_Test_Facts.thy ===== *)
theory Sim_Test_Facts
  imports Sim_Test
begin

text \<open>
  Facts about the test attribute: the simulations a test runs and its outcome, the boundary of the
  seeds, and a specification of the arguments.
\<close>

section \<open>The loops over repeats and configurations\<close>

fun seeds_from :: "u64 \<Rightarrow> 'c list \<Rightarrow> (u64 \<times> 'c) list" where
  "seeds_from s [] = []"
| "seeds_from s (c # cs) = (s, c) # seeds_from (s + 1) cs"

lemma zip_seeds: "zip (map (\<lambda>i. s + of_nat i) [0..<length cs]) cs = seeds_from s cs"
proof (induction cs arbitrary: s)
  case (Cons c cs)
  have "map (\<lambda>i. s + of_nat i) [0..<length (c # cs)] = s # map (\<lambda>i. s + 1 + of_nat i) [0..<length cs]"
    by (simp add: upt_conv_Cons del: upt_Suc flip: map_Suc_upt)
  then show ?case by (simp add: Cons del: upt_Suc)
qed simp

lemma planned_eq: "planned configs s = seeds_from s (concat (map (\<lambda>(k, c). replicate k c) configs))"
  by (simp add: planned_def Let_def zip_seeds)

lemma unat_next:
  fixes s :: u64
  assumes "unat s + Suc k < 2 ^ 64"
  shows "unat (s + 1) + k < 2 ^ 64"
  using assms by (simp add: unat_word_ariths)

text \<open>The repeats of one configuration, followed by whatever comes after.\<close>

definition outcome :: "(u64 \<Rightarrow> 'c \<Rightarrow> 'r run) \<Rightarrow> (u64 \<times> 'c) list \<Rightarrow> 'r option \<Rightarrow> (u64 \<times> 'c) list \<Rightarrow> 'r run \<times> (u64 \<times> 'c) list" where
  "outcome run ps rv hist = (case until_panic run ps rv of (q, t) \<Rightarrow> (q, hist @ t))"

lemma outcome_Cons: "outcome run ((s, c) # ps) rv hist =
  (case run s c of Panic e \<Rightarrow> (Panic e, hist @ [(s, c)])
   | Ret r \<Rightarrow> outcome run ps (Some r) (hist @ [(s, c)]))"
  by (simp add: outcome_def split: run.split prod.split)

lemma run_repeats_outcome:
  assumes "unat s + k < 2 ^ 64" and "\<And>rv' h'. F (s + of_nat k) rv' h' = outcome run (ps (s + of_nat k)) rv' h'"
  shows "(case run_repeats run k c s rv hist of
       (Ret (s', rv'), h') \<Rightarrow> F s' rv' h' | (Panic e, h') \<Rightarrow> (Panic e, h')) =
    outcome run (seeds_from s (replicate k c) @ ps (s + of_nat k)) rv hist"
  using assms
proof (induction k arbitrary: s rv hist)
  case 0
  then show ?case by simp
next
  case (Suc k)
  have next_ok: "unat (s + 1) + k < 2 ^ 64"
    by (rule unat_next [OF Suc.prems(1)])
  have shift: "s + of_nat (Suc k) = s + 1 + of_nat k"
    by simp
  show ?case
  proof (cases "run s c")
    case (Ret r)
    have "unat s + 1 < 2 ^ 64"
      using Suc.prems(1) by simp
    then have "run_repeats run (Suc k) c s rv hist = run_repeats run k c (s + 1) (Some r) (hist @ [(s, c)])"
      by (simp add: Ret)
    then show ?thesis
      using Suc.IH [OF next_ok, of "Some r" "hist @ [(s, c)]"] Suc.prems(2)
      unfolding shift by (simp add: outcome_Cons Ret)
  next
    case (Panic e)
    then show ?thesis by (simp add: outcome_Cons)
  qed
qed

lemma seeds_from_append: "seeds_from s (cs @ ds) = seeds_from s cs @ seeds_from (s + of_nat (length cs)) ds"
  by (induction cs arbitrary: s) (simp_all add: ac_simps)

definition finish :: "('c, 'r) test_state \<Rightarrow> 'r run \<times> (u64 \<times> 'c) list" where
  "finish st = (case st of (Panic e, hist) \<Rightarrow> (Panic e, hist) | (Ret (_, rv), hist) \<Rightarrow> (expect UnwrapNone rv, hist))"

lemma run_configs_outcome:
  assumes "\<forall>(k, c) \<in> set configs. k \<noteq> 0"
    and "unat s + length (concat (map (\<lambda>(k, c). replicate k c) configs)) < 2 ^ 64"
  shows "finish (run_configs run configs s rv hist) = outcome run (planned configs s) rv hist"
  using assms
proof (induction configs arbitrary: s rv hist)
  case Nil
  then show ?case by (simp add: finish_def planned_eq outcome_def)
next
  case (Cons kc configs)
  obtain k c where kc: "kc = (k, c)"
    by (cases kc)
  let ?n = "length (concat (map (\<lambda>(k, c). replicate k c) configs))"
  have k: "k \<noteq> 0" "unat s + k < 2 ^ 64" and len: "unat s + k + ?n < 2 ^ 64"
    using Cons.prems by (auto simp: kc)
  have "unat (s + of_nat k) = unat s + k"
    using k(2) by (simp add: unat_word_ariths unat_of_nat)
  then have IH: "finish (run_configs run configs (s + of_nat k) rv' h') =
      outcome run (planned configs (s + of_nat k)) rv' h'" for rv' h'
    using Cons.IH [of "s + of_nat k" rv' h'] Cons.prems(1) len by simp
  have "finish (run_configs run (kc # configs) s rv hist) =
    (case run_repeats run k c s rv hist of
       (Ret (s', rv'), h') \<Rightarrow> finish (run_configs run configs s' rv' h') | (Panic e, h') \<Rightarrow> (Panic e, h'))"
    using k(1) by (simp add: kc finish_def split: prod.split run.split)
  also have "\<dots> = outcome run (seeds_from s (replicate k c) @ planned configs (s + of_nat k)) rv hist"
    using run_repeats_outcome [where F = "\<lambda>s' rv' h'. finish (run_configs run configs s' rv' h')"
        and ps = "planned configs", OF k(2) IH] .
  also have "seeds_from s (replicate k c) @ planned configs (s + of_nat k) = planned (kc # configs) s"
    by (simp add: planned_eq kc seeds_from_append)
  finally show ?case .
qed

definition env_ok :: "test_env \<Rightarrow> u64 \<Rightarrow> duration \<Rightarrow> bool" where
  "env_ok env seed timeout \<longleftrightarrow> te_test_num env \<in> {None, Some ''1''} \<and> te_check_determinism env = None \<and>
     te_time_limit_ok env \<and> test_seed env = Ret seed \<and> watchdog_timeout env = Ret timeout"

lemma sim_test_finish:
  assumes "env_ok env seed timeout" and "gen seed = Ret configs"
  shows "sim_test env gen run = finish (run_configs (run timeout) configs seed None [])"
  using assms by (simp add: sim_test_def env_ok_def finish_def split: prod.split run.split)

section \<open>The arguments\<close>

definition arg_name :: "nested_meta \<Rightarrow> string option" where
  "arg_name a = (case a of NameValue (Some i) _ \<Rightarrow> Some (to_lowercase i) | _ \<Rightarrow> None)"

definition arg_crate :: "(string \<Rightarrow> string option option) \<Rightarrow> nested_meta \<Rightarrow> string option" where
  "arg_crate parse_path a = (case a of
     NameValue (Some i) (LitStr s) \<Rightarrow>
       if to_lowercase i = ''crate'' then Option.bind (parse_path s) (\<lambda>x. x) else None
   | _ \<Rightarrow> None)"

definition arg_config :: "(string \<Rightarrow> 'e option) \<Rightarrow> nested_meta \<Rightarrow> 'e option" where
  "arg_config parse_expr a = (case a of
     NameValue (Some i) (LitStr s) \<Rightarrow> if to_lowercase i = ''config'' then parse_expr s else None
   | _ \<Rightarrow> None)"

text \<open>An argument the macro takes: a known name with a value that parses, or the retired switch.\<close>

definition arg_ok :: "(string \<Rightarrow> string option option) \<Rightarrow> (string \<Rightarrow> 'e option) \<Rightarrow> nested_meta \<Rightarrow> bool" where
  "arg_ok parse_path parse_expr a \<longleftrightarrow>
     arg_name a \<in> Some ` {''worker_threads'', ''flavor'', ''start_paused'', ''no_client_node''} \<or>
     arg_crate parse_path a \<noteq> None \<or> arg_config parse_expr a \<noteq> None \<or>
     (\<exists>i. a = MetaPath (Some i) \<and> to_lowercase i = ''check_determinism'')"

lemma build_arg_cases:
  "build_arg parse_path parse_expr a cfg = Inr cfg' \<longleftrightarrow>
     arg_ok parse_path parse_expr a \<and> (arg_crate parse_path a \<noteq> None \<longrightarrow> crate_name cfg = None) \<and>
     cfg' = cfg\<lparr>
       crate_name := (case arg_crate parse_path a of None \<Rightarrow> crate_name cfg | Some c \<Rightarrow> Some c),
       network_config_expr := (case arg_config parse_expr a of None \<Rightarrow> network_config_expr cfg | Some e \<Rightarrow> Some e),
       run_in_client_node := (run_in_client_node cfg \<and> arg_name a \<noteq> Some ''no_client_node'')\<rparr>"
proof (cases a)
  case (NameValue i lit)
  show ?thesis
  proof (cases i)
    case None
    then show ?thesis
      by (simp add: NameValue build_arg_def arg_ok_def arg_name_def arg_crate_def arg_config_def)
  next
    case (Some n)
    show ?thesis
      by (cases cfg; cases lit)
        (auto simp: NameValue Some build_arg_def build_named_def arg_ok_def arg_name_def arg_crate_def
          arg_config_def set_crate_name_def parse_ident_def set_config_network_expr_def
          split: if_splits option.splits)
  qed
next
  case (MetaPath i)
  then show ?thesis
    by (cases cfg; cases i)
      (auto simp: build_arg_def build_path_def arg_ok_def arg_name_def arg_crate_def arg_config_def)
next
  case MetaOther
  then show ?thesis
    by (simp add: build_arg_def arg_ok_def arg_name_def arg_crate_def arg_config_def)
qed

lemma build_args_cases:
  "build_args parse_path parse_expr args cfg = Inr cfg' \<longleftrightarrow>
     (\<forall>a \<in> set args. arg_ok parse_path parse_expr a) \<and>
     length (List.map_filter (arg_crate parse_path) args) \<le> (if crate_name cfg = None then 1 else 0) \<and>
     cfg' = cfg\<lparr>
       crate_name := (case List.map_filter (arg_crate parse_path) args of
         [] \<Rightarrow> crate_name cfg | c # _ \<Rightarrow> Some c),
       network_config_expr := (if List.map_filter (arg_config parse_expr) args = [] then network_config_expr cfg
         else Some (last (List.map_filter (arg_config parse_expr) args))),
       run_in_client_node := (run_in_client_node cfg \<and>
         (\<forall>a \<in> set args. arg_name a \<noteq> Some ''no_client_node''))\<rparr>"
proof (induction args arbitrary: cfg)
  case Nil
  show ?case by (auto simp: map_filter_simps)
next
  case (Cons a args)
  let ?s = "\<lambda>cfg. cfg\<lparr>
       crate_name := (case arg_crate parse_path a of None \<Rightarrow> crate_name cfg | Some c \<Rightarrow> Some c),
       network_config_expr := (case arg_config parse_expr a of None \<Rightarrow> network_config_expr cfg | Some e \<Rightarrow> Some e),
       run_in_client_node := (run_in_client_node cfg \<and> arg_name a \<noteq> Some ''no_client_node'')\<rparr>"
  have step: "build_args parse_path parse_expr (a # args) cfg = Inr cfg' \<longleftrightarrow>
      arg_ok parse_path parse_expr a \<and> (arg_crate parse_path a \<noteq> None \<longrightarrow> crate_name cfg = None) \<and>
      build_args parse_path parse_expr args (?s cfg) = Inr cfg'"
  proof (cases "build_arg parse_path parse_expr a cfg")
    case (Inl e)
    with build_arg_cases [of parse_path parse_expr a cfg "?s cfg"] show ?thesis by simp
  next
    case (Inr b)
    with build_arg_cases [of parse_path parse_expr a cfg b] have "b = ?s cfg"
      and "arg_ok parse_path parse_expr a" and "arg_crate parse_path a \<noteq> None \<longrightarrow> crate_name cfg = None"
      by blast+
    with Inr show ?thesis by simp
  qed
  show ?case
    unfolding step Cons.IH
    by (cases "arg_crate parse_path a"; cases "arg_config parse_expr a")
      (auto simp: map_filter_simps split: list.splits)
qed

section \<open>Properties\<close>

text \<open>C29: A test with proper settings runs exactly the planned simulations in order: every
  configuration as often as its count says, each with the next seed, up to the first that panics;
  its outcome is that panic or else the result of the last.\<close>

theorem sim_test_runs_planned:
  assumes "env_ok env seed timeout" and "gen seed = Ret configs"
    and "\<forall>(k, c) \<in> set configs. k \<noteq> 0" and "unat seed + length (planned configs seed) < 2 ^ 64"
  shows "sim_test env gen run = until_panic (run timeout) (planned configs seed) None"
proof -
  have "length (planned configs seed) = length (concat (map (\<lambda>(k, c). replicate k c) configs))"
    by (simp add: planned_def Let_def)
  then show ?thesis
    using run_configs_outcome [OF assms(3), of seed "run timeout" None "[]"] assms(4)
    by (simp add: sim_test_finish [of env seed timeout gen configs run, OF assms(1,2)] outcome_def split: prod.split)
qed

text \<open>The largest seed cannot pass: with \<open>MSIM_TEST_SEED\<close> at \<open>u64::MAX\<close> the test fails with an
  overflow after its first simulation, although that simulation succeeded.\<close>

theorem largest_seed_fails:
  assumes "env_ok env (- 1) timeout" and "gen (- 1) = Ret ((k, c) # configs)" and "k \<noteq> 0"
    and "run timeout (- 1) c = Ret r"
  shows "sim_test env gen run = (Panic Overflow, [(- 1, c)])"
proof -
  obtain j where "k = Suc j"
    using assms(3) by (cases k) auto
  then show ?thesis
    using assms(4) by (simp add: sim_test_finish [of env "- 1" timeout gen "(k, c) # configs" run, OF assms(1,2)] finish_def
        unsigned_minus_1_eq_mask mask_eq_exp_minus_1)
qed

text \<open>The arguments of the attribute are accepted just when each is on its own and the crate is
  named at most once; then the crate is the one named, the configuration the last one given, and the
  test runs on a client node unless some argument says otherwise, whatever the order.\<close>

theorem build_test_config_spec:
  "build_test_config parse_path parse_expr args = Inr cfg \<longleftrightarrow>
     (\<forall>a \<in> set args. arg_ok parse_path parse_expr a) \<and>
     length (List.map_filter (arg_crate parse_path) args) \<le> 1 \<and>
     cfg = \<lparr>crate_name = (case List.map_filter (arg_crate parse_path) args of [] \<Rightarrow> None | c # _ \<Rightarrow> Some c),
       network_config_expr = (let es = List.map_filter (arg_config parse_expr) args in
         if es = [] then None else Some (last es)),
       run_in_client_node = (\<forall>a \<in> set args. arg_name a \<noteq> Some ''no_client_node'')\<rparr>"
  by (cases "List.map_filter (arg_crate parse_path) args")
    (auto simp: build_test_config_def build_args_cases test_args_default_def Let_def)

section \<open>The properties at work\<close>

definition demo_env :: "string \<Rightarrow> test_env" where
  "demo_env seed = \<lparr>te_test_num = None, te_check_determinism = None, te_seed = Some seed,
     te_time_limit_ok = True, te_watchdog_timeout_ms = None, te_now_secs = 0\<rparr>"

lemma demo_env_ok:
  "env_ok (demo_env ''41'') 41 5000000000"
  "env_ok (demo_env ''18446744073709551615'') (- 1) 5000000000"
  by (simp_all add: env_ok_def demo_env_def test_seed_def watchdog_timeout_def parse_u64_def digit_val_def)

text \<open>Two configurations; the second fails on seed 43.\<close>

lemma sim_test_runs_planned_witness:
  "sim_test (demo_env ''41'') (\<lambda>_. Ret [(2, 10), (3, 20 :: nat)])
     (\<lambda>_ s c. if s = 43 then Panic TaskPanic else Ret c) = (Panic TaskPanic, [(41, 10), (42, 10), (43, 20)])"
proof -
  have p: "planned [(2, 10), (3, 20 :: nat)] 41 = [(41, 10), (42, 10), (43, 20), (44, 20), (45, 20)]"
    by (simp add: planned_eq eval_nat_numeral)
  show ?thesis
    using sim_test_runs_planned [OF demo_env_ok(1), of "\<lambda>_. Ret [(2, 10), (3, 20 :: nat)]"
        "[(2, 10), (3, 20)]" "\<lambda>_ s c. if s = 43 then Panic TaskPanic else Ret c"]
    by (simp add: p)
qed

lemma largest_seed_fails_witness:
  "sim_test (demo_env ''18446744073709551615'') (\<lambda>_. Ret [(1, 10 :: nat)]) (\<lambda>_ s c. Ret c) =
     (Panic Overflow, [(- 1, 10)])"
  using largest_seed_fails [OF demo_env_ok(2), of "\<lambda>_. Ret [(1, 10)]" 1 10 "[]" "\<lambda>_ s c. Ret c"] by simp

lemma build_test_config_spec_witness:
  "\<exists>cfg. build_test_config (\<lambda>s. Some (Some s)) Some
     [MetaPath (Some ''check_determinism''), NameValue (Some ''Crate'') (LitStr ''msim''),
      NameValue (Some ''no_client_node'') LitOther] = Inr cfg \<and> crate_name cfg = Some ''msim'' \<and>
     \<not> run_in_client_node cfg"
proof -
  have "to_lowercase ''Crate'' = ''crate''" "to_lowercase ''check_determinism'' = ''check_determinism''"
    "to_lowercase ''no_client_node'' = ''no_client_node''"
    by code_simp+
  then show ?thesis
    unfolding build_test_config_spec
    by (simp add: arg_ok_def arg_name_def arg_crate_def arg_config_def map_filter_simps Let_def)
qed

end
