(* ===== verification/Collections.thy ===== *)
theory Collections
  imports Sim_Rand "HOL-Library.AList"
begin

text \<open>
  The deterministic collections of \<open>msim/src/sim/collections.rs\<close>: \<open>HashMap\<close> and \<open>HashSet\<close> of the
  standard library whose hashers are seeded from the global generator. The table itself, with the
  order in which it iterates, is the standard library's and a parameter: the record \<open>table_ops\<close>
  with the laws \<open>table_ok\<close>. What the simulator adds is where the seeds come from: every
  constructor, and every operator that makes a new set, draws four numbers.
\<close>

section \<open>The table of the standard library\<close>

text \<open>The keys of a hasher of \<open>ahash\<close>.\<close>

record random_state =
  rs_0 :: u64
  rs_1 :: u64
  rs_2 :: u64
  rs_3 :: u64

text \<open>
  \<open>tb_new\<close> is \<open>with_capacity_and_hasher\<close>; \<open>tb_iter\<close> gives the entries in the order of iteration,
  which the table is free to choose. A set is a table with values of type \<open>unit\<close>.
\<close>

record ('k, 'v, 't) table_ops =
  tb_new :: "nat \<Rightarrow> random_state \<Rightarrow> 't"
  tb_insert :: "'k \<Rightarrow> 'v \<Rightarrow> 't \<Rightarrow> 't"
  tb_get :: "'k \<Rightarrow> 't \<Rightarrow> 'v option"
  tb_iter :: "'t \<Rightarrow> ('k \<times> 'v) list"

definition table_ok :: "('k, 'v, 't) table_ops \<Rightarrow> bool" where
  "table_ok tb \<longleftrightarrow>
     (\<forall>n s k. tb_get tb k (tb_new tb n s) = None) \<and>
     (\<forall>k v t k'. tb_get tb k' (tb_insert tb k v t) = (if k' = k then Some v else tb_get tb k' t)) \<and>
     (\<forall>t. distinct (map fst (tb_iter tb t)) \<and> map_of (tb_iter tb t) = (\<lambda>k. tb_get tb k t))"

section \<open>Construction\<close>

text \<open>
  \<open>thread_rng()\<close>: the generator of the current runtime, \<open>rand\<close>, and a panic outside one. A draw
  hands back the clock, which the determinism log reads, and the generator.
\<close>

type_synonym ('a, 'g) drawn = "('a \<times> clock option \<times> 'g global_rng) run"

definition thread_rng :: "'g global_rng option \<Rightarrow> 'g global_rng run" where
  "thread_rng rand = expect ContextMissing rand"

definition draw_u64 ::
    "('g, 'f) rng_ops \<Rightarrow> clock option \<Rightarrow> 'g global_rng \<Rightarrow> (u64, 'g) drawn" where
  "draw_u64 ops clk gr = rng_with ops (\<lambda>g. Ret (rng_u64 ops g)) clk gr"

definition random_state_default ::
    "('g, 'f) rng_ops \<Rightarrow> clock option \<Rightarrow> 'g global_rng option \<Rightarrow> (random_state, 'g) drawn" where
  "random_state_default ops clk rand =
     bind_run (thread_rng rand) (\<lambda>gr.
     bind_run (draw_u64 ops clk gr) (\<lambda>(a, clk, gr).
     bind_run (draw_u64 ops clk gr) (\<lambda>(b, clk, gr).
     bind_run (draw_u64 ops clk gr) (\<lambda>(c, clk, gr).
     bind_run (draw_u64 ops clk gr) (\<lambda>(d, clk, gr).
       Ret (\<lparr>rs_0 = a, rs_1 = b, rs_2 = c, rs_3 = d\<rparr>, clk, gr))))))"

definition coll_with_capacity ::
    "('k, 'v, 't) table_ops \<Rightarrow> ('g, 'f) rng_ops \<Rightarrow> nat \<Rightarrow> clock option \<Rightarrow> 'g global_rng option \<Rightarrow> ('t, 'g) drawn" where
  "coll_with_capacity tb ops capacity clk rand =
     bind_run (random_state_default ops clk rand) (\<lambda>(s, clk, gr). Ret (tb_new tb capacity s, clk, gr))"

definition coll_new ::
    "('k, 'v, 't) table_ops \<Rightarrow> ('g, 'f) rng_ops \<Rightarrow> clock option \<Rightarrow> 'g global_rng option \<Rightarrow> ('t, 'g) drawn" where
  "coll_new tb ops clk rand = coll_with_capacity tb ops 0 clk rand"

text \<open>\<open>extend\<close>, and \<open>from_iter\<close>, which extends a table with a hasher of its own; \<open>From\<close> an array.\<close>

definition coll_extend :: "('k, 'v, 't) table_ops \<Rightarrow> ('k \<times> 'v) list \<Rightarrow> 't \<Rightarrow> 't" where
  "coll_extend tb xs t = fold (\<lambda>(k, v). tb_insert tb k v) xs t"

definition coll_from_iter ::
    "('k, 'v, 't) table_ops \<Rightarrow> ('g, 'f) rng_ops \<Rightarrow> ('k \<times> 'v) list \<Rightarrow> clock option \<Rightarrow> 'g global_rng option \<Rightarrow>
     ('t, 'g) drawn" where
  "coll_from_iter tb ops xs clk rand =
     bind_run (coll_new tb ops clk rand) (\<lambda>(t, clk, gr). Ret (coll_extend tb xs t, clk, gr))"

definition coll_from_array ::
    "('k, 'v, 't) table_ops \<Rightarrow> ('g, 'f) rng_ops \<Rightarrow> ('k \<times> 'v) list \<Rightarrow> clock option \<Rightarrow> 'g global_rng option \<Rightarrow>
     ('t, 'g) drawn" where
  "coll_from_array tb ops xs clk rand = coll_from_iter tb ops xs clk rand"

section \<open>Use\<close>

definition coll_into_iter :: "('k, 'v, 't) table_ops \<Rightarrow> 't \<Rightarrow> ('k \<times> 'v) list" where
  "coll_into_iter tb t = tb_iter tb t"

definition coll_len :: "('k, 'v, 't) table_ops \<Rightarrow> 't \<Rightarrow> nat" where
  "coll_len tb t = length (tb_iter tb t)"

definition map_index :: "('k, 'v, 't) table_ops \<Rightarrow> 'k \<Rightarrow> 't \<Rightarrow> 'v run" where
  "map_index tb k t = expect KeyMissing (tb_get tb k t)"

text \<open>Equality: as many entries, and each found in the other; hashers play no part.\<close>

definition coll_eq :: "('k, 'v, 't) table_ops \<Rightarrow> 't \<Rightarrow> 't \<Rightarrow> bool" where
  "coll_eq tb t u \<longleftrightarrow> coll_len tb t = coll_len tb u \<and> list_all (\<lambda>(k, v). tb_get tb k u = Some v) (tb_iter tb t)"

text \<open>The operators on sets: the result is collected into a set of its own.\<close>

definition set_iter :: "('k, unit, 't) table_ops \<Rightarrow> 't \<Rightarrow> 'k list" where
  "set_iter tb t = map fst (tb_iter tb t)"

definition set_contains :: "('k, unit, 't) table_ops \<Rightarrow> 't \<Rightarrow> 'k \<Rightarrow> bool" where
  "set_contains tb t k \<longleftrightarrow> tb_get tb k t \<noteq> None"

definition set_difference :: "('k, unit, 't) table_ops \<Rightarrow> 't \<Rightarrow> 't \<Rightarrow> 'k list" where
  "set_difference tb t u = filter (\<lambda>k. \<not> set_contains tb u k) (set_iter tb t)"

definition set_union :: "('k, unit, 't) table_ops \<Rightarrow> 't \<Rightarrow> 't \<Rightarrow> 'k list" where
  "set_union tb t u =
     (if coll_len tb u \<le> coll_len tb t then set_iter tb t @ set_difference tb u t
      else set_iter tb u @ set_difference tb t u)"

definition set_intersection :: "('k, unit, 't) table_ops \<Rightarrow> 't \<Rightarrow> 't \<Rightarrow> 'k list" where
  "set_intersection tb t u =
     (if coll_len tb t \<le> coll_len tb u then filter (set_contains tb u) (set_iter tb t)
      else filter (set_contains tb t) (set_iter tb u))"

definition set_symmetric_difference :: "('k, unit, 't) table_ops \<Rightarrow> 't \<Rightarrow> 't \<Rightarrow> 'k list" where
  "set_symmetric_difference tb t u = set_difference tb t u @ set_difference tb u t"

datatype set_op = BitOr | BitAnd | BitXor | Sub

definition set_operator ::
    "set_op \<Rightarrow> ('k, unit, 't) table_ops \<Rightarrow> ('g, 'f) rng_ops \<Rightarrow> 't \<Rightarrow> 't \<Rightarrow> clock option \<Rightarrow> 'g global_rng option \<Rightarrow>
     ('t, 'g) drawn" where
  "set_operator op tb ops t u clk rand =
     coll_from_iter tb ops (map (\<lambda>k. (k, ()))
       (case op of BitOr \<Rightarrow> set_union tb t u | BitAnd \<Rightarrow> set_intersection tb t u
        | BitXor \<Rightarrow> set_symmetric_difference tb t u | Sub \<Rightarrow> set_difference tb t u)) clk rand"

text \<open>
  Serialisation writes the entries in the order of iteration; what is read is put into a table whose
  capacity the crate serde chooses.
\<close>

definition coll_serialize :: "('k, 'v, 't) table_ops \<Rightarrow> 't \<Rightarrow> ('k \<times> 'v) list" where
  "coll_serialize tb t = tb_iter tb t"

definition coll_deserialize ::
    "('k, 'v, 't) table_ops \<Rightarrow> ('g, 'f) rng_ops \<Rightarrow> nat \<Rightarrow> ('k \<times> 'v) list \<Rightarrow> clock option \<Rightarrow> 'g global_rng option \<Rightarrow>
     ('t, 'g) drawn" where
  "coll_deserialize tb ops capacity xs clk rand =
     bind_run (coll_with_capacity tb ops capacity clk rand) (\<lambda>(t, clk, gr).
       Ret (coll_extend tb xs t, clk, gr))"

section \<open>What the table holds\<close>

lemma table_okD:
  assumes "table_ok tb"
  shows "tb_get tb k (tb_new tb n s) = None"
    "tb_get tb k' (tb_insert tb k v t) = (if k' = k then Some v else tb_get tb k' t)"
    "distinct (map fst (tb_iter tb t))" "map_of (tb_iter tb t) k = tb_get tb k t"
  using assms by (auto simp: table_ok_def)

lemma map_of_rev: "distinct (map fst xs) \<Longrightarrow> map_of (rev xs) = map_of xs"
  by (subst map_of_inject_set) (simp_all add: rev_map [symmetric])

lemma get_extend:
  assumes "table_ok tb"
  shows "tb_get tb k (coll_extend tb xs t) =
    (case map_of (rev xs) k of None \<Rightarrow> tb_get tb k t | Some v \<Rightarrow> Some v)"
proof (induction xs arbitrary: t)
  case (Cons x xs)
  obtain a b where "x = (a, b)" by fastforce
  then show ?case
    using Cons.IH [of "tb_insert tb a b t"] table_okD(2) [OF assms, of k a b t]
    by (auto simp: coll_extend_def map_add_def split: option.splits)
qed (simp add: coll_extend_def)

lemma get_collected:
  assumes "table_ok tb"
  shows "tb_get tb k (coll_extend tb xs (tb_new tb n s)) = map_of (rev xs) k"
  by (simp add: get_extend [OF assms] table_okD(1) [OF assms] split: option.split)

lemma mem_iter:
  assumes "table_ok tb"
  shows "(k, v) \<in> set (tb_iter tb t) \<longleftrightarrow> tb_get tb k t = Some v"
  using table_okD(3,4) [OF assms] by (metis map_of_eq_Some_iff)

lemma set_iter_mem:
  assumes "table_ok tb"
  shows "k \<in> set (set_iter tb t) \<longleftrightarrow> set_contains tb t k"
  using mem_iter [OF assms, of k _ t] by (force simp: set_iter_def set_contains_def)

text \<open>Two tables are equal exactly when they hold the same.\<close>

lemma coll_eq_iff:
  assumes "table_ok tb"
  shows "coll_eq tb t u \<longleftrightarrow> (\<forall>k. tb_get tb k t = tb_get tb k u)"
proof
  assume eq: "coll_eq tb t u"
  have d: "distinct (tb_iter tb t)" "distinct (tb_iter tb u)"
    using table_okD(3) [OF assms] by (simp_all add: distinct_map)
  have "set (tb_iter tb t) \<subseteq> set (tb_iter tb u)"
    using eq by (auto simp: coll_eq_def list_all_iff mem_iter [OF assms])
  moreover have "card (set (tb_iter tb t)) = card (set (tb_iter tb u))"
    using eq d by (simp add: coll_eq_def coll_len_def distinct_card)
  ultimately have "set (tb_iter tb t) = set (tb_iter tb u)" by (intro card_subset_eq) simp_all
  then have "map_of (tb_iter tb t) = map_of (tb_iter tb u)"
    using table_okD(3) [OF assms] by (simp add: map_of_inject_set)
  then show "\<forall>k. tb_get tb k t = tb_get tb k u" by (metis table_okD(4) [OF assms])
next
  assume "\<forall>k. tb_get tb k t = tb_get tb k u"
  then have "map_of (tb_iter tb t) = map_of (tb_iter tb u)" using table_okD(4) [OF assms] by auto
  then have s: "set (tb_iter tb t) = set (tb_iter tb u)"
    using table_okD(3) [OF assms] by (simp add: map_of_inject_set)
  have "coll_len tb t = coll_len tb u"
    using s table_okD(3) [OF assms] by (metis coll_len_def distinct_card distinct_map)
  then show "coll_eq tb t u" using s by (auto simp: coll_eq_def list_all_iff mem_iter [OF assms])
qed

lemma log_or_check_rng: "log_or_check v gr = Ret gr' \<Longrightarrow> gr_rng gr' = gr_rng gr"
  by (cases "gr_check gr") (auto simp: log_or_check_def Let_def split: if_splits)

lemma draw_u64_rng: "draw_u64 ops clk gr = Ret (x, clk', gr') \<Longrightarrow> gr_rng gr' = snd (rng_u64 ops (gr_rng gr))"
  by (cases "rng_u64 ops (gr_rng gr)") (auto simp: draw_u64_def rng_with_def Let_def split: if_splits dest!: log_or_check_rng)

lemma random_state_rng:
  assumes "random_state_default ops clk rand = Ret (s, clk', gr')"
  shows "\<exists>gr. rand = Some gr \<and> gr_rng gr' = ((\<lambda>g. snd (rng_u64 ops g)) ^^ 4) (gr_rng gr)"
  using assms by (auto simp: random_state_default_def thread_rng_def numeral_eq_Suc dest!: draw_u64_rng)

section \<open>Properties\<close>

text \<open>A collection that is serialised and read back is equal to the one it came from, however
  the two tables order their entries; the copy has a hasher of its own, for which exactly four
  numbers are drawn from the generator of the runtime.\<close>

theorem serde_roundtrip:
  assumes "table_ok tb" "coll_deserialize tb ops capacity (coll_serialize tb t) clk rand = Ret (u, clk', gr')"
  shows "coll_eq tb u t \<and> (\<exists>gr. rand = Some gr \<and> gr_rng gr' = ((\<lambda>g. snd (rng_u64 ops g)) ^^ 4) (gr_rng gr))"
proof -
  from assms(2) obtain s where s: "random_state_default ops clk rand = Ret (s, clk', gr')"
    and u: "u = coll_extend tb (tb_iter tb t) (tb_new tb capacity s)"
    by (auto simp: coll_deserialize_def coll_with_capacity_def coll_serialize_def)
  have "map_of (rev (tb_iter tb t)) = map_of (tb_iter tb t)"
    by (rule map_of_rev [OF table_okD(3) [OF assms(1)]])
  then have "coll_eq tb u t"
    by (simp add: coll_eq_iff [OF assms(1)] u get_collected [OF assms(1)] table_okD(4) [OF assms(1)])
  with random_state_rng [OF s] show ?thesis by simp
qed

text \<open>The operators on sets give the union, the intersection, the symmetric difference and the
  difference of what the two sets hold, in a set with a hasher of its own.\<close>

theorem set_operator_spec:
  assumes "table_ok tb" "set_operator op tb ops t u clk rand = Ret (r, clk', gr')"
  shows "(set_contains tb r k \<longleftrightarrow> (case op of BitOr \<Rightarrow> set_contains tb t k \<or> set_contains tb u k
      | BitAnd \<Rightarrow> set_contains tb t k \<and> set_contains tb u k
      | BitXor \<Rightarrow> set_contains tb t k \<noteq> set_contains tb u k
      | Sub \<Rightarrow> set_contains tb t k \<and> \<not> set_contains tb u k)) \<and>
    (\<exists>gr. rand = Some gr \<and> gr_rng gr' = ((\<lambda>g. snd (rng_u64 ops g)) ^^ 4) (gr_rng gr))"
proof -
  let ?xs = "case op of BitOr \<Rightarrow> set_union tb t u | BitAnd \<Rightarrow> set_intersection tb t u
        | BitXor \<Rightarrow> set_symmetric_difference tb t u | Sub \<Rightarrow> set_difference tb t u"
  from assms(2) obtain s where s: "random_state_default ops clk rand = Ret (s, clk', gr')"
    and r: "r = coll_extend tb (map (\<lambda>k. (k, ())) ?xs) (tb_new tb 0 s)"
    by (auto simp: set_operator_def coll_from_iter_def coll_new_def coll_with_capacity_def)
  have "set_contains tb r k \<longleftrightarrow> k \<in> set ?xs"
    by (simp add: set_contains_def r get_collected [OF assms(1)] map_of_eq_None_iff rev_map [symmetric] image_image)
  then show ?thesis using random_state_rng [OF s]
    by (auto simp: set_union_def set_intersection_def set_symmetric_difference_def set_difference_def
        set_iter_mem [OF assms(1)] split: set_op.split)
qed

section \<open>An example\<close>

text \<open>A table that iterates backwards or forwards, depending on the first number of its hasher.\<close>

definition demo_table :: "('k, 'v, random_state \<times> ('k \<times> 'v) list) table_ops" where
  "demo_table = \<lparr>tb_new = (\<lambda>n s. (s, [])), tb_insert = (\<lambda>k v t. (fst t, (k, v) # snd t)),
     tb_get = (\<lambda>k t. map_of (snd t) k),
     tb_iter = (\<lambda>t. let xs = AList.clearjunk (snd t) in if odd (rs_0 (fst t)) then rev xs else xs)\<rparr>"

lemma demo_table_ok: "table_ok demo_table"
proof -
  have "map_of (rev (AList.clearjunk xs)) = map_of xs" for xs :: "('a \<times> 'b) list"
    by (simp add: map_of_rev distinct_clearjunk map_of_clearjunk)
  then show ?thesis
    by (auto simp: table_ok_def demo_table_def Let_def rev_map [symmetric] map_of_clearjunk distinct_clearjunk)
qed

lemma demo_state:
  "random_state_default demo_rng None (Some (new_with_seed demo_rng 5)) =
     Ret (\<lparr>rs_0 = 5, rs_1 = 8, rs_2 = 11, rs_3 = 14\<rparr>, None, (new_with_seed demo_rng 5)\<lparr>gr_rng := 17\<rparr>)"
  by (simp add: random_state_default_def thread_rng_def draw_u64_def rng_with_def new_with_seed_def demo_rng_def)

theorem serde_roundtrip_witness:
  "\<exists>u clk' gr'. coll_deserialize demo_table demo_rng 2
       (coll_serialize demo_table (\<lparr>rs_0 = 0, rs_1 = 0, rs_2 = 0, rs_3 = 0\<rparr>, [(1 :: nat, True), (2, False)])) None
       (Some (new_with_seed demo_rng 5)) = Ret (u, clk', gr') \<and> gr_rng gr' = 17 \<and>
     coll_eq demo_table u (\<lparr>rs_0 = 0, rs_1 = 0, rs_2 = 0, rs_3 = 0\<rparr>, [(1, True), (2, False)])"
proof -
  let ?t = "(\<lparr>rs_0 = 0, rs_1 = 0, rs_2 = 0, rs_3 = 0\<rparr>, [(1 :: nat, True), (2, False)])"
  let ?gr = "(new_with_seed demo_rng 5)\<lparr>gr_rng := 17\<rparr>"
  obtain u where d: "coll_deserialize demo_table demo_rng 2 (coll_serialize demo_table ?t) None
      (Some (new_with_seed demo_rng 5)) = Ret (u, None, ?gr)"
    by (simp add: coll_deserialize_def coll_with_capacity_def demo_state)
  from serde_roundtrip [OF demo_table_ok d] d show ?thesis by auto
qed

theorem set_operator_spec_witness:
  "\<exists>r clk' gr'. set_operator BitXor demo_table demo_rng (\<lparr>rs_0 = 0, rs_1 = 0, rs_2 = 0, rs_3 = 0\<rparr>, [(1 :: nat, ())])
       (\<lparr>rs_0 = 1, rs_1 = 0, rs_2 = 0, rs_3 = 0\<rparr>, [(1, ()), (2, ())]) None (Some (new_with_seed demo_rng 5)) =
       Ret (r, clk', gr') \<and> set_contains demo_table r 2 \<and> \<not> set_contains demo_table r 1"
proof -
  let ?t = "(\<lparr>rs_0 = 0, rs_1 = 0, rs_2 = 0, rs_3 = 0\<rparr>, [(1 :: nat, ())])"
  let ?u = "(\<lparr>rs_0 = 1, rs_1 = 0, rs_2 = 0, rs_3 = 0\<rparr>, [(1 :: nat, ()), (2, ())])"
  let ?gr = "(new_with_seed demo_rng 5)\<lparr>gr_rng := 17\<rparr>"
  obtain r where d: "set_operator BitXor demo_table demo_rng ?t ?u None (Some (new_with_seed demo_rng 5)) =
      Ret (r, None, ?gr)"
    by (simp add: set_operator_def coll_from_iter_def coll_new_def coll_with_capacity_def demo_state)
  have "set_contains demo_table ?t 1" "\<not> set_contains demo_table ?t 2"
    "set_contains demo_table ?u 1" "set_contains demo_table ?u 2"
    by (simp_all add: set_contains_def demo_table_def)
  with set_operator_spec [OF demo_table_ok d] d show ?thesis by auto
qed

end
