(* ===== verification/Rpc_Macros.thy ===== *)
theory Rpc_Macros
  imports Sim_Test Mailbox
begin

text \<open>
  The macros for remote calls of \<open>msim-macros\<close>: the attribute \<open>service\<close> (\<open>service.rs\<close>), which turns
  the methods marked \<open>rpc\<close> into handlers, and the derivation of \<open>Request\<close> (\<open>request.rs\<close>). Syntax
  trees are reduced to what the macros look at; parsing a type or the arguments of an attribute is
  the work of the crates \<open>syn\<close> and \<open>darling\<close>, its result given with the tree or a parameter.
\<close>

section \<open>The attribute service\<close>

text \<open>
  An attribute: its path if that is an identifier, and what it parses to (\<open>None\<close>: not at all). Of an
  argument list the values of \<open>read\<close> and \<open>write\<close> matter (\<open>None\<close>: it has other arguments).
\<close>

datatype rpc_meta = RpcPath | RpcList "(bool \<times> bool) option" | RpcNameValue

record attribute =
  at_ident :: "string option"
  at_meta :: "rpc_meta option"

datatype 'ty fn_arg = ArgReceiver | ArgTyped 'ty

record 'ty impl_method =
  me_attrs :: "attribute list"
  me_name :: string
  me_async :: bool
  me_inputs :: "'ty fn_arg list"

record 'ty rpc_fn =
  rf_name :: string
  rf_async :: bool
  rf_type :: 'ty
  rf_read :: bool
  rf_write :: bool

text \<open>A handler as generated: what it is registered as, the method called, its argument, \<open>await\<close>.\<close>

datatype handler_kind = HandlerWrite | HandlerRead | HandlerPlain

record 'ty rpc_handler =
  rh_kind :: handler_kind
  rh_name :: string
  rh_type :: 'ty
  rh_await :: bool

datatype ('ty, 'o) impl_item = ImplMethod "'ty impl_method" | ImplOther 'o | ServeFn | ServeOnFn "'ty rpc_handler list"

datatype service_error = TooFewArguments | ReadAndWrite

definition take_attribute :: "attribute list \<Rightarrow> string \<Rightarrow> attribute option \<times> attribute list" where
  "take_attribute attrs path =
     (case position (\<lambda>a. at_ident a = Some path) attrs of
        None \<Rightarrow> (None, attrs)
      | Some idx \<Rightarrow> (Some (attrs ! idx), take idx attrs @ drop (Suc idx) attrs))"

definition rpc_fn_try_from :: "'ty impl_method \<Rightarrow> (service_error + 'ty rpc_fn) run" where
  "rpc_fn_try_from m =
     (if length (me_inputs m) < 2 then Ret (Inl TooFewArguments)
      else case me_inputs m ! 1 of
             ArgReceiver \<Rightarrow> Panic AssertFailed
           | ArgTyped ty \<Rightarrow> Ret (Inr \<lparr>rf_name = me_name m, rf_async = me_async m, rf_type = ty,
               rf_read = False, rf_write = False\<rparr>))"

text \<open>One method with its attribute taken: the function it declares.\<close>

definition rpc_fn_of :: "rpc_meta \<Rightarrow> 'ty impl_method \<Rightarrow> (service_error + 'ty rpc_fn) run" where
  "rpc_fn_of meta m =
     bind_run (rpc_fn_try_from m) (\<lambda>r. case r of
         Inl e \<Rightarrow> Ret (Inl e)
       | Inr f \<Rightarrow>
           (case meta of
              RpcList args \<Rightarrow>
                bind_run (expect UnwrapNone args) (\<lambda>(rd, wr).
                  if rd \<and> wr then Ret (Inl ReadAndWrite)
                  else Ret (Inr (f\<lparr>rf_read := rd, rf_write := wr\<rparr>)))
            | _ \<Rightarrow> Ret (Inr f)))"

text \<open>The loop over the items; an error leaves the later ones as they are.\<close>

fun take_rpc_attributes ::
    "('ty, 'o) impl_item list \<Rightarrow> ((service_error + 'ty rpc_fn list) \<times> ('ty, 'o) impl_item list) run" where
  "take_rpc_attributes [] = Ret (Inr [], [])"
| "take_rpc_attributes (ImplMethod m # xs) =
     (case take_attribute (me_attrs m) ''rpc'' of
        (None, _) \<Rightarrow>
          bind_run (take_rpc_attributes xs) (\<lambda>(r, ys). Ret (r, ImplMethod m # ys))
      | (Some a, attrs) \<Rightarrow>
          bind_run (expect UnwrapNone (at_meta a)) (\<lambda>meta.
          bind_run (rpc_fn_of meta m) (\<lambda>r.
            let m = m\<lparr>me_attrs := attrs\<rparr> in
            case r of
              Inl e \<Rightarrow> Ret (Inl e, ImplMethod m # xs)
            | Inr f \<Rightarrow>
                bind_run (take_rpc_attributes xs) (\<lambda>(r, ys).
                  Ret (map_sum id ((#) f) r, ImplMethod m # ys)))))"
| "take_rpc_attributes (x # xs) = bind_run (take_rpc_attributes xs) (\<lambda>(r, ys). Ret (r, x # ys))"

definition handler_of :: "'ty rpc_fn \<Rightarrow> 'ty rpc_handler" where
  "handler_of f =
     \<lparr>rh_kind = (if rf_write f then HandlerWrite else if rf_read f then HandlerRead else HandlerPlain),
      rh_name = rf_name f, rh_type = rf_type f, rh_await = rf_async f\<rparr>"

definition gen_add_rpc_handler :: "'ty rpc_fn list \<Rightarrow> ('ty, 'o) impl_item list \<Rightarrow> ('ty, 'o) impl_item list" where
  "gen_add_rpc_handler calls items = items @ [ServeFn, ServeOnFn (map handler_of calls)]"

definition service2 ::
    "('ty, 'o) impl_item list \<Rightarrow> ((service_error + ('ty, 'o) impl_item list) \<times> ('ty, 'o) impl_item list) run" where
  "service2 items =
     bind_run (take_rpc_attributes items) (\<lambda>(r, items).
       case r of
         Inl e \<Rightarrow> Ret (Inl e, items)
       | Inr calls \<Rightarrow> (let items = gen_add_rpc_handler calls items in Ret (Inr items, items)))"

text \<open>With an error the block is put out as far as it was rewritten, and the error after it.\<close>

definition service ::
    "('ty, 'o) impl_item list \<Rightarrow> (('ty, 'o) impl_item list \<times> service_error option) run" where
  "service items =
     bind_run (service2 items) (\<lambda>(r, items). Ret (case r of Inr out \<Rightarrow> (out, None) | Inl e \<Rightarrow> (items, Some e)))"

section \<open>The derivation of Request\<close>

datatype rtype_arg = ArgPath "string option" | ArgNameValue "string option" syn_lit | ArgLit syn_lit | ArgList

datatype rtype_meta = RtPath | RtList "rtype_arg list" | RtNameValue

datatype request_error = WrongNumber nat | ExpectAttribute | WrongSyntax

definition MESSAGE_ATTR :: string where "MESSAGE_ATTR = ''rtype''"

text \<open>\<open>parse_str\<close> of a type is a parameter; \<open>None\<close> stands for each of the errors, which are not looked at.\<close>

definition meta_item_to_ty :: "(string \<Rightarrow> 'ty option) \<Rightarrow> rtype_arg \<Rightarrow> 'ty option" where
  "meta_item_to_ty parse_type a =
     (case a of
        ArgPath (Some ident) \<Rightarrow> parse_type ident
      | ArgNameValue (Some ident) (LitStr s) \<Rightarrow> if ident = ''result'' then parse_type s else None
      | ArgLit (LitStr s) \<Rightarrow> parse_type s
      | _ \<Rightarrow> None)"

text \<open>The attributes of the type: \<open>None\<close> if one does not parse, else its path, if an identifier, and content.\<close>

type_synonym rtype_attr = "(string option \<times> rtype_meta) option"

definition get_attribute_type_multiple ::
    "(string \<Rightarrow> 'ty option) \<Rightarrow> rtype_attr list \<Rightarrow> string \<Rightarrow> request_error + 'ty option list" where
  "get_attribute_type_multiple parse_type attrs name =
     (case find (\<lambda>a. case a of Some (path, _) \<Rightarrow> path = Some name | None \<Rightarrow> False) attrs of
        Some (Some (_, meta)) \<Rightarrow>
          (case meta of RtList args \<Rightarrow> Inr (map (meta_item_to_ty parse_type) args) | _ \<Rightarrow> Inl WrongSyntax)
      | _ \<Rightarrow> Inl ExpectAttribute)"

text \<open>The implementation generated: the type's name, of which \<open>ID\<close> is the hash, and \<open>Response\<close>.\<close>

record 'ty request_impl =
  ri_name :: string
  ri_response :: "'ty option"

definition expand ::
    "(string \<Rightarrow> 'ty option) \<Rightarrow> string \<Rightarrow> rtype_attr list \<Rightarrow> request_error + 'ty request_impl" where
  "expand parse_type name attrs =
     (case get_attribute_type_multiple parse_type attrs MESSAGE_ATTR of
        Inl e \<Rightarrow> Inl e
      | Inr ty \<Rightarrow>
          if length ty = 1 then Inr \<lparr>ri_name = name, ri_response = ty ! 0\<rparr> else Inl (WrongNumber (length ty)))"

section \<open>What service produces\<close>

text \<open>The marked methods, and an item with the mark taken off: only its first one.\<close>

definition is_mark :: "attribute \<Rightarrow> bool" where
  "is_mark a \<longleftrightarrow> at_ident a = Some ''rpc''"

fun marked_methods :: "('ty, 'o) impl_item list \<Rightarrow> (rpc_meta option \<times> 'ty impl_method) list" where
  "marked_methods [] = []"
| "marked_methods (ImplMethod m # xs) =
     (case find is_mark (me_attrs m) of
        None \<Rightarrow> marked_methods xs | Some a \<Rightarrow> (at_meta a, m) # marked_methods xs)"
| "marked_methods (x # xs) = marked_methods xs"

fun unmarked :: "('ty, 'o) impl_item \<Rightarrow> ('ty, 'o) impl_item" where
  "unmarked (ImplMethod m) =
     ImplMethod (m\<lparr>me_attrs := takeWhile (\<lambda>a. \<not> is_mark a) (me_attrs m) @ tl (dropWhile (\<lambda>a. \<not> is_mark a) (me_attrs m))\<rparr>)"
| "unmarked x = x"

lemma take_attribute_simps:
  "take_attribute [] p = (None, [])"
  "take_attribute (a # as) p = (if at_ident a = Some p then (Some a, as)
     else (fst (take_attribute as p), a # snd (take_attribute as p)))"
  by (auto simp: take_attribute_def split: option.splits)

lemma take_attribute_eq:
  "take_attribute attrs ''rpc'' =
     (find is_mark attrs, takeWhile (\<lambda>a. \<not> is_mark a) attrs @ tl (dropWhile (\<lambda>a. \<not> is_mark a) attrs))"
  by (induction attrs) (auto simp: take_attribute_simps is_mark_def)

lemma unmarked_none: "find is_mark (me_attrs m) = None \<Longrightarrow> unmarked (ImplMethod m) = ImplMethod m"
  by (auto simp: find_None_iff takeWhile_eq_all_conv [THEN iffD2] dropWhile_eq_Nil_conv [THEN iffD2])

text \<open>One method with a mark, and what is found for the items after it.\<close>

lemma take_rpc_marked:
  assumes "find is_mark (me_attrs m) = Some a"
  shows "take_rpc_attributes (ImplMethod m # xs) =
    bind_run (expect UnwrapNone (at_meta a)) (\<lambda>meta. bind_run (rpc_fn_of meta m) (\<lambda>r. case r of
        Inl e \<Rightarrow> Ret (Inl e, unmarked (ImplMethod m) # xs)
      | Inr f \<Rightarrow> bind_run (take_rpc_attributes xs) (\<lambda>(r, ys). Ret (map_sum id ((#) f) r, unmarked (ImplMethod m) # ys))))"
  using assms by (simp add: take_attribute_eq Let_def cong: sum.case_cong)

lemma take_rpc_marked_cases:
  assumes "find is_mark (me_attrs m) = Some a" "take_rpc_attributes (ImplMethod m # xs) = Ret (r, ys)"
  obtains (Refused) mt e where "at_meta a = Some mt" "rpc_fn_of mt m = Ret (Inl e)" "r = Inl e"
      "ys = unmarked (ImplMethod m) # xs"
  | (Declared) mt f r' ys' where "at_meta a = Some mt" "rpc_fn_of mt m = Ret (Inr f)"
      "take_rpc_attributes xs = Ret (r', ys')" "r = map_sum id ((#) f) r'" "ys = unmarked (ImplMethod m) # ys'"
proof -
  note eq = take_rpc_marked [OF assms(1), of xs]
  from assms(2) obtain mt q where mt: "at_meta a = Some mt" and q: "rpc_fn_of mt m = Ret q" unfolding eq by auto
  show thesis
  proof (cases q)
    case (Inl e)
    with assms(2) mt q show thesis unfolding eq by (intro Refused) auto
  next
    case (Inr f)
    from assms(2) obtain r' ys' where "take_rpc_attributes xs = Ret (r', ys')" "r = map_sum id ((#) f) r'"
      "ys = unmarked (ImplMethod m) # ys'"
      unfolding eq by (auto simp: mt q Inr)
    with mt q Inr show thesis by (intro Declared) simp_all
  qed
qed

lemma map_sum_eq_Inl: "map_sum id g r = Inl e \<longleftrightarrow> r = Inl e"
  by (cases r) simp_all

lemma map_sum_eq_Inr: "map_sum id g r = Inr y \<longleftrightarrow> (\<exists>x. r = Inr x \<and> y = g x)"
  by (cases r) auto

lemma take_rpc_Inr:
  "take_rpc_attributes items = Ret (Inr fs, ys) \<Longrightarrow> ys = map unmarked items \<and>
     list_all2 (\<lambda>(meta, m) f. \<exists>mt. meta = Some mt \<and> rpc_fn_of mt m = Ret (Inr f)) (marked_methods items) fs"
proof (induction items arbitrary: fs ys)
  case (Cons x xs)
  show ?case
  proof (cases x)
    case (ImplMethod m)
    show ?thesis
    proof (cases "find is_mark (me_attrs m)")
      case None
      with Cons ImplMethod show ?thesis by (auto simp: take_attribute_eq unmarked_none simp del: unmarked.simps)
    next
      case (Some a)
      from Some Cons.prems [unfolded ImplMethod] show ?thesis
      proof (cases rule: take_rpc_marked_cases)
        case (Declared mt f r' ys')
        with Cons.IH Some ImplMethod show ?thesis by (auto simp: eq_commute [of "Inr fs"] map_sum_eq_Inr simp del: unmarked.simps)
      qed simp
    qed
  qed (use Cons in auto)
qed simp

lemma take_rpc_Inl:
  "take_rpc_attributes items = Ret (Inl e, ys) \<Longrightarrow> \<exists>n. ys = map unmarked (take n items) @ drop n items"
proof (induction items arbitrary: ys)
  case (Cons x xs)
  show ?case
  proof (cases "\<exists>m a. x = ImplMethod m \<and> find is_mark (me_attrs m) = Some a")
    case True
    then obtain m a where m: "x = ImplMethod m" "find is_mark (me_attrs m) = Some a" by blast
    from m(2) Cons.prems [unfolded m(1)] show ?thesis
    proof (cases rule: take_rpc_marked_cases)
      case Refused
      then show ?thesis using m(1) by (intro exI [of _ 1]) simp
    next
      case (Declared mt f r' ys')
      then have "r' = Inl e" by (metis map_sum_eq_Inl)
      with Declared Cons.IH obtain n where "ys' = map unmarked (take n xs) @ drop n xs" by blast
      with Declared m(1) show ?thesis by (intro exI [of _ "Suc n"]) simp
    qed
  next
    case False
    then have u: "unmarked x = x" by (cases x) (auto simp: unmarked_none simp del: unmarked.simps(1))
    from Cons.prems False obtain ys' where "take_rpc_attributes xs = Ret (Inl e, ys')" "ys = x # ys'"
      by (cases x) (auto simp: take_attribute_eq split: option.splits)
    with Cons.IH u obtain n where "ys = map unmarked (take (Suc n) (x # xs)) @ drop (Suc n) (x # xs)" by fastforce
    then show ?thesis by blast
  qed
qed simp

section \<open>Properties\<close>

text \<open>\<open>service\<close> registers one handler for each marked method, in the order of the methods, with
  the name, the type of the argument and the kind the method asks for, and otherwise only takes the
  marks off; when a method is refused no serving function is generated and the items after it are
  put out unchanged.\<close>

theorem service_registers_marked:
  assumes "service items = Ret (out, err)"
  shows "case err of
      None \<Rightarrow> \<exists>fs. out = map unmarked items @ [ServeFn, ServeOnFn (map handler_of fs)] \<and>
        list_all2 (\<lambda>(meta, m) f. \<exists>mt. meta = Some mt \<and> rpc_fn_of mt m = Ret (Inr f)) (marked_methods items) fs
    | Some e \<Rightarrow> \<exists>n. out = map unmarked (take n items) @ drop n items"
proof -
  from assms obtain r ys where t: "take_rpc_attributes items = Ret (r, ys)"
    by (auto simp: service_def service2_def)
  show ?thesis
  proof (cases r)
    case (Inl e)
    with assms t take_rpc_Inl [of items e ys] show ?thesis by (auto simp: service_def service2_def)
  next
    case (Inr fs)
    with assms t take_rpc_Inr [of items fs ys] show ?thesis
      by (auto simp: service_def service2_def gen_add_rpc_handler_def Let_def)
  qed
qed

theorem service_registers_marked_witness:
  "service [ImplMethod \<lparr>me_attrs = [\<lparr>at_ident = Some ''doc'', at_meta = Some RpcNameValue\<rparr>,
         \<lparr>at_ident = Some ''rpc'', at_meta = Some (RpcList (Some (True, False)))\<rparr>], me_name = ''get'', me_async = True,
       me_inputs = [ArgReceiver, ArgTyped (7 :: nat)]\<rparr>, ImplOther (0 :: nat)] =
     Ret ([ImplMethod \<lparr>me_attrs = [\<lparr>at_ident = Some ''doc'', at_meta = Some RpcNameValue\<rparr>], me_name = ''get'',
         me_async = True, me_inputs = [ArgReceiver, ArgTyped 7]\<rparr>, ImplOther 0, ServeFn,
       ServeOnFn [\<lparr>rh_kind = HandlerRead, rh_name = ''get'', rh_type = 7, rh_await = True\<rparr>]], None)"
proof -
  let ?items = "[ImplMethod \<lparr>me_attrs = [\<lparr>at_ident = Some ''doc'', at_meta = Some RpcNameValue\<rparr>,
         \<lparr>at_ident = Some ''rpc'', at_meta = Some (RpcList (Some (True, False)))\<rparr>], me_name = ''get'', me_async = True,
       me_inputs = [ArgReceiver, ArgTyped (7 :: nat)]\<rparr>, ImplOther (0 :: nat)]"
  have "\<exists>out. service ?items = Ret (out, None)"
    by (simp add: service_def service2_def take_attribute_simps rpc_fn_of_def rpc_fn_try_from_def
        gen_add_rpc_handler_def Let_def)
  then obtain out where out: "service ?items = Ret (out, None)" by blast
  from service_registers_marked [OF out] obtain fs where
    "out = map unmarked ?items @ [ServeFn, ServeOnFn (map handler_of fs)]"
    "list_all2 (\<lambda>(meta, m) f. \<exists>mt. meta = Some mt \<and> rpc_fn_of mt m = Ret (Inr f)) (marked_methods ?items) fs"
    by auto
  with out show ?thesis
    by (auto simp: is_mark_def list_all2_Cons1 rpc_fn_of_def rpc_fn_try_from_def handler_of_def)
qed

text \<open>Deriving \<open>Request\<close> accepts whatever single argument the attribute has: an argument that is
  not a type does not fail, as every other mistake does, but makes the response the unit type.\<close>

theorem request_accepts_no_type:
  "expand parse_type name (Some (Some ''rtype'', RtList [a]) # attrs) =
     Inr \<lparr>ri_name = name, ri_response = meta_item_to_ty parse_type a\<rparr> \<and>
   expand parse_type name (Some (Some ''rtype'', RtList [ArgLit LitOther]) # attrs) =
     Inr \<lparr>ri_name = name, ri_response = None\<rparr> \<and>
   expand parse_type name (Some (Some ''rtype'', RtList []) # attrs) = Inl (WrongNumber 0) \<and>
   expand parse_type name (Some (Some ''rtype'', RtPath) # attrs) = Inl WrongSyntax \<and>
   expand parse_type name [] = Inl ExpectAttribute"
  by (simp add: expand_def get_attribute_type_multiple_def MESSAGE_ATTR_def meta_item_to_ty_def)

end
