(* ===== verification/Teardown.thy ===== *)
theory Teardown
  imports Node_Handle
begin

text \<open>
  The end of a simulation: \<open>Drop for Executor\<close> (\<open>msim/src/sim/task.rs\<close>) and \<open>Drop for PoolShared\<close>
  (\<open>task/blocking.rs\<close>), with the fields of both in the order in which Rust drops them, and the guard
  that drops all tasks when one panics.

  After \<open>block_on\<close> the thread has no context any more, but still intercepts library calls. A future
  or a job dropped now runs its destructors, and an intercepted call in one of them panics inside a
  foreign function, which aborts the process. So the model keeps a log of what is dropped and of the
  thread-local state at that moment.

  A future is held here by a runnable: in the ready queue, or parked with its paused node. One that
  waits for a timer, a message or the \<open>killed\<close> flag keeps itself alive through its own waker, and is
  never dropped.
\<close>

section \<open>Intercepted calls of a destructor\<close>

datatype held = HeldTask nat | HeldJob nat

type_synonym 'h drop_log = "(held \<times> 'h thread_ctx) list"

text \<open>
  \<open>close\<close> as a destructor calls it: \<open>None\<close> when it goes to the operating system at once, else the node
  among whose sockets the descriptor is looked for.
\<close>

definition late_close ::
    "('h \<Rightarrow> 'k \<Rightarrow> 's option) \<Rightarrow> 'k \<Rightarrow> ('g, 'c, 'p) exec \<Rightarrow> 'h thread_ctx \<Rightarrow> node_id option run" where
  "late_close sims net ex c =
     sys_interceptor c (Ret None)
       (bind_run (simulator sims net c) (\<lambda>_. bind_run (current_node ex c) (\<lambda>n. Ret (Some n))))"

lemma late_close_simps:
  "\<not> tc_intercepts c \<Longrightarrow> late_close sims net ex c = Ret None"
  "tc_intercepts c \<Longrightarrow> tc_handle c = None \<Longrightarrow> late_close sims net ex c = Panic ContextMissing"
  "tc_intercepts c \<Longrightarrow> tc_handle c = Some h \<Longrightarrow> sims h net \<noteq> None \<Longrightarrow> tc_task c = Some i \<Longrightarrow>
     late_close sims net ex c = Ret (Some (ti_node (info_of i ex)))"
  by (auto simp: late_close_def sys_interceptor_def intercepts_enabled_def simulator_def ctx_current_def
      current_node_def)

section \<open>The pool\<close>

text \<open>What \<open>run_blocking_thread\<close> and \<open>run_one\<close> set up before a thread of the pool runs a job.\<close>

definition pool_thread_ctx :: "'h \<Rightarrow> nat \<Rightarrow> 'h thread_ctx" where
  "pool_thread_ctx h i = snd (enter_task i (enable_intercepts_scoped (snd (ctx_enter h thread_start))))"

text \<open>A parked thread wakes up to the shutdown and unwinds its job, whose result sender is dropped too.\<close>

definition shutdown_thread ::
    "('g, 'f, 'c, 'p) env \<Rightarrow> 'h \<Rightarrow> nat \<Rightarrow> ('g, 'c, 'p) exec \<Rightarrow> ('h drop_log \<times> ('g, 'c, 'p) exec) run" where
  "shutdown_thread env h me ex =
     (case qs_current (ex_pool ex) ! me of
        None \<Rightarrow> Ret ([], ex)
      | Some (job, i) \<Rightarrow>
          bind_run (thread_turn env AbortTurn me ex) (\<lambda>ex. Ret ([(HeldJob job, pool_thread_ctx h i)], ex)))"

fun shutdown_threads ::
    "('g, 'f, 'c, 'p) env \<Rightarrow> 'h \<Rightarrow> nat list \<Rightarrow> ('g, 'c, 'p) exec \<Rightarrow> ('h drop_log \<times> ('g, 'c, 'p) exec) run" where
  "shutdown_threads env h [] ex = Ret ([], ex)"
| "shutdown_threads env h (me # order) ex =
     bind_run (shutdown_thread env h me ex) (\<lambda>(l1, ex).
     bind_run (shutdown_threads env h order ex) (\<lambda>(l2, ex). Ret (l1 @ l2, ex)))"

text \<open>\<open>BlockingPool::shutdown\<close>: \<open>order\<close> is the one in which the threads get to run.\<close>

definition blocking_shutdown ::
    "('g, 'f, 'c, 'p) env \<Rightarrow> 'h \<Rightarrow> nat list \<Rightarrow> ('g, 'c, 'p) exec \<Rightarrow> ('h drop_log \<times> ('g, 'c, 'p) exec) run" where
  "blocking_shutdown env h order ex =
     (if bp_started (ex_pool ex) then shutdown_threads env h order ex else Ret ([], ex))"

section \<open>Dropping runnables\<close>

text \<open>While the ready queue is there: what the destructor wakes is scheduled.\<close>

definition forget_task :: "nat \<Rightarrow> ('g, 'c, 'p) exec \<Rightarrow> ('g, 'c, 'p) exec" where
  "forget_task t ex = ex\<lparr>ex_task_info := (ex_task_info ex)(t := None)\<rparr>"

fun drop_each ::
    "('g, 'f, 'c, 'p) env \<Rightarrow> 'h thread_ctx \<Rightarrow> nat list \<Rightarrow> ('g, 'c, 'p) exec \<Rightarrow> 'h drop_log \<times> ('g, 'c, 'p) exec" where
  "drop_each env c [] ex = ([], ex)"
| "drop_each env c (t # ts) ex =
     (case drop_each env c ts (drop_runnable env (tc_task c) t (forget_task t ex)) of
        (l, ex) \<Rightarrow> ((HeldTask t, c) # l, ex))"

text \<open>\<open>ns\<close> are the nodes in the order in which the map drops them.\<close>

definition paused_of :: "('g, 'c, 'p) exec \<Rightarrow> node_id \<Rightarrow> nat list" where
  "paused_of ex n = (case ex_nodes ex n of None \<Rightarrow> [] | Some nd \<Rightarrow> ne_paused nd)"

definition nodes_clear ::
    "('g, 'f, 'c, 'p) env \<Rightarrow> 'h thread_ctx \<Rightarrow> node_id list \<Rightarrow> ('g, 'c, 'p) exec \<Rightarrow>
     'h drop_log \<times> ('g, 'c, 'p) exec" where
  "nodes_clear env c ns ex = drop_each env c (concat (map (paused_of ex) ns)) (ex\<lparr>ex_nodes := Map.empty\<rparr>)"

text \<open>
  Once the queue is gone, a task that is woken cannot be scheduled: its runnable comes back from
  \<open>send\<close> and is dropped on the spot. A task is dropped once only.
\<close>

definition live_tasks :: "('g, 'c, 'p) exec \<Rightarrow> nat set" where
  "live_tasks ex = {t. t < ex_next_task ex \<and> ex_task_info ex t \<noteq> None}"

lemma finite_live [simp]: "finite (live_tasks ex)"
  by (rule finite_subset [of _ "{..<ex_next_task ex}"]) (auto simp: live_tasks_def)

lemma live_forget [simp]: "live_tasks (forget_task t ex) = live_tasks ex - {t}"
  by (auto simp: live_tasks_def forget_task_def)

lemma live_upd [simp]:
  "live_tasks (ex\<lparr>ex_prog := p\<rparr>) = live_tasks ex" "live_tasks (ex\<lparr>ex_sys := s\<rparr>) = live_tasks ex"
  "live_tasks (ex\<lparr>ex_queue := q\<rparr>) = live_tasks ex" "live_tasks (ex\<lparr>ex_nodes := m\<rparr>) = live_tasks ex"
  "live_tasks (ex\<lparr>ex_pool := pl\<rparr>) = live_tasks ex"
  by (simp_all add: live_tasks_def)

function destroy ::
    "('g, 'f, 'c, 'p) env \<Rightarrow> 'h thread_ctx \<Rightarrow> nat list \<Rightarrow> ('g, 'c, 'p) exec \<Rightarrow> nat list \<times> ('g, 'c, 'p) exec" where
  "destroy env c [] ex = ([], ex)"
| "destroy env c (t # ts) ex =
     (if t \<in> live_tasks ex then
        (case en_drop env (tc_task c) t (ex_prog ex) of
           (ws, p) \<Rightarrow>
             (case destroy env c (ws @ ts) (forget_task t (ex\<lparr>ex_sys := (ex_sys ex)(t := None), ex_prog := p\<rparr>)) of
                (ds, ex) \<Rightarrow> (t # ds, ex)))
      else destroy env c ts ex)"
  by pat_completeness auto
termination
  by (relation "measures [\<lambda>(env, c, ts, ex). card (live_tasks ex), \<lambda>(env, c, ts, ex). length ts]")
    (auto simp: card_Diff1_less simp del: card_Diff_singleton card_Diff_insert)

definition receiver_drop ::
    "('g, 'f, 'c, 'p) env \<Rightarrow> 'h thread_ctx \<Rightarrow> ('g, 'c, 'p) exec \<Rightarrow> 'h drop_log \<times> ('g, 'c, 'p) exec" where
  "receiver_drop env c ex =
     (case destroy env c (map fst (ch_queue (ex_queue ex)))
         (ex\<lparr>ex_queue := (chan_clear (ex_queue ex))\<lparr>ch_receiver := False\<rparr>\<rparr>) of
        (ds, ex) \<Rightarrow> (map (\<lambda>t. (HeldTask t, c)) ds, ex))"

text \<open>The guard around a poll: if it panics, all tasks are dropped in the context of the polled one.\<close>

definition panic_guard_drop ::
    "('g, 'f, 'c, 'p) env \<Rightarrow> 'h thread_ctx \<Rightarrow> ('g, 'c, 'p) exec \<Rightarrow> 'h drop_log \<times> ('g, 'c, 'p) exec" where
  "panic_guard_drop env c ex =
     drop_each env c (map fst (ch_queue (ex_queue ex))) (ex\<lparr>ex_queue := chan_clear (ex_queue ex)\<rparr>)"

section \<open>The order of the destructors\<close>

text \<open>The jobs that no thread took; what waits for one is woken when its result sender is dropped.\<close>

fun jobs_drop ::
    "('g, 'f, 'c, 'p) env \<Rightarrow> 'h thread_ctx \<Rightarrow> (nat \<times> nat) list \<Rightarrow> ('g, 'c, 'p) exec \<Rightarrow>
     'h drop_log \<times> ('g, 'c, 'p) exec" where
  "jobs_drop env c [] ex = ([], ex)"
| "jobs_drop env c ((job, i) # js) ex =
     (case en_drop_job env (tc_task c) job (ex_prog ex) of
        (ws, p) \<Rightarrow>
          (case destroy env c (ws @ (case ex_waiters ex job of None \<Rightarrow> [] | Some t \<Rightarrow> [t])) (ex\<lparr>ex_prog := p\<rparr>) of
             (ds, ex) \<Rightarrow>
               (case jobs_drop env c js ex of
                  (l, ex) \<Rightarrow> ((HeldJob job, c) # map (\<lambda>t. (HeldTask t, c)) ds @ l, ex))))"

definition pool_shared_drop ::
    "('g, 'f, 'c, 'p) env \<Rightarrow> 'h thread_ctx \<Rightarrow> ('g, 'c, 'p) exec \<Rightarrow>
     'h drop_log \<times> 'h thread_ctx \<times> ('g, 'c, 'p) exec" where
  "pool_shared_drop env c ex =
     (case disable_intercepts_scoped c of
        (previous, c) \<Rightarrow>
          (case jobs_drop env c (ch_queue (bp_queue (ex_pool ex)))
               (upd_pool (\<lambda>p. p\<lparr>bp_queue := chan_clear (bp_queue p)\<rparr>) ex) of
             (l, ex) \<Rightarrow> (l, intercepts_restore_guard_drop previous c, ex)))"

text \<open>The body of \<open>Drop for Executor\<close>, after which its fields are dropped: the queue is the first.\<close>

definition executor_drop ::
    "('g, 'f, 'c, 'p) env \<Rightarrow> 'h \<Rightarrow> nat list \<Rightarrow> node_id list \<Rightarrow> 'h thread_ctx \<Rightarrow> ('g, 'c, 'p) exec \<Rightarrow>
     ('h drop_log \<times> 'h thread_ctx \<times> ('g, 'c, 'p) exec) run" where
  "executor_drop env h order ns c ex =
     bind_run (blocking_shutdown env h order ex) (\<lambda>(l1, ex).
       case disable_intercepts_scoped c of
         (previous, c) \<Rightarrow>
           (case nodes_clear env c ns ex of
              (l2, ex) \<Rightarrow> Ret (l1 @ l2, intercepts_restore_guard_drop previous c, ex)))"

definition runtime_drop ::
    "('g, 'f, 'c, 'p) env \<Rightarrow> 'h \<Rightarrow> nat list \<Rightarrow> node_id list \<Rightarrow> 'h thread_ctx \<Rightarrow> ('g, 'c, 'p) exec \<Rightarrow>
     ('h drop_log \<times> 'h thread_ctx \<times> ('g, 'c, 'p) exec) run" where
  "runtime_drop env h order ns c ex =
     bind_run (executor_drop env h order ns c ex) (\<lambda>(l1, c, ex).
       case receiver_drop env c ex of
         (l2, ex) \<Rightarrow> (case pool_shared_drop env c ex of (l3, c, ex) \<Rightarrow> Ret (l1 @ l2 @ l3, c, ex)))"

section \<open>What is dropped\<close>

lemma destroy_drops: "t \<in> set ts \<Longrightarrow> t \<in> live_tasks ex \<Longrightarrow> t \<in> set (fst (destroy env c ts ex))"
proof (induction env c ts ex rule: destroy.induct)
  case (2 env c u ts ex)
  show ?case
  proof (cases "u \<in> live_tasks ex")
    case True
    obtain ws p where d: "en_drop env (tc_task c) u (ex_prog ex) = (ws, p)" by fastforce
    show ?thesis using 2(1) [OF True d [symmetric]] 2(3,4) True by (cases "t = u") (auto simp: d split: prod.split)
  next
    case False
    with 2 show ?thesis by auto
  qed
qed simp

lemma destroy_nothing: "live_tasks ex \<inter> set ts = {} \<Longrightarrow> destroy env c ts ex = ([], ex)"
  by (induction ts arbitrary: ex) auto

text \<open>Scheduling only adds to the ready queue, as long as its receiver is there.\<close>

definition queue_grows :: "('g, 'c, 'p) exec \<Rightarrow> ('g, 'c, 'p) exec \<Rightarrow> bool" where
  "queue_grows ex ex' \<longleftrightarrow> set (ch_queue (ex_queue ex)) \<subseteq> set (ch_queue (ex_queue ex')) \<and>
     ch_receiver (ex_queue ex') = ch_receiver (ex_queue ex) \<and> ex_next_task ex' = ex_next_task ex \<and>
     ex_waiters ex' = ex_waiters ex"

lemma queue_grows_refl [simp, intro]: "queue_grows ex ex"
  by (simp add: queue_grows_def)

lemma queue_grows_trans [trans]: "queue_grows a b \<Longrightarrow> queue_grows b c \<Longrightarrow> queue_grows a c"
  by (auto simp: queue_grows_def)

lemma schedule_grows: "queue_grows ex (schedule t ex)"
  by (auto simp: queue_grows_def schedule_def chan_send_def split: option.split)

lemma prog_wakes_grows:
  fixes ex :: "('g, 'c, 'p) exec"
  shows "queue_grows ex (prog_wakes f ex)"
proof -
  have "queue_grows ex (fold schedule ts ex)" for ts and ex :: "('g, 'c, 'p) exec"
    by (induction ts arbitrary: ex) (auto intro: schedule_grows queue_grows_trans)
  from this [of "ex\<lparr>ex_prog := snd (f (ex_prog ex))\<rparr>" "fst (f (ex_prog ex))"] show ?thesis
    by (simp add: prog_wakes_def schedule_all_def split_def queue_grows_def)
qed

lemma drop_each_grows: "drop_each env c ts ex = (l, ex') \<Longrightarrow> queue_grows ex ex'"
proof (induction ts arbitrary: ex l ex')
  case (Cons t ts)
  let ?ex = "drop_runnable env (tc_task c) t (forget_task t ex)"
  from Cons.prems obtain l' where "drop_each env c ts ?ex = (l', ex')" by (auto split: prod.splits)
  from Cons.IH [OF this] prog_wakes_grows [of "(forget_task t ex)\<lparr>ex_sys := (ex_sys ex)(t := None)\<rparr>"]
  show ?case by (fastforce simp: drop_runnable_def forget_task_def queue_grows_def)
qed simp

lemma drop_each_live:
  "drop_each env c ts ex = (l, ex') \<Longrightarrow> l = map (\<lambda>t. (HeldTask t, c)) ts \<and> live_tasks ex' = live_tasks ex - set ts"
proof (induction ts arbitrary: ex l ex')
  case (Cons t ts)
  let ?ex = "drop_runnable env (tc_task c) t (forget_task t ex)"
  from Cons.prems obtain l' where "drop_each env c ts ?ex = (l', ex')" "l = (HeldTask t, c) # l'"
    by (auto split: prod.splits)
  moreover have "live_tasks ?ex = live_tasks ex - {t}"
    by (auto simp: drop_runnable_def live_tasks_def forget_task_def)
  ultimately show ?case using Cons.IH [of ?ex l' ex'] by auto
qed simp

lemma unwind_eq:
  assumes "qs_current (ex_pool ex) ! me = Some (job, i)" "shutdown_thread env h me ex = Ret (l, ex')"
  shows "l = [(HeldJob job, pool_thread_ctx h i)]"
    "ex' = job_result job None (prog_wakes (en_drop_job env (Some i) job)
      (upd_pool (\<lambda>p. p\<lparr>qs_current := (qs_current p)[me := None]\<rparr>) ex))"
  using assms by (auto simp: shutdown_thread_def thread_turn_def)

lemma shutdown_thread_grows:
  assumes "shutdown_thread env h me ex = Ret (l, ex')"
  shows "queue_grows ex ex' \<and> live_tasks ex' = live_tasks ex \<and>
    (\<forall>k. k \<noteq> me \<longrightarrow> qs_current (ex_pool ex') ! k = qs_current (ex_pool ex) ! k)"
proof (cases "qs_current (ex_pool ex) ! me")
  case None
  with assms show ?thesis by (simp add: shutdown_thread_def)
next
  case (Some ji)
  obtain job i where ji: "ji = (job, i)" by fastforce
  let ?ex = "upd_pool (\<lambda>p. p\<lparr>qs_current := (qs_current p)[me := None]\<rparr>) ex"
  let ?ex2 = "prog_wakes (en_drop_job env (Some i) job) ?ex"
  have ex': "ex' = job_result job None ?ex2" by (rule unwind_eq(2) [OF Some [unfolded ji] assms])
  have "queue_grows ex ?ex2" using prog_wakes_grows [of ?ex] by (simp add: queue_grows_def upd_pool_def)
  moreover have "queue_grows ?ex2 ex'"
    by (simp add: ex' job_result_def Let_def schedule_grows split: option.split)
  moreover have "live_tasks ex' = live_tasks ex"
    by (simp add: ex' job_result_def Let_def live_tasks_def upd_pool_def split: option.split)
  moreover have "qs_current (ex_pool ex') = (qs_current (ex_pool ex))[me := None]"
    by (simp add: ex' upd_pool_def)
  ultimately show ?thesis by (auto intro: queue_grows_trans)
qed

text \<open>All threads of the pool.\<close>

lemma shutdown_threads_idle:
  "\<forall>me \<in> set order. qs_current (ex_pool ex) ! me = None \<Longrightarrow> shutdown_threads env h order ex = Ret ([], ex)"
  by (induction order) (simp_all add: shutdown_thread_def)

lemma shutdown_threads_grows:
  "shutdown_threads env h order ex = Ret (l, ex') \<Longrightarrow>
     queue_grows ex ex' \<and> live_tasks ex' = live_tasks ex \<and> ex_nodes ex' = ex_nodes ex"
proof (induction order arbitrary: ex l ex')
  case (Cons me order)
  from Cons.prems obtain l1 ex1 l2 where s: "shutdown_thread env h me ex = Ret (l1, ex1)"
    and r: "shutdown_threads env h order ex1 = Ret (l2, ex')"
    by (auto simp: run_simps)
  have "ex_nodes ex1 = ex_nodes ex"
    using s by (auto simp: shutdown_thread_def thread_turn_def job_result_def upd_pool_def Let_def split: option.splits)
  with shutdown_thread_grows [OF s] Cons.IH [OF r] show ?case by (auto intro: queue_grows_trans)
qed simp

lemma shutdown_threads_wakes:
  assumes "shutdown_threads env h order ex = Ret (l, ex')" "me \<in> set order"
    and "qs_current (ex_pool ex) ! me = Some (job, i)" "ex_waiters ex job = Some t" "t \<in> live_tasks ex"
    and "ch_receiver (ex_queue ex)"
  shows "t \<in> fst ` set (ch_queue (ex_queue ex'))"
  using assms
proof (induction order arbitrary: ex l)
  case (Cons k order)
  from Cons.prems(1) obtain l1 ex1 l2 where s: "shutdown_thread env h k ex = Ret (l1, ex1)"
    and r: "shutdown_threads env h order ex1 = Ret (l2, ex')"
    by (auto simp: run_simps)
  have g: "queue_grows ex ex1" "live_tasks ex1 = live_tasks ex"
    "\<forall>m. m \<noteq> k \<longrightarrow> qs_current (ex_pool ex1) ! m = qs_current (ex_pool ex) ! m"
    using shutdown_thread_grows [OF s] by blast+
  show ?case
  proof (cases "k = me")
    case True
    let ?ex2 = "prog_wakes (en_drop_job env (Some i) job)
      (upd_pool (\<lambda>p. p\<lparr>qs_current := (qs_current p)[me := None]\<rparr>) ex)"
    have e: "ex1 = job_result job None ?ex2" by (rule unwind_eq(2) [OF Cons.prems(3) s [unfolded True]])
    have p: "queue_grows ex ?ex2"
      using prog_wakes_grows [of "upd_pool (\<lambda>p. p\<lparr>qs_current := (qs_current p)[me := None]\<rparr>) ex"]
      by (simp add: queue_grows_def upd_pool_def)
    have "live_tasks ?ex2 = live_tasks ex" by (simp add: live_tasks_def upd_pool_def)
    with Cons.prems(5) obtain j where "ex_task_info ?ex2 t = Some j" by (auto simp: live_tasks_def)
    then have "(t, j) \<in> set (ch_queue (ex_queue ex1))"
      using p Cons.prems(4,6) by (simp add: e job_result_def schedule_def chan_send_def queue_grows_def Let_def)
    with shutdown_threads_grows [OF r] show ?thesis by (force simp: queue_grows_def)
  next
    case False
    with g Cons.prems(2-6) Cons.IH [OF r] show ?thesis by (simp add: queue_grows_def)
  qed
qed simp

end
