(* ===== verification/Teardown_Facts.thy ===== *)
theory Teardown_Facts
  imports Teardown
begin

text \<open>
  What the end of a simulation guarantees. \<open>block_on\<close> returns right after a pass that emptied the
  ready queue, so that what is left is dropped with interception off, unless a graceful shutdown
  expired in that very pass, or the pool's shutdown wakes a task: the queue itself is dropped with
  interception back on and no context.
\<close>

section \<open>The last pass\<close>

lemma finish_graceful_keeps:
  assumes "finish_graceful_shutdown env i ex = Ret ex'" "j < ex_next_info ex"
  shows "ti_shutdown (info_of j ex') = ti_shutdown (info_of j ex) \<and> j < ex_next_info ex'"
proof -
  let ?ex = "ex\<lparr>ex_shutting := filter (\<lambda>j. j \<noteq> i) (ex_shutting ex)\<rparr>"
  from assms(1) have "ex' = ?ex \<or>
      (\<exists>n r ex1. handle_kill env None n ?ex = Ret ex1 \<and> ex' = handle_task_panic n r ex1)"
    by (auto simp: finish_graceful_shutdown_def Let_def split: if_splits)
  then show ?thesis
  proof
    assume "\<exists>n r ex1. handle_kill env None n ?ex = Ret ex1 \<and> ex' = handle_task_panic n r ex1"
    then obtain n r ex1 where k: "handle_kill env None n ?ex = Ret ex1" and e: "ex' = handle_task_panic n r ex1"
      by blast
    from k obtain ex2 where k2: "task_kill env None n ?ex = Ret ex2" and s: "same_infos ex2 ex1"
      by (auto simp: handle_kill_def on_sims_def same_infos_def)
    have "ti_shutdown (info_of j ex2) = ti_shutdown (info_of j ex) \<and> j < ex_next_info ex2"
      using k2 assms(2) by (elim task_kill_spec) (auto simp: info_of_def Let_def)
    with s have "ti_shutdown (info_of j ex1) = ti_shutdown (info_of j ex)" "j < ex_next_info ex1"
      by (auto simp: same_infos_def info_of_def)
    then show ?thesis
      by (auto simp: e handle_task_panic_def spawn_on_main_task_def new_info_def spawn_local_def Let_def
          info_of_def schedule_def split: option.splits)
  qed (use assms(2) in \<open>simp add: info_of_def\<close>)
qed

lemma finish_all_keeps:
  "finish_all env is ex = Ret ex' \<Longrightarrow> j < ex_next_info ex \<Longrightarrow> ti_shutdown (info_of j ex') = ti_shutdown (info_of j ex)"
proof (induction "is" arbitrary: ex)
  case (Cons i "is")
  then obtain ex1 where "finish_graceful_shutdown env i ex = Ret ex1" "finish_all env is ex1 = Ret ex'" by auto
  with finish_graceful_keeps [of env i ex ex1 j] Cons show ?case by simp
qed simp

text \<open>A shutdown that expires leaves its mark; where there is none, the last step changed nothing but the clock.\<close>

lemma finish_all_nothing:
  assumes "finish_all env is ex = Ret ex'" "nodes_ok ex" "\<forall>i \<in> set is. ti_shutdown (info_of i ex) \<noteq> None"
    and "\<forall>i. ti_shutdown (info_of i ex') = None"
  shows "ex_queue ex' = ex_queue ex \<and> ex_nodes ex' = ex_nodes ex"
  using assms
proof (induction "is" arbitrary: ex)
  case (Cons i "is")
  let ?ex = "ex\<lparr>ex_shutting := filter (\<lambda>j. j \<noteq> i) (ex_shutting ex)\<rparr>"
  from Cons.prems(1) obtain ex1 where f: "finish_graceful_shutdown env i ex = Ret ex1" "finish_all env is ex1 = Ret ex'"
    by auto
  have "get_node (ti_node (info_of i ex)) ex \<noteq> Some i"
  proof
    assume "get_node (ti_node (info_of i ex)) ex = Some i"
    with Cons.prems(2) have "i < ex_next_info ex" by (auto simp: nodes_ok_def)
    with finish_graceful_keeps [OF f(1)] finish_all_keeps [OF f(2)] Cons.prems(3,4) show False by fastforce
  qed
  with f(1) have "ex1 = ?ex" by (auto simp: finish_graceful_shutdown_def Let_def info_of_def get_node_def split: if_splits)
  with Cons.IH [OF f(2)] Cons.prems(2-4) show ?case by (auto simp: nodes_ok_def get_node_def info_of_def)
qed simp

lemma idle_queue: "ready_iter env ex = Ret (None, ex') \<Longrightarrow> ch_queue (ex_queue ex') = []"
  by (auto simp: ready_iter_def chan_try_recv_random_def run_simps Let_def split: if_splits sum.splits)

lemma block_on_queue:
  assumes "exec_reach env p0 ex0" "exec_block_on env output limit ex0 = Some (Ret (v, ex))"
    and "\<forall>i. ti_shutdown (info_of i ex) = None"
  shows "ch_queue (ex_queue ex) = []"
proof -
  from block_on_last [OF assms(2)] obtain evs ex1 ex2 where run: "exec_run env limit (snd (spawn_on_main_task ex0)) evs ex1"
    and r: "ready_iter env ex1 = Ret (None, ex2)" and f: "finish_expired env ex2 = Ret ex" by blast
  have "exec_reach env p0 ex1" by (rule reach_run [OF reach_main [OF assms(1)] run])
  from any_program.ready_iter_ok [OF r any_program.reach_ok [OF this]]
  have ok: "nodes_ok ex2" by (simp add: ok_defs)
  from f obtain now tm where "finish_all env (expired_shutdowns now (ex2\<lparr>ex_time := tm\<rparr>)) (ex2\<lparr>ex_time := tm\<rparr>) = Ret ex"
    by (auto simp: finish_expired_def Let_def)
  then have "ex_queue ex = ex_queue ex2"
    using finish_all_nothing [OF _ _ _ assms(3), of env _ "ex2\<lparr>ex_time := tm\<rparr>"] ok
    by (auto simp: nodes_ok_def get_node_def info_of_def expired_shutdowns_def split: option.splits)
  then show ?thesis using idle_queue [OF r] by simp
qed

section \<open>What the log holds\<close>

lemma drop_each_quiet:
  "drop_each env c ts ex = (l, ex') \<Longrightarrow> \<forall>t \<in> set ts. \<forall>ctx p. fst (en_drop env ctx t p) = [] \<Longrightarrow>
     ex_queue ex' = ex_queue ex \<and> ex_pool ex' = ex_pool ex"
proof (induction ts arbitrary: ex l)
  case (Cons t ts)
  let ?ex = "drop_runnable env (tc_task c) t (forget_task t ex)"
  from Cons.prems(1) obtain l' where d: "drop_each env c ts ?ex = (l', ex')" by (auto split: prod.splits)
  have "ex_queue ?ex = ex_queue ex \<and> ex_pool ?ex = ex_pool ex"
    using Cons.prems(2) by (simp add: drop_runnable_def prog_wakes_def schedule_all_def forget_task_def split_def)
  with Cons.IH [OF d] Cons.prems(2) show ?case by simp
qed simp

lemma jobs_drop_log:
  "jobs_drop env c js ex = (l, ex') \<Longrightarrow>
     (\<forall>(x, k) \<in> set l. k = c) \<and> (\<forall>(job, i) \<in> set js. HeldJob job \<in> fst ` set l)"
proof (induction js arbitrary: ex l)
  case (Cons j js)
  obtain job i where j: "j = (job, i)" by fastforce
  from Cons.prems obtain ds ex1 l1 where "jobs_drop env c js ex1 = (l1, ex')"
    and l: "l = (HeldJob job, c) # map (\<lambda>t. (HeldTask t, c)) ds @ l1"
    by (auto simp: j split: prod.splits)
  from Cons.IH [OF this(1)] show ?case by (force simp: l j)
qed simp

lemma restored: "intercepts_restore_guard_drop (intercepts_enabled c) (enable_intercepts False c) = c"
  by (simp add: intercepts_restore_guard_drop_def enable_intercepts_def intercepts_enabled_def)

lemma pool_shared_log:
  assumes "pool_shared_drop env c ex = (l, c', ex')"
  shows "c' = c" "\<forall>(x, k) \<in> set l. \<not> tc_intercepts k"
    "\<forall>(job, i) \<in> set (ch_queue (bp_queue (ex_pool ex))). HeldJob job \<in> fst ` set l"
proof -
  let ?d = "enable_intercepts False c"
  obtain l1 ex1 where j: "jobs_drop env ?d (ch_queue (bp_queue (ex_pool ex)))
      (upd_pool (\<lambda>p. p\<lparr>bp_queue := chan_clear (bp_queue p)\<rparr>) ex) = (l1, ex1)" by fastforce
  then have c: "c' = c" and "l1 = l" "ex1 = ex'"
    using assms by (simp_all add: pool_shared_drop_def disable_intercepts_scoped_def restored)
  with j have j: "jobs_drop env ?d (ch_queue (bp_queue (ex_pool ex)))
      (upd_pool (\<lambda>p. p\<lparr>bp_queue := chan_clear (bp_queue p)\<rparr>) ex) = (l, ex')" by simp
  show "c' = c" by (rule c)
  show "\<forall>(x, k) \<in> set l. \<not> tc_intercepts k" using jobs_drop_log [OF j] by (auto simp: enable_intercepts_def)
  show "\<forall>(job, i) \<in> set (ch_queue (bp_queue (ex_pool ex))). HeldJob job \<in> fst ` set l"
    using jobs_drop_log [OF j] by blast
qed

text \<open>The body of \<open>Drop for Executor\<close>.\<close>

lemma executor_drop_log:
  assumes "executor_drop env h order ns c ex = Ret (l, c', ex')"
  obtains l1 ex1 where "blocking_shutdown env h order ex = Ret (l1, ex1)" "c' = c"
    "l = l1 @ map (\<lambda>t. (HeldTask t, enable_intercepts False c)) (concat (map (paused_of ex1) ns))"
    "drop_each env (enable_intercepts False c) (concat (map (paused_of ex1) ns)) (ex1\<lparr>ex_nodes := Map.empty\<rparr>) =
      (map (\<lambda>t. (HeldTask t, enable_intercepts False c)) (concat (map (paused_of ex1) ns)), ex')"
proof -
  from assms obtain l1 ex1 where b: "blocking_shutdown env h order ex = Ret (l1, ex1)"
    by (auto simp: executor_drop_def)
  obtain l2 ex2 where n: "drop_each env (enable_intercepts False c) (concat (map (paused_of ex1) ns)) (ex1\<lparr>ex_nodes := Map.empty\<rparr>) = (l2, ex2)"
    by fastforce
  then have b: "blocking_shutdown env h order ex = Ret (l1, ex1)" "c' = c" "l = l1 @ l2" "ex2 = ex'"
    using assms b by (simp_all add: executor_drop_def nodes_clear_def disable_intercepts_scoped_def restored)
  from drop_each_live [OF n] b n that show thesis by blast
qed

section \<open>Properties\<close>


text \<open>C23: the shutdown of the pool defeats that: where a thread is parked in a job, unwinding the job
  wakes the task that awaits it, whose future is then dropped with the ready queue, with interception
  on and no context any more, so that closing a descriptor in its destructor panics.\<close>

theorem woken_by_shutdown_aborts:
  assumes "runtime_drop env h order ns c ex = Ret (l, c', ex')" "bp_started (ex_pool ex)" "me \<in> set order"
    and "qs_current (ex_pool ex) ! me = Some (job, i)" "ex_waiters ex job = Some t" "t \<in> live_tasks ex"
    and "\<forall>n \<in> set ns. t \<notin> set (paused_of ex n)" "ch_receiver (ex_queue ex)"
    and "tc_intercepts c" "tc_handle c = None"
  shows "(HeldTask t, c) \<in> set l \<and> late_close sims net ex' c = Panic ContextMissing"
proof -
  from assms(1) obtain l1 c1 ex1 l2 ex2 l3 where d: "executor_drop env h order ns c ex = Ret (l1, c1, ex1)"
    and r: "receiver_drop env c1 ex1 = (l2, ex2)" and l: "l = l1 @ l2 @ l3"
    by (auto simp: runtime_drop_def run_simps split: prod.splits)
  from d obtain l0 ex0 where b: "blocking_shutdown env h order ex = Ret (l0, ex0)" and c1: "c1 = c"
    and e: "drop_each env (enable_intercepts False c) (concat (map (paused_of ex0) ns)) (ex0\<lparr>ex_nodes := Map.empty\<rparr>) =
      (map (\<lambda>t. (HeldTask t, enable_intercepts False c)) (concat (map (paused_of ex0) ns)), ex1)"
    by (rule executor_drop_log)
  from b assms(2) have s: "shutdown_threads env h order ex = Ret (l0, ex0)" by (simp add: blocking_shutdown_def)
  note g = shutdown_threads_grows [OF s]
  have "t \<in> fst ` set (ch_queue (ex_queue ex0))" by (rule shutdown_threads_wakes [OF s assms(3-6,8)])
  then have w: "t \<in> set (map fst (ch_queue (ex_queue ex1)))"
    using drop_each_grows [OF e] by (auto simp: queue_grows_def)
  have "paused_of ex0 = paused_of ex" using g by (auto simp: paused_of_def)
  then have "t \<in> live_tasks ex1" using drop_each_live [OF e] g assms(6,7) by auto
  then have "t \<in> set (fst (destroy env c (map fst (ch_queue (ex_queue ex1)))
      (ex1\<lparr>ex_queue := (chan_clear (ex_queue ex1))\<lparr>ch_receiver := False\<rparr>\<rparr>)))"
    by (intro destroy_drops [OF w]) simp
  with r have "(HeldTask t, c) \<in> set l2" by (auto simp: receiver_drop_def c1 split: prod.splits)
  with assms(9,10) show ?thesis by (simp add: l late_close_simps)
qed

theorem woken_by_shutdown_aborts_witness:
  "\<exists>l c' ex'. runtime_drop demo_env () [0, 1] [1] \<lparr>tc_handle = None, tc_task = None, tc_intercepts = True\<rparr>
       (demo_exec\<lparr>ex_waiters := [3 \<mapsto> 5]\<rparr>) = Ret (l, c', ex') \<and>
     (HeldTask 5, \<lparr>tc_handle = None, tc_task = None, tc_intercepts = True\<rparr>) \<in> set l \<and>
     late_close (\<lambda>_ _. Some ()) () ex' \<lparr>tc_handle = None :: unit option, tc_task = None, tc_intercepts = True\<rparr> = Panic ContextMissing"
proof -
  let ?c = "\<lparr>tc_handle = None :: unit option, tc_task = None, tc_intercepts = True\<rparr>"
  let ?ex = "demo_exec\<lparr>ex_waiters := [3 \<mapsto> 5]\<rparr>"
  obtain l ex1 where b: "blocking_shutdown demo_env () [0, 1] ?ex = Ret (l, ex1)"
    by (simp add: blocking_shutdown_def shutdown_thread_def thread_turn_def demo_simps upd_pool_def prog_wakes_def
        schedule_all_def job_result_def schedule_def Let_def)
  then obtain l c' ex' where r: "runtime_drop demo_env () [0, 1] [1] ?c ?ex = Ret (l, c', ex')"
    by (simp add: runtime_drop_def executor_drop_def split_def) (metis surj_pair)
  from woken_by_shutdown_aborts [OF r, of 0 3 0 5 "\<lambda>_ _. Some ()" "()"] r show ?thesis
    by (simp add: demo_simps live_tasks_def paused_of_def)
qed

text \<open>A run in which a node is created and paused: its initial task is parked.\<close>

lemma demo_paused:
  obtains ex2 where "exec_reach demo_env () ex2" "ch_queue (ex_queue ex2) = [(0, 0)]" "ex_nodes ex2 = [1 \<mapsto> \<lparr>ne_info = 0, ne_paused = [], ne_init = Some 0\<rparr>]"
    "ti_paused (info_of 0 ex2)" "ti_node (info_of 0 ex2) = 1" "\<forall>i. \<not> ti_killed (info_of i ex2) \<and> ti_shutdown (info_of i ex2) = None"
    "ex_next_info ex2 = 1" "ex_next_task ex2 = 1" "ex_rand ex2 = ex_rand demo_exec" "ex_time ex2 = ex_time demo_exec"
    "ex_shutting ex2 = []" "ex_sys ex2 = Map.empty" "ch_receiver (ex_queue ex2)" "qs_current (ex_pool ex2) ! 0 = None"
proof -
  obtain pool where p: "pool_new None = Ret pool" and pc: "qs_current pool ! 0 = None" by (simp add: pool_new_def)
  let ?ex = "executor_new pool (ex_time demo_exec) (ex_rand demo_exec) ()"
  obtain ex1 ex2 where c: "apply_call demo_env None (CCreate (nb_set_init 0 node_builder_new)) ?ex = Ret ex1"
    "apply_call demo_env None (CPause 1) ex1 = Ret ex2"
    and q: "ch_queue (ex_queue ex2) = [(0, 0)]" "ex_nodes ex2 = [1 \<mapsto> \<lparr>ne_info = 0, ne_paused = [], ne_init = Some 0\<rparr>]"
      "ti_paused (info_of 0 ex2)" "ti_node (info_of 0 ex2) = 1" "\<forall>i. \<not> ti_killed (info_of i ex2) \<and> ti_shutdown (info_of i ex2) = None"
      "ex_next_info ex2 = 1" "ex_next_task ex2 = 1" "ex_rand ex2 = ex_rand demo_exec" "ex_time ex2 = ex_time demo_exec"
      "ex_shutting ex2 = []" "ex_sys ex2 = Map.empty" "ex_pool ex2 = pool" "ch_receiver (ex_queue ex2)"
    by (simp add: node_builder_build_def nb_set_init_def node_builder_new_def or_nothing_def task_create_node_def executor_new_def new_info_def call_init_def
        spawn_local_def schedule_def Let_def on_sims_def get_node_def task_pause_def chan_send_def
        upd_info_def info_of_def prog_wakes_def split_def schedule_all_def demo_simps)
  have "exec_reach demo_env () ex2" by (intro reach_call [OF reach_call [OF reach_new [OF p] c(1)] c(2)])
  with q pc that show thesis by simp
qed

lemma demo_paused_run:
  assumes "ch_queue (ex_queue ex2) = [(0, 0)]" "ex_nodes ex2 = [1 \<mapsto> \<lparr>ne_info = 0, ne_paused = [], ne_init = Some 0\<rparr>]"
    "ti_paused (info_of 0 ex2)" "ti_node (info_of 0 ex2) = 1" "\<forall>i. \<not> ti_killed (info_of i ex2) \<and> ti_shutdown (info_of i ex2) = None"
    "ex_next_info ex2 = 1" "ex_next_task ex2 = 1" "ex_rand ex2 = ex_rand demo_exec" "ex_time ex2 = ex_time demo_exec"
    "ex_shutting ex2 = []" "ex_sys ex2 = Map.empty" "ch_receiver (ex_queue ex2)" "qs_current (ex_pool ex2) ! 0 = None"
  obtains ex5 where "exec_block_on demo_env (\<lambda>_. Some (7 :: nat)) None ex2 = Some (Ret (7, ex5))"
    "ex_nodes ex5 = [1 \<mapsto> \<lparr>ne_info = 0, ne_paused = [0], ne_init = Some 0\<rparr>]"
    "\<forall>i. ti_shutdown (info_of i ex5) = None" "qs_current (ex_pool ex5) ! 0 = None"
proof -
  let ?m = "snd (spawn_on_main_task ex2)"
  have m: "ch_queue (ex_queue ?m) = [(0, 0), (1, 1)]" "ex_nodes ?m = [1 \<mapsto> \<lparr>ne_info = 0, ne_paused = [], ne_init = Some 0\<rparr>]"
    "ti_paused (info_of 0 ?m)" "ti_node (info_of 0 ?m) = 1" "\<forall>i. \<not> ti_killed (info_of i ?m) \<and> ti_shutdown (info_of i ?m) = None"
    "info_of 1 ?m = task_info_new 0 ''main''" "ex_rand ?m = ex_rand demo_exec" "ex_time ?m = ex_time demo_exec"
    "ex_shutting ?m = []" "ex_sys ?m = Map.empty" "ex_pool ?m = ex_pool ex2"
    using assms by (simp_all add: spawn_on_main_task_def new_info_def spawn_local_def Let_def schedule_def chan_send_def
        info_of_def task_info_new_def)
  have two: "(5 :: nat) mod Suc (Suc 0) = Suc 0" by (simp flip: numeral_2_eq_2)
  obtain ex3 where r1: "ready_iter demo_env ?m = Ret (Some (Polled 1 1), ex3)"
    and n: "ch_queue (ex_queue ex3) = [(0, 0)]" "ex_nodes ex3 = ex_nodes ?m" "ex_infos ex3 = ex_infos ?m" "ex_pool ex3 = ex_pool ex2"
      "ex_shutting ex3 = []" "abort_counter (th_clock (ex_time ex3)) = 100000000"
      "elapsed_time (th_clock (ex_time ex3)) < 86400000000100" "base_instant (th_clock (ex_time ex3)) = 0"
      "gr_log (ex_rand ex3) = None" "gr_check (ex_rand ex3) = None"
    using m two
    by (simp add: ready_iter_def chan_try_recv_random_def rng_with_def gen_range_def demo_simps demo_rng_def
        handle_runnable_def info_of_def Let_def
        run_task_def advance_a_little_def exec_draw_def time_advance_def clock_advance_def
        is_shutting_down_def reset_abort_counter_def dur_add_def dur_max_def clock_new_def CLOCK_BASE_def
        ABORT_COUNTER_START_def swap_remove_def)
  have i: "info_of j ex3 = info_of j ?m" for j by (simp add: info_of_def n)
  obtain ex4 where r2: "ready_iter demo_env ex3 = Ret (Some (Parked 0 0), ex4)"
    and k: "ch_queue (ex_queue ex4) = []" "ex_nodes ex4 = [1 \<mapsto> \<lparr>ne_info = 0, ne_paused = [0], ne_init = Some 0\<rparr>]"
      "ex_infos ex4 = ex_infos ?m" "ex_pool ex4 = ex_pool ex2" "ex_shutting ex4 = []"
      "abort_counter (th_clock (ex_time ex4)) = 100000000"
      "elapsed_time (th_clock (ex_time ex4)) < 86400000000100" "base_instant (th_clock (ex_time ex4)) = 0"
    using n m i
    by (simp add: ready_iter_def chan_try_recv_random_def rng_with_def gen_range_def demo_env_def demo_rng_def
        handle_runnable_def Let_def park_def swap_remove_def info_of_def)
  have r3: "ready_iter demo_env ex4 = Ret (None, ex4)"
    using k(1) by (simp add: ready_iter_def chan_try_recv_random_def)
  have "ready_loop demo_env ?m = Some (Ret ex4)"
    by (subst ready_loop.simps, simp add: r1, subst ready_loop.simps, simp add: r2, subst ready_loop.simps, simp add: r3)
  moreover obtain ex5 where "finish_expired demo_env ex4 = Ret ex5"
    and f: "ex_nodes ex5 = ex_nodes ex4" "ex_infos ex5 = ex_infos ?m" "ex_pool ex5 = ex_pool ex2"
    using k
    by (auto simp: finish_expired_def now_instant_def clock_now_instant_def check_abort_def instant_simps
        instant_ok_def expired_shutdowns_def Let_def)
  ultimately have "exec_block_on demo_env (\<lambda>_. Some (7 :: nat)) None ex2 = Some (Ret (7, ex5))"
    by (simp add: exec_block_on_def run_all_ready_def block_on_loop.simps)
  with k(2) f m(5) assms(13) that show thesis by (simp add: info_of_def)
qed


end
