(* ===== verification/Net_Runtime.thy ===== *)
theory Net_Runtime
  imports Sim_World
begin

text \<open>
  The network on the runtime's own clock, timer and generator: \<open>NetSim::new\<close> of
  \<open>msim/src/sim/net/mod.rs\<close> gets clones of the handles that the executor uses, so a message in
  flight is an event of the queue that \<open>block_on\<close> advances, and firing it wakes tasks of the
  executor. The theory follows a message from the sender's call to the receiver's ready task, and
  shows what killing a node does to what is in flight.

  A waker is the number of the task it wakes. The determinism log, which only records the draws, is
  left out here.
\<close>

section \<open>One clock for both\<close>

type_synonym ('g, 'f, 'q) net_exec = "('g, (wire_data, nat) callback, ('g, 'f, 'q) world) exec"

definition net_of :: "('g, 'f, 'q) net_exec \<Rightarrow> ('g, 'f, wire_data, nat) network" where
  "net_of ex = ns_network (wd_net (ex_prog ex))"

text \<open>
  The network as a call sees it. Its events are handed over apart from those that are already
  pending, whose callbacks are of a wider type.
\<close>

definition shared_view :: "('g, 'f, 'q) net_exec \<Rightarrow> ('g, 'f, wire_data, nat) network" where
  "shared_view ex = (net_of ex)
     \<lparr>nw_rand := gr_rng (ex_rand ex),
      nw_time := \<lparr>th_timer = \<lparr>disabled_node_ids = disabled_node_ids (th_timer (ex_time ex)), events = []\<rparr>,
                  th_clock = th_clock (ex_time ex)\<rparr>\<rparr>"

definition add_net_event :: "'c event \<Rightarrow> 'c exec_cb timer \<Rightarrow> 'c exec_cb timer" where
  "add_net_event e t =
     (case ev_callback e of None \<Rightarrow> t | Some cb \<Rightarrow> timer_add (ev_node e) (ev_deadline e) (CbUser cb) t)"

definition on_shared_net ::
    "(('g, 'f, wire_data, nat) network \<Rightarrow> ('a \<times> ('g, 'f, wire_data, nat) network) run) \<Rightarrow>
     ('g, 'f, 'q) net_exec \<Rightarrow> ('a \<times> ('g, 'f, 'q) net_exec) run" where
  "on_shared_net f ex =
     bind_run (f (shared_view ex)) (\<lambda>(r, nw).
       Ret (r, ex\<lparr>ex_rand := (ex_rand ex)\<lparr>gr_rng := nw_rand nw\<rparr>,
         ex_time := \<lparr>th_timer = fold add_net_event (events (th_timer (nw_time nw))) (th_timer (ex_time ex)),
                     th_clock = th_clock (nw_time nw)\<rparr>,
         ex_prog := (ex_prog ex)\<lparr>wd_net := (wd_net (ex_prog ex))\<lparr>ns_network := nw\<rparr>\<rparr>\<rparr>))"

text \<open>
  What a network event does when it fires. \<open>alive\<close> tells which one-shot receivers are still there,
  \<open>rx_task\<close> which task polls one.
\<close>

definition net_fire ::
    "(nat \<Rightarrow> bool) \<Rightarrow> (nat \<Rightarrow> nat option) \<Rightarrow> (wire_data, nat) callback \<Rightarrow> ('g, 'f, 'q) world \<Rightarrow>
     nat list \<times> ('g, 'f, 'q) world" where
  "net_fire alive rx_task cb w =
     (case fire_callback alive cb (ns_network (wd_net w)) of
        (ws, r, nw) \<Rightarrow>
          (ws @ (case r of None \<Rightarrow> [] | Some rx \<Rightarrow> (case rx_task rx of None \<Rightarrow> [] | Some t \<Rightarrow> [t])),
           w\<lparr>wd_net := (wd_net w)\<lparr>ns_network := nw\<rparr>\<rparr>))"

section \<open>What firing events does to the mailboxes\<close>

text \<open>A task is ready: its runnable is in the queue. Only tasks that exist can be scheduled.\<close>

definition ready :: "nat \<Rightarrow> ('g, 'c, 'p) exec \<Rightarrow> bool" where
  "ready t ex \<longleftrightarrow> (\<forall>j. ex_task_info ex t = Some j \<longrightarrow> (t, j) \<in> set (ch_queue (ex_queue ex)))"

text \<open>
  No mailbox loses a message, no new receiver comes, and a waker that is gone has made its task ready.
\<close>

definition box_step :: "('g, 'f, 'q) net_exec \<Rightarrow> (wire_data, nat) mailbox \<Rightarrow> (wire_data, nat) mailbox \<Rightarrow> bool" where
  "box_step ex' a b \<longleftrightarrow> set (mb_msgs a) \<subseteq> set (mb_msgs b) \<and> set (mb_registered b) \<subseteq> set (mb_registered a) \<and>
     (\<forall>(tag, t) \<in> set (mb_wakers a). (tag, t) \<in> set (mb_wakers b) \<or> ready t ex')"

definition fire_step :: "('g, 'f, 'q) net_exec \<Rightarrow> ('g, 'f, 'q) net_exec \<Rightarrow> bool" where
  "fire_step ex ex' \<longleftrightarrow> ch_receiver (ex_queue ex') = ch_receiver (ex_queue ex) \<and> ex_task_info ex' = ex_task_info ex \<and>
     set (ch_queue (ex_queue ex)) \<subseteq> set (ch_queue (ex_queue ex')) \<and>
     (\<forall>i a. nw_mailboxes (net_of ex) i = Some a \<longrightarrow>
       (\<exists>b. nw_mailboxes (net_of ex') i = Some b \<and> box_step ex' a b))"

lemma fire_step_box:
  assumes "fire_step ex ex'" "nw_mailboxes (net_of ex) i = Some a"
  obtains b where "nw_mailboxes (net_of ex') i = Some b" "box_step ex' a b"
  using assms by (force simp: fire_step_def)

lemma fire_step_ready: "fire_step ex ex' \<Longrightarrow> ready t ex \<Longrightarrow> ready t ex'"
  by (auto simp: ready_def fire_step_def)

lemma fire_step_refl [simp, intro]: "fire_step ex ex"
  by (auto simp: fire_step_def box_step_def)

lemma fire_step_trans [trans]:
  assumes "fire_step a b" "fire_step b c"
  shows "fire_step a c"
proof -
  note r = fire_step_ready [OF assms(2)]
  have "\<exists>z. nw_mailboxes (net_of c) i = Some z \<and> box_step c x z" if "nw_mailboxes (net_of a) i = Some x" for i x
  proof -
    from assms that obtain y z where "nw_mailboxes (net_of b) i = Some y" "box_step b x y"
      and z: "nw_mailboxes (net_of c) i = Some z" "box_step c y z"
      by (metis fire_step_box)
    then have "box_step c x z" using r by (fastforce simp: box_step_def)
    with z(1) show ?thesis by blast
  qed
  with assms show ?thesis by (auto simp: fire_step_def)
qed

definition sched_grows :: "('g, 'c, 'p) exec \<Rightarrow> ('g, 'c, 'p) exec \<Rightarrow> bool" where
  "sched_grows ex ex' \<longleftrightarrow> set (ch_queue (ex_queue ex)) \<subseteq> set (ch_queue (ex_queue ex')) \<and>
     ex_task_info ex' = ex_task_info ex \<and> ch_receiver (ex_queue ex') = ch_receiver (ex_queue ex) \<and>
     ex_prog ex' = ex_prog ex"

lemma schedule_all_grows:
  fixes ex :: "('g, 'c, 'p) exec"
  shows "sched_grows ex (schedule_all ts ex)"
proof -
  have one: "sched_grows ex (schedule t ex)" for t and ex :: "('g, 'c, 'p) exec"
    by (auto simp: sched_grows_def schedule_def chan_send_def split: option.splits)
  have "sched_grows ex (fold schedule ts ex)"
  proof (induction ts arbitrary: ex)
    case (Cons t ts)
    with one [of ex t] show ?case by (fastforce simp: sched_grows_def)
  qed (simp add: sched_grows_def)
  then show ?thesis by (simp add: schedule_all_def)
qed

lemma schedule_ready:
  fixes ex :: "('g, 'c, 'p) exec"
  assumes "ch_receiver (ex_queue ex)" "t \<in> set ts"
  shows "ready t (schedule_all ts ex)"
  using assms
proof (induction ts arbitrary: ex)
  case (Cons u us)
  have "schedule_all (u # us) ex = schedule_all us (schedule u ex)" by (simp add: schedule_all_def)
  moreover have "ready u (schedule u ex)" "ch_receiver (ex_queue (schedule u ex))"
    using Cons.prems(1) by (auto simp: ready_def schedule_def chan_send_def split: option.split)
  ultimately show ?case
    using Cons schedule_all_grows [of "schedule u ex" us] by (auto simp: ready_def sched_grows_def)
qed simp

lemma deliver_spec:
  assumes "deliver alive msg mb = (ws, r, mb')"
  shows "set (mb_registered mb') \<subseteq> set (mb_registered mb)" "set (mb_msgs mb) \<subseteq> set (mb_msgs mb')"
    "(tag, w) \<in> set (mb_wakers mb) \<Longrightarrow> (tag, w) \<in> set (mb_wakers mb') \<or> w \<in> set ws"
    "(msg_tag msg, w) \<in> set (mb_wakers mb) \<Longrightarrow> w \<in> set ws"
    "\<forall>r. (msg_tag msg, r) \<in> set (mb_registered mb) \<longrightarrow> \<not> alive r \<Longrightarrow> msg \<in> set (mb_msgs mb')"
proof -
  from assms obtain mb1 reg where w: "wake_where (\<lambda>tag. tag = msg_tag msg) mb = (ws, mb1)"
    and o: "offer alive (msg_tag msg) 0 (mb_registered mb) = (r, reg)"
    and mb': "mb' = mb1\<lparr>mb_registered := reg, mb_msgs := (if r = None then mb_msgs mb @ [msg] else mb_msgs mb)\<rparr>"
    by (rule deliver_parts)
  note ws = wake_where_spec [OF w]
  have s: "set ws = snd ` {x \<in> set (mb_wakers mb). fst x = msg_tag msg}"
    "set (mb_wakers mb') = {x \<in> set (mb_wakers mb). fst x \<noteq> msg_tag msg}"
    using ws [THEN conjunct1, THEN arg_cong [of _ _ set_mset]]
      ws [THEN conjunct2, THEN conjunct1, THEN arg_cong [of _ _ set_mset]] by (simp_all add: mb')
  show "set (mb_registered mb') \<subseteq> set (mb_registered mb)" using offer_subset [OF o] by (simp add: mb')
  show "set (mb_msgs mb) \<subseteq> set (mb_msgs mb')" by (auto simp: mb')
  show "(tag, w) \<in> set (mb_wakers mb') \<or> w \<in> set ws" if "(tag, w) \<in> set (mb_wakers mb)"
    using that s by force
  show "w \<in> set ws" if "(msg_tag msg, w) \<in> set (mb_wakers mb)" using that s by force
  show "msg \<in> set (mb_msgs mb')" if "\<forall>r. (msg_tag msg, r) \<in> set (mb_registered mb) \<longrightarrow> \<not> alive r"
    using offer_spec [OF o] that by (auto simp: mb' split: option.splits)
qed

text \<open>One event.\<close>

lemma net_fire_step:
  assumes "en_fire env = net_fire alive rx_task" "ch_receiver (ex_queue ex)"
  shows "fire_step ex (fire_event env e ex)"
proof -
  have user: "fire_step ex (prog_wakes (net_fire alive rx_task cb) ex)" for cb
  proof -
    obtain ws r nw where f: "fire_callback alive cb (net_of ex) = (ws, r, nw)" by (metis prod_cases3)
    define us where "us = ws @ (case r of None \<Rightarrow> [] | Some rx \<Rightarrow> (case rx_task rx of None \<Rightarrow> [] | Some t \<Rightarrow> [t]))"
    define ex1 where "ex1 = ex\<lparr>ex_prog := (ex_prog ex)\<lparr>wd_net := (wd_net (ex_prog ex))\<lparr>ns_network := nw\<rparr>\<rparr>\<rparr>"
    have e: "prog_wakes (net_fire alive rx_task cb) ex = schedule_all us ex1"
      using f by (simp add: prog_wakes_def net_fire_def net_of_def us_def ex1_def)
    note g = schedule_all_grows [of ex1 us]
    have n: "net_of (schedule_all us ex1) = nw" using g by (simp add: net_of_def ex1_def sched_grows_def)
    have rdy: "ready t (schedule_all us ex1)" if "t \<in> set ws" for t
      using that assms(2) by (intro schedule_ready) (simp_all add: ex1_def us_def)
    have "\<exists>b. nw_mailboxes nw i = Some b \<and> box_step (schedule_all us ex1) a b"
      if i: "nw_mailboxes (net_of ex) i = Some a" for i a
    proof (cases cb)
      case (Wake w)
      with f i show ?thesis by (auto simp: fire_callback_def box_step_def)
    next
      case (Deliver k msg)
      show ?thesis
      proof (cases "k = i")
        case True
        obtain ws' r' mb' where d: "deliver alive msg a = (ws', r', mb')" by (metis prod_cases3)
        with f i Deliver True have "ws = ws'" "nw_mailboxes nw i = Some mb'" by (auto simp: fire_callback_def)
        have "box_step (schedule_all us ex1) a mb'"
          unfolding box_step_def
          using deliver_spec(1,2) [OF d] deliver_spec(3) [OF d] rdy \<open>ws = ws'\<close> by (intro conjI ballI) (assumption | clarsimp; blast)+
        with \<open>nw_mailboxes nw i = Some mb'\<close> show ?thesis by blast
      next
        case False
        with f i Deliver show ?thesis by (auto simp: fire_callback_def box_step_def split: option.splits prod.splits)
      qed
    qed
    then show ?thesis using g unfolding e fire_step_def n by (auto simp: ex1_def sched_grows_def)
  qed
  have wake: "fire_step ex (schedule t ex)" for t
    by (auto simp: fire_step_def box_step_def schedule_def chan_send_def net_of_def split: option.splits)
  show ?thesis
    using user wake by (auto simp: fire_event_def assms(1) split: option.splits exec_cb.splits)
qed

lemma net_fire_steps:
  assumes "en_fire env = net_fire alive rx_task"
  shows "ch_receiver (ex_queue ex) \<Longrightarrow> fire_step ex (fold (fire_event env) es ex)"
proof (induction es arbitrary: ex)
  case (Cons e es)
  note s = net_fire_step [OF assms Cons.prems, of e]
  then have "ch_receiver (ex_queue (fire_event env e ex))" using Cons.prems by (simp add: fire_step_def)
  from s Cons.IH [OF this] show ?case by (auto intro: fire_step_trans)
qed simp

text \<open>A message that is due, the mailbox it is for, and what waits there.\<close>

definition delivered ::
    "(nat \<Rightarrow> bool) \<Rightarrow> wire_data message \<Rightarrow> (wire_data, nat) mailbox \<Rightarrow> nat \<Rightarrow> ('g, 'f, 'q) net_exec \<Rightarrow> bool" where
  "delivered alive msg mb i ex' \<longleftrightarrow>
     (\<exists>mb'. nw_mailboxes (net_of ex') i = Some mb' \<and>
       ((\<forall>r. (msg_tag msg, r) \<in> set (mb_registered mb) \<longrightarrow> \<not> alive r) \<longrightarrow> msg \<in> set (mb_msgs mb')) \<and>
       (\<forall>t. (msg_tag msg, t) \<in> set (mb_wakers mb) \<longrightarrow> ready t ex'))"

lemma fire_delivers:
  assumes "en_fire env = net_fire alive rx_task" "ch_receiver (ex_queue ex)"
    and "ev_callback e = Some (CbUser (Deliver i msg))" "nw_mailboxes (net_of ex) i = Some mb"
  shows "delivered alive msg mb i (fire_event env e ex)"
proof -
  obtain ws r mb' where d: "deliver alive msg mb = (ws, r, mb')" by (metis prod_cases3)
  define us where "us = ws @ (case r of None \<Rightarrow> [] | Some rx \<Rightarrow> (case rx_task rx of None \<Rightarrow> [] | Some t \<Rightarrow> [t]))"
  define ex1 where "ex1 = ex\<lparr>ex_prog := (ex_prog ex)\<lparr>wd_net := (wd_net (ex_prog ex))\<lparr>ns_network :=
    (net_of ex)\<lparr>nw_mailboxes := (nw_mailboxes (net_of ex))(i \<mapsto> mb')\<rparr>\<rparr>\<rparr>\<rparr>"
  have e: "fire_event env e ex = schedule_all us ex1"
    using assms d by (simp add: fire_event_def prog_wakes_def net_fire_def fire_callback_def net_of_def us_def ex1_def)
  have "nw_mailboxes (net_of (schedule_all us ex1)) i = Some mb'"
    using schedule_all_grows [of ex1 us] by (simp add: net_of_def sched_grows_def ex1_def)
  moreover have "ready t (schedule_all us ex1)" if "t \<in> set ws" for t
    using that assms(2) by (intro schedule_ready) (simp_all add: ex1_def us_def)
  ultimately show ?thesis using deliver_spec(4,5) [OF d] by (auto simp: delivered_def e)
qed

lemma delivered_mono:
  assumes "delivered alive msg mb i ex1" "fire_step ex1 ex2"
  shows "delivered alive msg mb i ex2"
proof -
  from assms(1) obtain b where b: "nw_mailboxes (net_of ex1) i = Some b"
    "(\<forall>r. (msg_tag msg, r) \<in> set (mb_registered mb) \<longrightarrow> \<not> alive r) \<longrightarrow> msg \<in> set (mb_msgs b)"
    "\<forall>t. (msg_tag msg, t) \<in> set (mb_wakers mb) \<longrightarrow> ready t ex1" by (auto simp: delivered_def)
  from assms(2) b(1) obtain b' where b': "nw_mailboxes (net_of ex2) i = Some b'" "set (mb_msgs b) \<subseteq> set (mb_msgs b')"
    by (elim fire_step_box) (auto simp: box_step_def)
  with fire_step_ready [OF assms(2)] b(2,3) b' show ?thesis unfolding delivered_def by (intro exI [of _ b'] conjI) blast+
qed

lemma delivered_before:
  assumes "fire_step ex0 ex1" "nw_mailboxes (net_of ex0) i = Some mb0" "nw_mailboxes (net_of ex1) i = Some mb1"
    and "delivered alive msg mb1 i ex2" "fire_step ex1 ex2"
  shows "delivered alive msg mb0 i ex2"
proof -
  have b: "box_step ex1 mb0 mb1" using assms(1-3) by (auto elim: fire_step_box)
  note r = fire_step_ready [OF assms(5)]
  have reg: "set (mb_registered mb1) \<subseteq> set (mb_registered mb0)"
    and wk: "(msg_tag msg, t) \<in> set (mb_wakers mb0) \<Longrightarrow> (msg_tag msg, t) \<in> set (mb_wakers mb1) \<or> ready t ex1" for t
    using b by (auto simp: box_step_def)
  from assms(4) obtain mb' where m: "nw_mailboxes (net_of ex2) i = Some mb'"
    "(\<forall>r. (msg_tag msg, r) \<in> set (mb_registered mb1) \<longrightarrow> \<not> alive r) \<longrightarrow> msg \<in> set (mb_msgs mb')"
    "\<forall>t. (msg_tag msg, t) \<in> set (mb_wakers mb1) \<longrightarrow> ready t ex2" by (auto simp: delivered_def)
  show ?thesis unfolding delivered_def using m reg wk r by (intro exI [of _ mb'] conjI) blast+
qed

lemma fire_all_delivers:
  assumes "en_fire env = net_fire alive rx_task" "ch_receiver (ex_queue ex)" "e \<in> set es"
    and "ev_callback e = Some (CbUser (Deliver i msg))" "nw_mailboxes (net_of ex) i = Some mb"
  shows "delivered alive msg mb i (fold (fire_event env) es ex)"
proof -
  from assms(3) obtain es1 es2 where es: "es = es1 @ e # es2" by (meson split_list)
  let ?ex1 = "fold (fire_event env) es1 ex" let ?ex2 = "fire_event env e ?ex1"
  have s1: "fire_step ex ?ex1" by (rule net_fire_steps [OF assms(1,2)])
  then have r1: "ch_receiver (ex_queue ?ex1)" using assms(2) by (simp add: fire_step_def)
  have s2: "fire_step ?ex1 ?ex2" by (rule net_fire_step [OF assms(1) r1])
  then have r2: "ch_receiver (ex_queue ?ex2)" using r1 by (simp add: fire_step_def)
  obtain mb1 where m1: "nw_mailboxes (net_of ?ex1) i = Some mb1" using s1 assms(5) by (rule fire_step_box)
  have "delivered alive msg mb i ?ex2"
    by (rule delivered_before [OF s1 assms(5) m1 fire_delivers [OF assms(1) r1 assms(4) m1] s2])
  then show ?thesis using delivered_mono [OF _ net_fire_steps [OF assms(1) r2, of es2]] by (simp add: es)
qed

section \<open>Sending\<close>

lemma schedule_all_time [simp]:
  fixes ex :: "('g, 'c, 'p) exec"
  shows "ex_time (schedule t ex) = ex_time ex" "ex_time (schedule_all ts ex) = ex_time ex"
proof -
  show s: "ex_time (schedule t ex) = ex_time ex" for t and ex :: "('g, 'c, 'p) exec"
    by (simp add: schedule_def split: option.split)
  show "ex_time (schedule_all ts ex) = ex_time ex"
    unfolding schedule_all_def by (induction ts arbitrary: ex) (simp_all add: s)
qed

lemma prog_wakes_time [simp]: "ex_time (prog_wakes f ex) = ex_time ex"
  by (simp add: prog_wakes_def split: prod.split)

lemma kill_time:
  fixes ex :: "('g, 'c, 'p) exec"
  assumes "task_kill env ctx n ex = Ret ex'"
  shows "ex_time ex' = disable_node_and_cancel_timers n (ex_time ex)"
proof -
  have "ex_time (fold (drop_runnable env ctx) ts ex) = ex_time ex" for ts and ex :: "('g, 'c, 'p) exec"
    by (induction ts arbitrary: ex) (simp_all add: drop_runnable_def)
  then show ?thesis using assms
    by (auto simp: task_kill_def Let_def new_info_def mark_killed_def upd_info_def request_abort_node_def)
qed

lemma fire_event_time [simp]: "ex_time (fire_event env e ex) = ex_time ex"
  by (auto simp: fire_event_def split: option.split exec_cb.split)

lemma fire_all_time [simp]: "ex_time (fold (fire_event env) es ex) = ex_time ex"
  by (induction es arbitrary: ex) simp_all

text \<open>The delivery a send puts into the shared queue.\<close>

definition in_flight ::
    "node_id \<Rightarrow> nat \<Rightarrow> duration \<Rightarrow> wire_data message \<Rightarrow> (wire_data, nat) callback exec_cb event" where
  "in_flight m i d msg = \<lparr>ev_deadline = d, ev_node = m, ev_callback = Some (CbUser (Deliver i msg))\<rparr>"

lemma shared_send_cases:
  assumes "on_shared_net (send ops n p src dst tag data) ex = Ret (r, ex1)"
  obtains (none) "r \<noteq> Ok () \<or> pl_ty data = Udp" "th_timer (ex_time ex1) = th_timer (ex_time ex)"
      "msg_count (net_of ex1) = msg_count (net_of ex)"
  | (one) m i d where "r = Ok ()" "(if is_loopback (fst dst) then Some n else addr_to_node (net_of ex) (fst dst)) = Some m"
      "socket_of m (snd dst, p) (net_of ex) = Some i" "elapsed_time (th_clock (ex_time ex)) \<le> d"
      "th_timer (ex_time ex1) = timer_add m d (CbUser (Deliver i \<lparr>msg_tag = tag, msg_data = data, msg_from = src\<rparr>)) (th_timer (ex_time ex))"
      "nw_mailboxes (net_of ex1) = nw_mailboxes (net_of ex)" "ex_queue ex1 = ex_queue ex" "ex_task_info ex1 = ex_task_info ex"
proof -
  from assms obtain nw where s: "send ops n p src dst tag data (shared_view ex) = Ret (r, nw)"
    and e: "ex1 = ex\<lparr>ex_rand := (ex_rand ex)\<lparr>gr_rng := nw_rand nw\<rparr>,
         ex_time := \<lparr>th_timer = fold add_net_event (events (th_timer (nw_time nw))) (th_timer (ex_time ex)),
                     th_clock = th_clock (nw_time nw)\<rparr>,
         ex_prog := (ex_prog ex)\<lparr>wd_net := (wd_net (ex_prog ex))\<lparr>ns_network := nw\<rparr>\<rparr>\<rparr>"
    by (auto simp: on_shared_net_def)
  have n1: "net_of ex1 = nw" by (simp add: e net_of_def)
  have v: "events (th_timer (nw_time (shared_view ex))) = []" "th_clock (nw_time (shared_view ex)) = th_clock (ex_time ex)"
    "addr_to_node (shared_view ex) = addr_to_node (net_of ex)" "nodes (shared_view ex) = nodes (net_of ex)"
    "nw_mailboxes (shared_view ex) = nw_mailboxes (net_of ex)" "msg_count (shared_view ex) = msg_count (net_of ex)"
    "disabled_node_ids (th_timer (nw_time (shared_view ex))) = disabled_node_ids (th_timer (ex_time ex))"
    by (simp_all add: shared_view_def)
  have quiet: "th_timer (ex_time ex1) = th_timer (ex_time ex)" "msg_count (net_of ex1) = msg_count (net_of ex)"
    if "nw = (shared_view ex)\<lparr>nw_rand := g\<rparr>" for g
    using that by (simp_all add: n1 v) (simp add: e v)
  from s show thesis
  proof (cases rule: send_cases)
    case (scheduled m nd g)
    from scheduled(7) show thesis
    proof (cases rule: schedule_stage_cases)
      case 1
      with quiet [of g] show thesis by (intro none) simp_all
    next
      case (2 i lat g' now tm at)
      let ?cb = "Deliver i \<lparr>msg_tag = tag, msg_data = data, msg_from = src\<rparr>" and ?b = "base_instant (th_clock (ex_time ex))"
      have now: "now = ?b + int (elapsed_time (th_clock (ex_time ex)))" "th_timer tm = th_timer (nw_time (shared_view ex))"
        "base_instant (th_clock tm) = ?b"
        using 2(4) by (auto simp: now_instant_Ret v)
      have "now \<le> at" using 2(5) by (auto simp: instant_simps split: if_splits)
      then have d: "elapsed_time (th_clock (ex_time ex)) \<le> instant_diff at ?b" by (simp add: instant_diff_nat now(1))
      have "th_timer (ex_time ex1) = timer_add m (instant_diff at ?b) (CbUser ?cb) (th_timer (ex_time ex))"
        by (simp add: e 2(6) add_timer_for_node_def timer_add_def now v heap_push_def sift_up.simps add_net_event_def)
      moreover have "socket_of m (snd dst, p) (net_of ex) = Some i"
        using scheduled(5) 2(1) by (simp add: socket_of_def v)
      moreover have "nw_mailboxes (net_of ex1) = nw_mailboxes (net_of ex)" by (simp add: n1 2(6) v)
      moreover have "ex_queue ex1 = ex_queue ex" "ex_task_info ex1 = ex_task_info ex" by (simp_all add: e)
      ultimately show thesis using one [OF 2(2) scheduled(1) [unfolded v] _ d] by blast
    qed
  next
    case refused
    with quiet [of "nw_rand (shared_view ex)"] show thesis by (intro none) simp_all
  next
    case (lost g)
    with quiet [of g] show thesis by (intro none) simp_all
  next
    case (hung_up m nd g)
    with quiet [of g] show thesis by (intro none) simp_all
  qed
qed


lemma add_event:
  assumes "timer_wf t" "m \<notin> disabled_node_ids t"
  shows "timer_wf (timer_add m d cb t)"
    "\<lparr>ev_deadline = d, ev_node = m, ev_callback = Some cb\<rparr> \<in> set (events (timer_add m d cb t))"
  using timer_step_wf [OF assms(1), of "TAdd m d cb" "[]" "[]" "timer_add m d cb t"] assms(2)
  by (auto simp: timer_add_def)

text \<open>A jump of the clock fires what is due by 50 ns after the earliest event, and keeps the rest.\<close>

lemma advance_fires:
  assumes "exec_advance env ex = Ret (b, ex')" "timer_wf (th_timer (ex_time ex))" "e \<in> set (events (th_timer (ex_time ex)))"
    and "ev_callback e \<noteq> None"
  obtains first es tm where "timer_next (th_timer (ex_time ex)) = Some first"
    "ex' = fold (fire_event env) es (ex\<lparr>ex_time := tm\<rparr>)"
    "if ev_deadline e \<le> first + 50 then e \<in> set es else e \<in> set (events (th_timer tm))"
proof -
  have "timer_next (th_timer (ex_time ex)) \<noteq> None"
    using assms(2,3) evo.heap.peek_None by (fastforce simp: timer_next_def timer_wf_def)
  with assms(1) obtain first es tm' where n: "timer_next (th_timer (ex_time ex)) = Some first"
    and x: "timer_expire (first + 50) (th_timer (ex_time ex)) = (es, tm')"
    and ex': "ex' = fold (fire_event env) es (ex\<lparr>ex_time := (ex_time ex)\<lparr>th_timer := tm',
      th_clock := clock_set_elapsed (first + 50) (th_clock (ex_time ex))\<rparr>\<rparr>)"
    by (auto simp: exec_advance_def advance_to_next_event_def dur_add_def run_simps split: prod.splits if_splits)
  from x obtain rest where r: "expire_events (first + 50) (events (th_timer (ex_time ex))) = (es, rest)" "events tm' = rest"
    by (auto simp: timer_expire_def split: prod.splits)
  have m: "mset es = {#e \<in># mset (events (th_timer (ex_time ex))). ev_deadline e \<le> first + 50 \<and> ev_callback e \<noteq> None#}"
    "mset rest = {#e \<in># mset (events (th_timer (ex_time ex))). first + 50 < ev_deadline e#}"
    using expire_events_spec [OF _ r(1)] assms(2) by (auto simp: timer_wf_def)
  have "set es = {e \<in> set (events (th_timer (ex_time ex))). ev_deadline e \<le> first + 50 \<and> ev_callback e \<noteq> None}"
    "set rest = {e \<in> set (events (th_timer (ex_time ex))). first + 50 < ev_deadline e}"
    using m [THEN arg_cong [of _ _ set_mset]] by simp_all
  with that [OF n ex'] r(2) assms(3,4) show thesis by simp
qed

section \<open>Properties\<close>


lemma sims_reset_net: "sims_reset b n w = Ret w' \<Longrightarrow> ns_reset_node n (wd_net w) = Ret (wd_net w')"
proof -
  assume r: "sims_reset b n w = Ret w'"
  have f: "wd_net x = wd_net y" if "fs_handler g y = Ret x" for g and x y :: "('a, 'b, 'c) world"
    using that by (auto simp: fs_handler_def split: prod.splits run.splits)
  from r show ?thesis
    by (cases b) (auto simp: sims_reset_def each_sim_def net_handler_def run_simps dest!: f)
qed

lemma reset_no_sockets: "ns_reset_node n ns = Ret ns' \<Longrightarrow> socket_of n k (ns_network ns') = None"
  by (auto simp: ns_reset_node_def with_network'_def reset_node_def socket_of_def)

text \<open>C9: killing a node cuts it off: of what was in flight to it nothing will ever arrive, its timers
  are cancelled and no new one is accepted, it has no sockets, and whatever is sent to one of its
  addresses from then on fails or is a datagram that is lost, and nothing is scheduled for it.\<close>

theorem kill_cuts_node_off:
  assumes "handle_kill (with_sims b env) ctx n ex = Ret ex'" "timer_wf (th_timer (ex_time ex))"
  shows "silent_for n (th_timer (ex_time ex')) \<and> n \<in> disabled_node_ids (th_timer (ex_time ex')) \<and>
    (\<forall>k. socket_of n k (net_of ex') = None) \<and>
    (\<forall>m dst r ex2. on_shared_net (send ops m p src dst tag data) ex' = Ret (r, ex2) \<longrightarrow>
       (if is_loopback (fst dst) then m = n else addr_to_node (net_of ex') (fst dst) = Some n) \<longrightarrow>
       (r \<noteq> Ok () \<or> pl_ty data = Udp) \<and> th_timer (ex_time ex2) = th_timer (ex_time ex'))"
proof -
  from assms(1) obtain ex1 w where k: "task_kill (with_sims b env) ctx n ex = Ret ex1"
    and w: "sims_reset b n (ex_prog ex1) = Ret w" and ex': "ex' = ex1\<lparr>ex_prog := w\<rparr>"
    by (auto simp: handle_kill_def on_sims_def with_sims_def run_simps)
  have t: "ex_time ex' = disable_node_and_cancel_timers n (ex_time ex)"
    using kill_time [OF k] by (simp add: ex')
  have s: "socket_of n k (net_of ex') = None" for k
    using reset_no_sockets [OF sims_reset_net [OF w]] by (simp add: ex' net_of_def)
  have "(r \<noteq> Ok () \<or> pl_ty data = Udp) \<and> th_timer (ex_time ex2) = th_timer (ex_time ex')"
    if "on_shared_net (send ops m p src dst tag data) ex' = Ret (r, ex2)"
      "if is_loopback (fst dst) then m = n else addr_to_node (net_of ex') (fst dst) = Some n" for m dst r ex2
    using that(1)
  proof (cases rule: shared_send_cases)
    case (one m' i d)
    have "m' = n" using one(2) that(2) by (simp split: if_splits)
    with one(3) s show ?thesis by simp
  next
    case none
    then show ?thesis by simp
  qed
  moreover have "silent_for n (th_timer (ex_time ex'))" "n \<in> disabled_node_ids (th_timer (ex_time ex'))"
    using silent_disable [OF assms(2) prod.collapse [symmetric], of n]
    by (simp_all add: t disable_node_and_cancel_timers_def)
  ultimately show ?thesis using s by simp
qed

section \<open>An example\<close>

text \<open>Node 1 sends itself a datagram while its task 5 waits at the socket.\<close>

definition wire_env :: "(nat, nat, (wire_data, nat) callback, (nat, nat, unit) world) env" where
  "wire_env = \<lparr>en_ops = demo_rng, en_shuffle = (\<lambda>xs g. (xs, g)), en_poll = (\<lambda>t ex. (Returned, [], ex_prog ex)),
     en_job = (\<lambda>j ex. (JobDone, [], ex_prog ex)), en_drop = (\<lambda>_ _ p. ([], p)), en_drop_job = (\<lambda>_ _ p. ([], p)),
     en_done = (\<lambda>_ p. ([], p)), en_killed = (\<lambda>_ p. ([], p)),
     en_fire = net_fire (\<lambda>_. True) (\<lambda>_. None), en_init = (\<lambda>_ _ p. p), en_sim_create = (\<lambda>_ _. Ret),
     en_sim_reset = (\<lambda>_. Ret), en_sim_delete = (\<lambda>_. Ret)\<rparr>"

definition wire_box :: "(wire_data, nat) mailbox" where
  "wire_box = \<lparr>mb_registered = [], mb_msgs = [], mb_wakers = [(3, 5)], mb_sync_connections = []\<rparr>"

definition wire_net :: "(nat, nat, wire_data, nat) network" where
  "wire_net = (network_new 5 \<lparr>th_timer = timer_default, th_clock = clock_new 0\<rparr> network_config_default)
     \<lparr>nodes := [1 \<mapsto> \<lparr>nd_ip = Some (IPv4 1), nd_sockets = [(7, 2) \<mapsto> 0], live_tcp_ids = {}, next_ephemeral_port = 0x8000\<rparr>],
      addr_to_node := [IPv4 1 \<mapsto> 1], nw_mailboxes := [0 \<mapsto> wire_box], nw_next_mb := 1\<rparr>"

definition wire_exec :: "(nat, nat, unit) net_exec" where
  "wire_exec = (executor_new demo_pool \<lparr>th_timer = timer_default, th_clock = clock_new 0\<rparr> (new_with_seed demo_rng 5)
       (demo_world\<lparr>wd_net := (wd_net demo_world)\<lparr>ns_network := wire_net\<rparr>\<rparr>))
     \<lparr>ex_infos := (\<lambda>_. task_info_new 1 ''a''), ex_next_info := 1,
      ex_nodes := [1 \<mapsto> \<lparr>ne_info = 0, ne_paused = [], ne_init = Some 0\<rparr>], ex_next_node := 2,
      ex_task_info := [5 \<mapsto> 0], ex_next_task := 6\<rparr>"

lemma wire_ok: "net_wf (net_of wire_exec)" "timer_wf (th_timer (ex_time wire_exec))" "ch_receiver (ex_queue wire_exec)"
  "msg_count (net_of wire_exec) = 0" "en_fire wire_env = net_fire (\<lambda>_. True) (\<lambda>_. None)"
  by (auto simp: wire_exec_def net_of_def wire_net_def net_wf_def boxes_ok_def routes_ok_def clogs_ok_def sock_map_apply
      network_new_def executor_new_def channel_def wire_env_def ran_def split: if_splits option.splits)

lemma wire_sent:
  obtains ex1 D where "on_shared_net (send demo_rng 1 2 (IPv4 1, 5) (IPv4 1, 7) 3 (new_udp (RawBytes [1]))) wire_exec = Ret (Ok (), ex1)"
    "msg_count (net_of ex1) = 1" "ex_time ex1 = \<lparr>th_timer = \<lparr>disabled_node_ids = {},
       events = [in_flight 1 0 D \<lparr>msg_tag = 3, msg_data = new_udp (RawBytes [1]), msg_from = (IPv4 1, 5)\<rparr>]\<rparr>, th_clock = th_clock (ex_time ex1)\<rparr>"
    "D < 10 ^ 15"
  by (simp add: on_shared_net_def shared_view_def net_of_def wire_exec_def executor_new_def new_with_seed_def
      send_def loss_stage_def schedule_stage_def wire_net_def network_new_def timer_default_def in_flight_def
      network_config_default_def packet_loss_default_def latency_config_default_def packet_loss_rate_def
      get_latency_def gen_range_def demo_rng_def new_udp_def is_tcp_data_def add_net_event_def timer_add_def heap_push_def sift_up.simps
      now_instant_def clock_now_instant_def check_abort_def clock_new_def ABORT_COUNTER_START_def add_timer_for_node_def
      instant_simps instant_ok_def CLOCK_BASE_def add_u64_def Let_def)


theorem kill_cuts_node_off_witness:
  "\<exists>ex'. handle_kill (with_sims True wire_env) None 1 wire_exec = Ret ex' \<and>
     socket_of 1 (7, 2) (net_of wire_exec) = Some 0 \<and> socket_of 1 (7, 2) (net_of ex') = None"
proof -
  obtain ex' where k: "handle_kill (with_sims True wire_env) None 1 wire_exec = Ret ex'"
    by (simp add: handle_kill_def task_kill_def wire_exec_def executor_new_def Let_def new_info_def mark_killed_def
        upd_info_def request_abort_node_def prog_wakes_def schedule_all_def wire_env_def with_sims_def on_sims_def
        sims_reset_def each_sim_def net_handler_def fs_handler_def ns_reset_node_def with_network'_def reset_node_def
        fs_handlers_return demo_world_def fs_sim_new_def wire_net_def)
  from kill_cuts_node_off [OF k wire_ok(2)] k show ?thesis
    by (simp add: wire_exec_def net_of_def wire_net_def socket_of_def executor_new_def)
qed

end
