(* ===== verification/Descriptors.thy ===== *)
theory Descriptors
  imports Socket_Api
begin

text \<open>
  Real file descriptors in a simulation, \<open>msim/src/sim/net/mod.rs\<close>: every simulated socket reserves a
  descriptor of the operating system (\<open>alloc_fd\<close>), so that no file the program opens gets the same
  number; the socket's \<open>PlaceholderFileDes\<close> closes it with the socket, and panics if it cannot. The
  theory shows that this works as long as each socket is closed by its own node, and what happens
  when a descriptor is dropped in the context of another one.

  The operating system is the set of open descriptors; which number it gives out next is an
  argument. The reference to an endpoint that goes with a socket is \<open>endpoint_drop\<close>.
\<close>

section \<open>Descriptors\<close>

record ('g, 'f, 'w) fd_world =
  fw_net :: "('g, 'f, 'w) net_sim"
  fw_open :: "fd set"

text \<open>The real \<open>close\<close>, by \<open>define_bypass\<close> or \<open>NEXT_DL_SYM\<close>.\<close>

definition bypass_close :: "fd \<Rightarrow> ('g, 'f, 'w) fd_world \<Rightarrow> int \<times> ('g, 'f, 'w) fd_world" where
  "bypass_close fd w = (if fd \<in> fw_open w then (0, w\<lparr>fw_open := fw_open w - {fd}\<rparr>) else (-1, w))"

definition placeholder_drop :: "fd \<Rightarrow> ('g, 'f, 'w) fd_world \<Rightarrow> ('g, 'f, 'w) fd_world run" where
  "placeholder_drop fd w = (case bypass_close fd w of (r, w) \<Rightarrow> if r \<noteq> 0 then Panic CloseFailed else Ret w)"

text \<open>\<open>dup(0)\<close> gave \<open>fd\<close>; a failure, -1, is not looked at.\<close>

definition alloc_fd :: "fd \<Rightarrow> ('g, 'f, 'w) fd_world \<Rightarrow> ('g, 'f, 'w) fd_world" where
  "alloc_fd fd w = (if fd = -1 then w else w\<lparr>fw_open := insert fd (fw_open w)\<rparr>)"

text \<open>The intercepted \<open>close\<close>, with the placeholder of the socket it removes.\<close>

definition libc_close :: "node_id \<Rightarrow> fd \<Rightarrow> ('g, 'f, 'w) fd_world \<Rightarrow> (int \<times> ('g, 'f, 'w) fd_world) run" where
  "libc_close cur fd w =
     (case sys_close cur fd (fw_net w) of
        (None, _, _) \<Rightarrow> Ret (bypass_close fd w)
      | (Some (r, _), _, ns) \<Rightarrow> bind_run (placeholder_drop fd (w\<lparr>fw_net := ns\<rparr>)) (\<lambda>w. Ret (r, w)))"

text \<open>\<open>OwnedFd\<close>: \<open>killed\<close> is what \<open>return_if_killed\<close> finds out about the running task.\<close>

definition owned_drop :: "bool \<Rightarrow> node_id \<Rightarrow> fd \<Rightarrow> ('g, 'f, 'w) fd_world \<Rightarrow> ('g, 'f, 'w) fd_world run" where
  "owned_drop killed cur fd w =
     (if killed then Ret w else bind_run (libc_close cur fd w) (\<lambda>(_, w). Ret w))"

definition owned_release :: "fd \<Rightarrow> ('g, 'f, 'w) fd_world \<Rightarrow> fd \<times> ('g, 'f, 'w) fd_world" where
  "owned_release fd w = (fd, w)"

text \<open>\<open>socket\<close> and \<open>accept\<close>, which allocate, and the end of a node, whose sockets are in the order \<open>fds\<close>.\<close>

definition fd_socket :: "node_id \<Rightarrow> int \<Rightarrow> int \<Rightarrow> fd \<Rightarrow> ('g, 'f, 'w) fd_world \<Rightarrow> ('g, 'f, 'w) fd_world run" where
  "fd_socket cur domain ty fd w =
     bind_run (sys_socket cur domain ty fd (fw_net w)) (\<lambda>(_, ns). Ret ((alloc_fd fd w)\<lparr>fw_net := ns\<rparr>))"

definition fd_accept :: "node_id \<Rightarrow> fd \<Rightarrow> fd \<Rightarrow> ('g, 'f, 'w) fd_world \<Rightarrow> ('g, 'f, 'w) fd_world run" where
  "fd_accept cur lfd fd w =
     bind_run (sys_accept cur lfd fd (fw_net w)) (\<lambda>(((_, err), _), ns).
       Ret ((if err = None then alloc_fd fd w else w)\<lparr>fw_net := ns\<rparr>))"

fun placeholders_drop :: "fd list \<Rightarrow> ('g, 'f, 'w) fd_world \<Rightarrow> ('g, 'f, 'w) fd_world run" where
  "placeholders_drop [] w = Ret w"
| "placeholders_drop (fd # fds) w = bind_run (placeholder_drop fd w) (placeholders_drop fds)"

definition fd_delete_node :: "node_id \<Rightarrow> fd list \<Rightarrow> ('g, 'f, 'w) fd_world \<Rightarrow> ('g, 'f, 'w) fd_world run" where
  "fd_delete_node n fds w =
     bind_run (ns_delete_node n (fw_net w)) (\<lambda>ns.
       placeholders_drop (filter (\<lambda>fd. ns_sockets (fw_net w) (n, fd) \<noteq> None) fds) (w\<lparr>fw_net := ns\<rparr>))"

section \<open>Runs\<close>

text \<open>\<open>FdOpen\<close> is the program's own \<open>open\<close>.\<close>

datatype fd_op =
    FdOpen fd | FdSocket node_id int int fd | FdAccept node_id fd fd | FdClose node_id fd
  | FdDrop bool node_id fd | FdDelete node_id "fd list"

fun fd_step :: "fd_op \<Rightarrow> ('g, 'f, 'w) fd_world \<Rightarrow> ('g, 'f, 'w) fd_world run" where
  "fd_step (FdOpen fd) w = Ret (w\<lparr>fw_open := insert fd (fw_open w)\<rparr>)"
| "fd_step (FdSocket n domain ty fd) w = fd_socket n domain ty fd w"
| "fd_step (FdAccept n lfd fd) w = fd_accept n lfd fd w"
| "fd_step (FdClose n fd) w = bind_run (libc_close n fd w) (\<lambda>(_, w). Ret w)"
| "fd_step (FdDrop killed n fd) w = owned_drop killed n fd w"
| "fd_step (FdDelete n fds) w = fd_delete_node n fds w"

text \<open>The operating system gives out numbers that are not in use; the node's sockets are all there, once.\<close>

fun os_ok :: "fd_op \<Rightarrow> ('g, 'f, 'w) fd_world \<Rightarrow> bool" where
  "os_ok (FdOpen fd) w \<longleftrightarrow> fd \<notin> fw_open w"
| "os_ok (FdSocket n domain ty fd) w \<longleftrightarrow> fd \<noteq> -1 \<and> fd \<notin> fw_open w"
| "os_ok (FdAccept n lfd fd) w \<longleftrightarrow> fd \<noteq> -1 \<and> fd \<notin> fw_open w"
| "os_ok (FdDelete n fds) w \<longleftrightarrow> distinct fds \<and> (\<forall>fd. ns_sockets (fw_net w) (n, fd) \<noteq> None \<longrightarrow> fd \<in> set fds)"
| "os_ok _ w \<longleftrightarrow> True"

text \<open>A descriptor that is a socket is closed by a task of its own node.\<close>

fun by_owner :: "fd_op \<Rightarrow> ('g, 'f, 'w) fd_world \<Rightarrow> bool" where
  "by_owner (FdClose n fd) w \<longleftrightarrow> (\<forall>m. ns_sockets (fw_net w) (m, fd) \<noteq> None \<longrightarrow> m = n)"
| "by_owner (FdDrop killed n fd) w \<longleftrightarrow> killed \<or> (\<forall>m. ns_sockets (fw_net w) (m, fd) \<noteq> None \<longrightarrow> m = n)"
| "by_owner _ w \<longleftrightarrow> True"

inductive fd_reach :: "('g, 'f, 'w) fd_world \<Rightarrow> ('g, 'f, 'w) fd_world \<Rightarrow> bool" for w0 where
  fd_start: "fd_reach w0 w0"
| fd_more: "fd_reach w0 w \<Longrightarrow> os_ok op w \<Longrightarrow> by_owner op w \<Longrightarrow> fd_step op w = Ret w' \<Longrightarrow> fd_reach w0 w'"

section \<open>Every socket has its descriptor\<close>

definition fds_ok :: "('g, 'f, 'w) fd_world \<Rightarrow> bool" where
  "fds_ok w \<longleftrightarrow> (\<forall>n fd ss. ns_sockets (fw_net w) (n, fd) = Some ss \<longrightarrow> fd \<in> fw_open w) \<and>
     (\<forall>n m fd ss tt. ns_sockets (fw_net w) (n, fd) = Some ss \<longrightarrow> ns_sockets (fw_net w) (m, fd) = Some tt \<longrightarrow> n = m)"

lemma fds_okD:
  assumes "fds_ok w" "ns_sockets (fw_net w) (n, fd) = Some ss"
  shows "fd \<in> fw_open w" "ns_sockets (fw_net w) (m, fd) = Some tt \<Longrightarrow> m = n"
  using assms unfolding fds_ok_def by blast+

lemma fds_okI:
  assumes "\<And>n fd ss. ns_sockets (fw_net w) (n, fd) = Some ss \<Longrightarrow> fd \<in> fw_open w"
    and "\<And>n m fd ss tt. ns_sockets (fw_net w) (n, fd) = Some ss \<Longrightarrow> ns_sockets (fw_net w) (m, fd) = Some tt \<Longrightarrow> n = m"
  shows "fds_ok w"
  using assms unfolding fds_ok_def by blast

lemma placeholders_drop_all:
  "distinct fds \<Longrightarrow> set fds \<subseteq> fw_open w \<Longrightarrow> placeholders_drop fds w = Ret (w\<lparr>fw_open := fw_open w - set fds\<rparr>)"
proof (induction fds arbitrary: w)
  case (Cons fd fds)
  let ?w = "w\<lparr>fw_open := fw_open w - {fd}\<rparr>"
  have "placeholders_drop fds ?w = Ret (?w\<lparr>fw_open := fw_open ?w - set fds\<rparr>)"
    using Cons.prems by (intro Cons.IH) auto
  moreover have "fw_open w - {fd} - set fds = fw_open w - insert fd (set fds)" by auto
  ultimately show ?case using Cons.prems by (simp add: placeholder_drop_def bypass_close_def)
qed simp

lemma added_socket:
  assumes "fds_ok w" "fd \<noteq> -1" "fd \<notin> fw_open w"
    "ns_sockets ns = (ns_sockets (fw_net w))((n, fd) \<mapsto> ss)"
  shows "fds_ok ((alloc_fd fd w)\<lparr>fw_net := ns\<rparr>)"
proof (rule fds_okI)
  note old = fds_okD [OF assms(1)]
  fix m k tt assume m: "ns_sockets (fw_net ((alloc_fd fd w)\<lparr>fw_net := ns\<rparr>)) (m, k) = Some tt"
  then show "k \<in> fw_open ((alloc_fd fd w)\<lparr>fw_net := ns\<rparr>)"
    using assms(2,4) old(1) by (auto simp: alloc_fd_def split: if_splits)
  fix m' tt' assume "ns_sockets (fw_net ((alloc_fd fd w)\<lparr>fw_net := ns\<rparr>)) (m', k) = Some tt'"
  with m show "m = m'" using assms(3,4) old by (auto split: if_splits)
qed

lemma with_network_sockets:
  "with_network f ns = Ret (r, ns') \<Longrightarrow> ns_sockets ns' = ns_sockets ns"
  "endpoint_connect_sync cur p a ns = Ret (c, ns') \<Longrightarrow> ns_sockets ns' = ns_sockets ns"
  by (auto simp: with_network_def endpoint_connect_sync_def endpoint_bind_def new_endpoint_def run_simps
      split: io_result.splits)

lemma accept_lookup_sockets: "accept_lookup cur fd ns = Ret (r, ns') \<Longrightarrow> ns_sockets ns' = ns_sockets ns"
  by (auto simp: accept_lookup_def with_socket_def run_simps
      dest!: with_network_sockets(1) split: option.splits if_splits)

lemma sys_accept_sockets:
  assumes "sys_accept cur lfd fd ns = Ret (((r, err), a), ns')"
  shows "(err \<noteq> None \<and> ns_sockets ns' = ns_sockets ns) \<or>
    (err = None \<and> (\<exists>ss. ns_sockets ns' = (ns_sockets ns)((cur, fd) \<mapsto> ss)))"
proof -
  from assms obtain x ns1 where l: "accept_lookup cur lfd ns = Ret (x, ns1)" by (auto simp: sys_accept_def)
  with assms accept_lookup_sockets [OF l] show ?thesis
    by (cases x) (auto simp: sys_accept_def c_fail_def add_socket_def run_simps
        dest!: with_network_sockets(2) split: io_result.splits)
qed

lemma libc_close_ok:
  assumes "fds_ok w" "\<forall>m. ns_sockets (fw_net w) (m, fd) \<noteq> None \<longrightarrow> m = n"
  shows "\<exists>r w'. libc_close n fd w = Ret (r, w') \<and> fds_ok w'"
proof (cases "ns_sockets (fw_net w) (n, fd)")
  case None
  then have "\<forall>m. ns_sockets (fw_net w) (m, fd) = None" using assms(2) by (metis option.exhaust option.distinct(1))
  then have "fds_ok (snd (bypass_close fd w))"
    using fds_okD [OF assms(1)] by (intro fds_okI) (auto simp: bypass_close_def split: if_splits)
  with None show ?thesis by (simp add: libc_close_def sys_close_def close_socket_def) (metis prod.collapse)
next
  case (Some ss)
  let ?w = "w\<lparr>fw_net := (fw_net w)\<lparr>ns_sockets := (ns_sockets (fw_net w))((n, fd) := None)\<rparr>, fw_open := fw_open w - {fd}\<rparr>"
  have "fd \<in> fw_open w" by (rule fds_okD(1) [OF assms(1) Some])
  then have "libc_close n fd w = Ret (0, ?w)"
    using Some by (simp add: libc_close_def sys_close_def close_socket_def placeholder_drop_def bypass_close_def)
  moreover have "fds_ok ?w"
    using fds_okD [OF assms(1)] Some by (intro fds_okI) (auto split: if_splits)
  ultimately show ?thesis by blast
qed

lemma fd_delete_ok:
  assumes "fds_ok w" "os_ok (FdDelete n fds) w" "ns_delete_node n (fw_net w) = Ret ns"
  shows "\<exists>w'. fd_delete_node n fds w = Ret w' \<and> fds_ok w'"
proof -
  let ?fds = "filter (\<lambda>fd. ns_sockets (fw_net w) (n, fd) \<noteq> None) fds"
  let ?w = "w\<lparr>fw_net := ns, fw_open := fw_open w - set ?fds\<rparr>"
  have "set ?fds \<subseteq> fw_open w" using fds_okD(1) [OF assms(1)] by auto
  then have "placeholders_drop ?fds (w\<lparr>fw_net := ns\<rparr>) = Ret ?w"
    using assms(2) placeholders_drop_all [of ?fds "w\<lparr>fw_net := ns\<rparr>"] by simp
  then have "fd_delete_node n fds w = Ret ?w" using assms(3) by (simp add: fd_delete_node_def)
  moreover have "ns_sockets ns = host_delete_node n (ns_sockets (fw_net w))"
    using assms(3) by (auto simp: ns_delete_node_def with_network'_def run_simps)
  then have k: "ns_sockets ns (m, fd) = Some ss \<longleftrightarrow> m \<noteq> n \<and> ns_sockets (fw_net w) (m, fd) = Some ss" for m fd ss
    by (simp add: host_delete_node_def)
  have "fds_ok ?w"
  proof (rule fds_okI)
    fix m fd ss assume a: "ns_sockets (fw_net ?w) (m, fd) = Some ss"
    then have "m \<noteq> n" "ns_sockets (fw_net w) (m, fd) = Some ss" by (simp_all add: k)
    with fds_okD [OF assms(1) this(2)] show "fd \<in> fw_open ?w" by fastforce
    fix m' ss' assume "ns_sockets (fw_net ?w) (m', fd) = Some ss'"
    with a fds_okD(2) [OF assms(1)] show "m = m'" by (simp add: k) metis
  qed
  ultimately show ?thesis by blast
qed

text \<open>Nothing else panics that way.\<close>

definition closes :: "'a run \<Rightarrow> bool" where
  "closes m \<longleftrightarrow> m \<noteq> Panic CloseFailed"

lemma closes_simps [simp]:
  "closes (Ret x)" "closes (Panic p) \<longleftrightarrow> p \<noteq> CloseFailed" "closes (expect p y) \<longleftrightarrow> y \<noteq> None \<or> p \<noteq> CloseFailed"
  "closes (assert_run b p) \<longleftrightarrow> b \<or> p \<noteq> CloseFailed"
  by (auto simp: closes_def expect_def assert_run_def split: option.split)

lemma closes_bind: "closes m \<Longrightarrow> (\<And>x. m = Ret x \<Longrightarrow> closes (f x)) \<Longrightarrow> closes (bind_run m f)"
  by (cases m) (auto simp: closes_def)

lemma closes_if: "(b \<Longrightarrow> closes m) \<Longrightarrow> (\<not> b \<Longrightarrow> closes m') \<Longrightarrow> closes (if b then m else m')"
  by simp

lemma no_close_failure:
  "closes (sys_accept cur lfd fd ns)" "closes (ns_delete_node n ns)"
proof -
  have b: "closes (bind k p a nw)" for k p a and nw :: "('a, 'b, wire_data, 'c) network"
    unfolding bind_def resolve_ip_def Let_def
    by (auto intro!: closes_bind closes_if split: option.split io_result.split)
  have c: "closes (endpoint_connect_sync k p a ns)" for k p a and ns :: "('a, 'b, 'c) net_sim"
    unfolding endpoint_connect_sync_def endpoint_bind_def with_network_def
    by (auto intro!: closes_bind b split: io_result.split prod.split)
  have l: "closes (accept_lookup cur lfd ns)"
    unfolding accept_lookup_def with_socket_def with_network_def get_endpoint_def accept_connect_def at_mailbox_def
    by (auto intro!: closes_bind closes_if split: option.split prod.split)
  show "closes (sys_accept cur lfd fd ns)"
    unfolding sys_accept_def add_socket_def
    by (auto intro!: closes_bind l c split: sum.split prod.split io_result.split)
  show "closes (ns_delete_node n ns)"
    unfolding ns_delete_node_def with_network'_def delete_node_def by (auto intro!: closes_bind)
qed

lemma fd_step_ok:
  assumes "fds_ok w" "os_ok op w" "by_owner op w"
  shows "fd_step op w \<noteq> Panic CloseFailed \<and> (\<forall>w'. fd_step op w = Ret w' \<longrightarrow> fds_ok w')"
proof (cases op)
  case (FdOpen fd)
  with assms show ?thesis by (auto simp: fds_ok_def)
next
  case (FdSocket n domain ty fd)
  with assms show ?thesis
    by (auto simp: fd_socket_def sys_socket_def add_socket_def Let_def assert_run_def
        intro!: added_socket [of w fd _ n])
next
  case (FdAccept n lfd fd)
  have "fds_ok w'" if "fd_accept n lfd fd w = Ret w'" for w'
  proof -
    from that obtain r err a ns where s: "sys_accept n lfd fd (fw_net w) = Ret (((r, err), a), ns)"
      and w': "w' = (if err = None then alloc_fd fd w else w)\<lparr>fw_net := ns\<rparr>" by (auto simp: fd_accept_def)
    from sys_accept_sockets [OF s] show ?thesis
    proof
      assume "err \<noteq> None \<and> ns_sockets ns = ns_sockets (fw_net w)"
      with assms(1) show ?thesis by (auto simp: w' fds_ok_def)
    next
      assume "err = None \<and> (\<exists>ss. ns_sockets ns = (ns_sockets (fw_net w))((n, fd) \<mapsto> ss))"
      with assms(1,2) FdAccept show ?thesis by (auto simp: w' intro: added_socket)
    qed
  qed
  moreover have "fd_accept n lfd fd w \<noteq> Panic CloseFailed"
    using no_close_failure(1) [of n lfd fd "fw_net w"]
    by (cases "sys_accept n lfd fd (fw_net w)") (auto simp: fd_accept_def closes_def)
  ultimately show ?thesis using FdAccept by simp
next
  case (FdClose n fd)
  with assms libc_close_ok [of w fd n] show ?thesis by auto
next
  case (FdDrop killed n fd)
  with assms libc_close_ok [of w fd n] show ?thesis by (auto simp: owned_drop_def)
next
  case (FdDelete n fds)
  show ?thesis
  proof (cases "ns_delete_node n (fw_net w)")
    case (Ret ns)
    from fd_delete_ok [OF assms(1) _ Ret, of fds] assms(2) FdDelete show ?thesis by auto
  next
    case (Panic p)
    with no_close_failure(2) [of n "fw_net w"] FdDelete show ?thesis by (auto simp: fd_delete_node_def closes_def)
  qed
qed

lemma fd_reach_ok:
  assumes "fd_reach w0 w" "ns_sockets (fw_net w0) = Map.empty"
  shows "fds_ok w"
  using assms
proof (induction rule: fd_reach.induct)
  case fd_start
  then show ?case by (simp add: fds_ok_def)
next
  case (fd_more w op w')
  with fd_step_ok [of w op] show ?case by blast
qed

lemma placeholders_drop_closed:
  "fd \<in> set fds \<Longrightarrow> fd \<notin> fw_open w \<Longrightarrow> placeholders_drop fds w = Panic CloseFailed"
  by (induction fds arbitrary: w) (auto simp: placeholder_drop_def bypass_close_def)

lemma placeholders_drop_gone:
  "placeholders_drop fds w = Ret w' \<Longrightarrow> fd \<in> set fds \<Longrightarrow> fd \<notin> fw_open w'"
proof (induction fds arbitrary: w)
  case (Cons k fds)
  have shrinks: "placeholders_drop fds w = Ret w' \<Longrightarrow> fw_open w' \<subseteq> fw_open w" for fds and w w' :: "('a, 'b, 'c) fd_world"
    by (induction fds arbitrary: w) (fastforce simp: placeholder_drop_def bypass_close_def split: if_splits)+
  from Cons.prems(1) have k: "placeholders_drop fds (w\<lparr>fw_open := fw_open w - {k}\<rparr>) = Ret w'"
    by (auto simp: placeholder_drop_def bypass_close_def split: if_splits)
  with Cons.IH [OF k] Cons.prems(2) shrinks [OF k] show ?case by auto
qed simp

section \<open>Properties\<close>


text \<open>C24: dropping an \<open>OwnedFd\<close> in the context of another node breaks that: the real descriptor is
  closed but the socket stays registered. Then the next socket of its node that gets the number
  panics as a duplicate, deleting the node panics because the descriptor cannot be closed, and if
  the number went to a file of the program instead, deleting the node closes that file.\<close>

theorem foreign_drop_breaks_socket:
  assumes "fds_ok w" "ns_sockets (fw_net w) (m, fd) = Some ss" "n \<noteq> m"
    and "nodes (ns_network (fw_net w)) m \<noteq> None" "fd \<in> set fds"
  shows "\<exists>w'. owned_drop False n fd w = Ret w' \<and> ns_sockets (fw_net w') (m, fd) = Some ss \<and> fd \<notin> fw_open w' \<and>
    fd_socket m domain ty fd w' = Panic AssertFailed \<and>
    fd_delete_node m fds w' = Panic CloseFailed \<and>
    (\<forall>w2 w3. fd_step (FdOpen fd) w' = Ret w2 \<longrightarrow> fd_delete_node m fds w2 = Ret w3 \<longrightarrow>
       fd \<in> fw_open w2 \<and> fd \<notin> fw_open w3)"
proof -
  let ?w = "w\<lparr>fw_open := fw_open w - {fd}\<rparr>"
  have "ns_sockets (fw_net w) (n, fd) = None"
    using fds_okD(2) [OF assms(1,2)] assms(3) by (metis option.exhaust)
  then have d: "owned_drop False n fd w = Ret ?w"
    using fds_okD(1) [OF assms(1,2)]
    by (simp add: owned_drop_def libc_close_def sys_close_def close_socket_def bypass_close_def)
  obtain ns where del: "ns_delete_node m (fw_net w) = Ret ns"
    using assms(4) by (auto simp: ns_delete_node_def with_network'_def delete_node_def)
  have mem: "fd \<in> set (filter (\<lambda>fd. ns_sockets (fw_net w) (m, fd) \<noteq> None) fds)" using assms(2,5) by simp
  have gone: "fd_delete_node m fds ?w = Panic CloseFailed"
    using placeholders_drop_closed [OF mem, of "?w\<lparr>fw_net := ns\<rparr>"] by (simp add: fd_delete_node_def del)
  have stranger: "fd \<in> fw_open w2 \<and> fd \<notin> fw_open w3"
    if "fd_step (FdOpen fd) ?w = Ret w2" "fd_delete_node m fds w2 = Ret w3" for w2 w3
    using that placeholders_drop_gone [OF _ mem, of "w2\<lparr>fw_net := ns\<rparr>" w3] by (auto simp: fd_delete_node_def del)
  have "sys_socket m domain ty fd (fw_net w) = Panic AssertFailed"
    using assms(2) by (auto simp: sys_socket_def add_socket_def Let_def assert_run_def)
  then have dup: "fd_socket m domain ty fd ?w = Panic AssertFailed" by (simp add: fd_socket_def)
  have "ns_sockets (fw_net ?w) (m, fd) = Some ss" "fd \<notin> fw_open ?w" using assms(2) by simp_all
  with d gone dup stranger show ?thesis by blast
qed

definition demo_fds :: "(nat, nat, nat) fd_world" where
  "demo_fds = \<lparr>fw_net = ns_create_node 2 (net_sim_new 5 \<lparr>th_timer = timer_default, th_clock = clock_new 0\<rparr> network_config_default),
     fw_open = {0, 1, 2}\<rparr>"

lemma demo_socket:
  obtains w where "fd_step (FdSocket 2 AF_INET SOCK_DGRAM 3) demo_fds = Ret w" "fw_open w = {0, 1, 2, 3}"
    "ns_sockets (fw_net w) (2, 3) = Some \<lparr>ss_ty = SOCK_DGRAM, ss_endpoint = None, ss_listening = False\<rparr>"
    "nodes (ns_network (fw_net w)) 2 \<noteq> None" "fd_reach demo_fds w"
proof -
  obtain w where w: "fd_step (FdSocket 2 AF_INET SOCK_DGRAM 3) demo_fds = Ret w" "fw_open w = {0, 1, 2, 3}"
    "ns_sockets (fw_net w) (2, 3) = Some \<lparr>ss_ty = SOCK_DGRAM, ss_endpoint = None, ss_listening = False\<rparr>"
    "nodes (ns_network (fw_net w)) 2 \<noteq> None"
    by (auto simp: fd_socket_def sys_socket_def add_socket_def demo_fds_def ns_create_node_def net_sim_new_def alloc_fd_def
        SOCK_DGRAM_def SOCK_STREAM_def insert_node_def network_new_def Let_def)
  have "fd_reach demo_fds w"
    by (rule fd_more [OF fd_start _ _ w(1)]) (simp_all add: demo_fds_def)
  with w that show thesis by blast
qed

lemma demo_fds_empty: "ns_sockets (fw_net demo_fds) = Map.empty"
  by (simp add: demo_fds_def ns_create_node_def net_sim_new_def)


theorem foreign_drop_breaks_socket_witness:
  "\<exists>w w'. fd_step (FdSocket 2 AF_INET SOCK_DGRAM 3) demo_fds = Ret w \<and> owned_drop False 1 3 w = Ret w' \<and>
     fd_delete_node 2 [3] w' = Panic CloseFailed"
proof -
  obtain w where w: "fd_step (FdSocket 2 AF_INET SOCK_DGRAM 3) demo_fds = Ret w"
    "ns_sockets (fw_net w) (2, 3) = Some \<lparr>ss_ty = SOCK_DGRAM, ss_endpoint = None, ss_listening = False\<rparr>"
    "nodes (ns_network (fw_net w)) 2 \<noteq> None" "fd_reach demo_fds w" by (rule demo_socket)
  from foreign_drop_breaks_socket [OF fd_reach_ok [OF w(4) demo_fds_empty] w(2) _ w(3), of 1 "[3]" AF_INET SOCK_DGRAM] w(1)
  show ?thesis by auto
qed

end
