(* ===== verification/Redirect.thy ===== *)
theory Redirect
  imports Socket_Api
begin

text \<open>
  The system calls that programs make by number, \<open>msim/src/sim/syscall.c\<close>: a \<open>syscall\<close> that takes the
  place of the C library's and sends three calls to the library functions that the simulator
  intercepts. The arguments of the call are registers of 64 bits, of which \<open>va_arg\<close> takes as much as
  the type it is given. Numbers are those of Linux on x86-64.
\<close>

section \<open>The call\<close>

definition SYS_recvmmsg :: "64 word" where "SYS_recvmmsg = 299"
definition SYS_sendmmsg :: "64 word" where "SYS_sendmmsg = 307"
definition SYS_getrandom :: "64 word" where "SYS_getrandom = 318"

text \<open>What is called instead; pointers are addresses.\<close>

datatype redirected =
    ToGetrandom u64 u64 u32
  | ToSendmmsg "32 word" u64 u32 "32 word"
  | ToRecvmmsg "32 word" u64 u32 "32 word" u64
  | ToLibc "64 word" "nat \<Rightarrow> 64 word"

definition syscall :: "64 word \<Rightarrow> (nat \<Rightarrow> 64 word) \<Rightarrow> redirected" where
  "syscall call args =
     (if call = SYS_getrandom then ToGetrandom (args 0) (args 1) (ucast (args 2))
      else if call = SYS_sendmmsg then ToSendmmsg (ucast (args 0)) (args 1) (ucast (args 2)) (ucast (args 3))
      else if call = SYS_recvmmsg then
        ToRecvmmsg (ucast (args 0)) (args 1) (ucast (args 2)) (ucast (args 3)) (args 4)
      else ToLibc call args)"

section \<open>The callers\<close>

text \<open>
  How a call by name would pass its arguments: an \<open>int\<close> is extended with its sign, an \<open>unsigned int\<close>
  with zeros. Whatever the upper half of a register holds, the redirected call gets the same.
\<close>

fun by_number :: "redirected \<Rightarrow> 64 word \<times> (nat \<Rightarrow> 64 word)" where
  "by_number (ToGetrandom buf len flags) = (SYS_getrandom, nth [buf, len, ucast flags])"
| "by_number (ToSendmmsg fd vec vlen flags) = (SYS_sendmmsg, nth [scast fd, vec, ucast vlen, scast flags])"
| "by_number (ToRecvmmsg fd vec vlen flags timeout) =
     (SYS_recvmmsg, nth [scast fd, vec, ucast vlen, scast flags, timeout])"
| "by_number (ToLibc call args) = (call, args)"

lemma narrow_wide [simp]: "ucast (scast (x :: 32 word) :: 64 word) = x" "ucast (ucast (x :: 32 word) :: 64 word) = x"
  by (transfer, simp add: take_bit_signed_take_bit)+

lemma numbers_differ:
  "SYS_getrandom \<noteq> SYS_sendmmsg" "SYS_getrandom \<noteq> SYS_recvmmsg" "SYS_sendmmsg \<noteq> SYS_recvmmsg"
  by (simp_all add: SYS_getrandom_def SYS_sendmmsg_def SYS_recvmmsg_def)

text \<open>
  A call by number is the call by name: what is redirected gets the arguments the caller gave, and
  every other call goes to the C library as it is.
\<close>

lemma syscall_by_name:
  assumes "case r of ToLibc call args \<Rightarrow> call \<notin> {SYS_getrandom, SYS_sendmmsg, SYS_recvmmsg} | _ \<Rightarrow> True"
  shows "case_prod syscall (by_number r) = r"
  using assms numbers_differ by (cases r) (simp_all add: syscall_def)


end
