(* ===== verification/Spec2Isabelle.thy ===== *)
theory Spec2Isabelle
  imports Stream_Calls Quantum_Facts Tick_Interval Tcp_Facts Fs_Facts Join_Facts Sim_World Tokio_Runtime
    Sim_Test_Facts Collections Rpc_Macros Teardown_Facts Net_Runtime Descriptors Redirect
begin

text \<open>
  \<^bold>\<open>A model of mysten-sim\<close>

  mysten-sim is a deterministic simulator for asynchronous Rust programs. A program runs on one
  thread, on virtual nodes with their own tasks, sockets and files; time is virtual and jumps to the
  next event when nothing can run; every choice the simulator makes is drawn from one seeded
  generator, so that a run can be repeated. The crate \<open>msim\<close> holds the simulator, \<open>msim-tokio\<close> the
  parts of tokio rebuilt on it, \<open>msim-macros\<close> the test attribute and the macros for remote calls.

  \<^bold>\<open>How the parts interact.\<close> \<open>Runtime::block_on\<close> enters the thread's context and runs the executor. The
  executor receives runnables from its queue at random and polls them; in between it gives the threads
  of the blocking pool one turn each, and when nothing is left it lets the clock jump to the next
  event of the timer queue and fires what is due. A send on the network draws a latency and
  registers the delivery as a timer event of the receiving node; when it fires, the mailbox of the
  socket gets the message and wakes the readers. Killing a node flags its incarnation as killed,
  asks the pool to unwind its jobs, disables its timers and resets it in every registered simulator
  (the network and the file system). TCP streams, UDP sockets and the intercepted socket calls are
  layers over endpoints, which are sockets of the network.

  \<^bold>\<open>Theories and code\<close> (paths under \<open>src/\<close>).
  \<^item> \<open>Sim_Prelude\<close>: panics as the results of type \<open>run\<close>, \<open>io::Result\<close>, identifiers, operations of
    Rust's vectors, rules for sequencing (\<open>run_simps\<close>).
  \<^item> \<open>Binary_Heap\<close>, \<open>Timer\<close>: \<open>msim/src/sim/time/timer.rs\<close>. The heap of the standard library is modelled
    with its sift operations, because the order of events with equal deadlines depends on them; its
    contract is the locale \<open>priority_queue\<close>, proved for every total preorder in \<open>heap_order\<close> and
    interpreted for the order of events.
  \<^item> \<open>Virtual_Time\<close>, \<open>Tick_Interval\<close>: \<open>time/mod.rs\<close>, \<open>instant.rs\<close>, \<open>sleep.rs\<close>, \<open>error.rs\<close>, \<open>interval.rs\<close>:
    the clock, the jump to the next event, sleeping, timeouts, the intercepted clock calls, ticking.
  \<^item> \<open>Sim_Rand\<close>: \<open>rand.rs\<close>, \<open>utils/mpsc.rs\<close>: the global generator with its log and its check of a
    repetition, the queue that gives its elements at random.
  \<^item> \<open>Net_Config\<close>, \<open>Mailbox\<close>, \<open>Network\<close>, \<open>Network_Facts\<close>: \<open>net/config.rs\<close>, \<open>net/network.rs\<close>: nodes,
    addresses, sockets, clogs, loss and latency of a message, delivery, TCP sessions.
  \<^item> \<open>Endpoint\<close>, \<open>Socket_Api\<close>, \<open>Socket_Facts\<close>: \<open>net/mod.rs\<close>: the network simulator, endpoints, and the
    intercepted calls \<open>socket\<close>, \<open>bind\<close>, \<open>listen\<close>, \<open>connect\<close>, \<open>accept\<close>, \<open>sendmsg\<close>, \<open>recvmsg\<close> and others.
  \<^item> \<open>Descriptors\<close>, \<open>Redirect\<close>: \<open>net/mod.rs\<close>, \<open>syscall.c\<close>: the real descriptors that simulated sockets
    reserve, and the system calls made by number.
  \<^item> \<open>Tcp\<close>, \<open>Tcp_Facts\<close>, \<open>Tcp_Socket\<close>: \<open>msim-tokio/src/sim/net.rs\<close>, \<open>poller.rs\<close>: streams, listeners,
    sockets; a connection as a transition system over the code's own steps.
  \<^item> \<open>Udp_Socket\<close>, \<open>Stream_Calls\<close>: \<open>msim-tokio/src/sim/udp.rs\<close>, \<open>io.rs\<close>, and the calls of \<open>net.rs\<close> and
    \<open>net/mod.rs\<close> around the streams: halves, options, connected endpoints, readiness.
  \<^item> \<open>Task_Node\<close>, \<open>Executor\<close>, \<open>Executor_Facts\<close>, \<open>Executor_Types\<close>: \<open>task.rs\<close>, \<open>task/blocking.rs\<close> and the calls of
    \<open>runtime::Handle\<close>: nodes, incarnations, spawning, killing, pausing, graceful shutdown, the ready
    loop, the blocking pool, the main loop with its checks for deadlock and time limit.
  \<^item> \<open>Quantum\<close>, \<open>Quantum_Facts\<close>: the handshake of \<open>task/blocking.rs\<close> between operating system threads.
  \<^item> \<open>Join\<close>, \<open>Join_Facts\<close>: the join and abort handles of \<open>task.rs\<close>, \<open>task/join_set.rs\<close>.
  \<^item> \<open>Fs\<close>, \<open>Fs_Facts\<close>: \<open>fs.rs\<close>, with the poisoning of its locks.
  \<^item> \<open>Runtime\<close>, \<open>Runtime_Facts\<close>: \<open>runtime/mod.rs\<close>, \<open>runtime/context.rs\<close>, \<open>intercept.rs\<close>: construction,
    context, the switch for interception, the watchdog.
  \<^item> \<open>Sim_Plugin\<close>, \<open>Sim_World\<close>: \<open>plugin.rs\<close>: the trait \<open>Simulator\<close> as the locale \<open>simulator_plugin\<close>,
    interpreted for the network and for the file system; the executor with both of them registered, as
    \<open>Handle::kill\<close>, \<open>Handle::delete_node\<close> and \<open>NodeBuilder::build\<close> use them. The locale \<open>sims_invariant\<close> of
    \<open>Executor_Types\<close> carries an invariant of simulators through every step of the executor.
  \<^item> \<open>Net_Runtime\<close>: the network on the executor's clock, timer and generator, which in the code are the
    same objects; from a send to the receiver's ready task.
  \<^item> \<open>Teardown\<close>, \<open>Teardown_Facts\<close>: the end of a simulation: \<open>Drop for Executor\<close> of \<open>task.rs\<close>, \<open>Drop for
    PoolShared\<close> of \<open>task/blocking.rs\<close>, and the fields in the order in which they are dropped, with the
    thread-local state in which each future and job goes.
  \<^item> \<open>Node_Handle\<close>, \<open>Tokio_Runtime\<close>: the handles to nodes of \<open>task.rs\<close> and \<open>runtime/mod.rs\<close>, the future
    that wraps a spawned one; \<open>msim-tokio/src/sim/runtime.rs\<close> and the mocked crate futures-timer.
  \<^item> \<open>Collections\<close>: \<open>collections.rs\<close>: maps and sets whose hashers are seeded from the generator.
  \<^item> \<open>Sim_Test\<close>, \<open>Sim_Test_Facts\<close>: \<open>msim-macros/src/lib.rs\<close>, \<open>config.rs\<close>: the arguments of \<open>sim_test\<close>
    and the loops of the test it generates.
  \<^item> \<open>Rpc_Macros\<close>: \<open>msim-macros/src/service.rs\<close>, \<open>request.rs\<close>: what the two macros generate from their input.

  \<^bold>\<open>State and operations.\<close> A structure of the code is a record with its fields, a method a function from
  the state to the result and the new state. A panic is the value \<open>Panic\<close> of type \<open>run\<close>, an error of
  type \<open>io::Error\<close> the value \<open>Err\<close>. What the code shares by reference (endpoints, mailboxes,
  incarnations, inodes, inner handles) lives in a store and is named by a number; where the last
  reference matters, dropping it is an operation of its own. An asynchronous function is given by
  the state changes between its suspensions.

  \<^bold>\<open>What the lemmas show.\<close> The timer fires exactly what is due, in order, and nothing of a disabled
  node; the network's tables agree with each other after any operations; a send schedules one
  delivery with the right content or refuses; on the executor's clock a message sent is in flight until
  it is due and then in the mailbox, with the waiting tasks ready, while a killed node gets nothing any
  more; a late message reaches no other socket; a delivery
  serves one receiver or is queued, and no wake-up is lost; the bytes read from a stream are a prefix
  of those written, and reading makes progress; after a kill no task of the old incarnation is
  polled and its blocking jobs unwind; a graceful shutdown keeps its budget; the main loop is a run
  of the executor's transition system, every state of which is well formed; the pool's threads run one at a time and compute what the
  sequential model says, without deadlock; a file reads back what was written and no node sees
  another's files; the executor, the network and the file system know the same nodes in every reachable
  state, so that killing or deleting a node never panics in a simulator; a replay is accepted by the
  generator's check; the watchdog and the test loops do what their specifications say; a collection
  read back from its serialisation is equal to it; \<open>service\<close> registers exactly the marked methods.
  Dropping the runtime after \<open>block_on\<close> drops what is parked or queued with interception off, and never
  panics, unless a thread is still in a job or a shutdown has been begun; a socket keeps its descriptor
  as long as its own node closes it, and what goes wrong otherwise is stated too.

  \<^bold>\<open>Bounds.\<close> A connection is considered for up to \<open>2 ^ 32\<close> messages in one direction, since the sequence
  number of 32 bits then repeats. The main loop gives up after 10,000 rounds with parked jobs only;
  the clock panics after 100,000,000 readings without progress; the watchdog fires after 12 equal
  readings. The ready loop and the main loop may run forever and are \<open>partial_function\<close>s into
  \<open>option\<close>; the theorems about them are about their steps, or about the runs that return. All other
  loops are total: by structure, by the size of a heap, or by the size of a join set. Arithmetic is
  checked as in a debug build (an overflow panics) and \<open>usize\<close> has 64 bits; where the code wraps, so
  do the words of the model.

  \<^bold>\<open>Parameters.\<close> The generator of the rand crate (\<open>rng_ops\<close>, with \<open>rng_ok\<close> where its documented bounds
  matter), the simulated program (\<open>env\<close>: what its tasks, jobs and destructors call), the tasks of
  async_task and the order in which \<open>FuturesUnordered\<close> polls (\<open>task_ops\<close>), whether the receiver of a
  one-shot channel is alive, the addresses a name resolves to, the descriptors the operating system
  gives, the order in which a map of nodes is dropped and in which the pool's threads unwind, the hash table of the standard library (\<open>table_ops\<close> with \<open>table_ok\<close>: look-up after an insertion,
  and an iteration that gives every entry once), and the parser of types of syn.

  \<^bold>\<open>Not modelled.\<close> Logging; the panic hooks; pointer arithmetic on C structures; the methods that are
  \<open>todo!()\<close> or \<open>unimplemented!()\<close> and no more, among them all of the Unix sockets; the run-time part of
  remote calls, which is not in the repository; at the end of a simulation, futures that only their
  own wakers keep alive, which are never dropped.
\<close>

end
